theory Spec2Isabelle
  imports Main "HOL-Library.Sublist"
begin

section \<open>Exceptions, events and the simulated world\<close>

text \<open>
  The program drives a browser through Selenium, watches a download directory and calls
  PyPDF2 and Outlook. Its own control flow (retries, fallbacks, polling loops, the
  try/except boundaries) is embedded function by function. What lies outside the program
  is an environment \<open>env\<close>: the module-level configuration constants, and one oracle per
  external call that says what the call answers when it is made at a given reading of the
  clock. Every theorem holds for every environment.

  The wall clock is simulated in milliseconds; it advances in \<^verbatim>\<open>time.sleep\<close> only.
  Every call that acts on the browser, changes a file or sends mail, and every log record,
  is appended to a trace, so that "nothing was done" and "this was logged" are statements
  about the trace. Reads of the file system (a directory listing, a size, a modification
  time, the pages of a PDF, the recipient list) are answered by their oracle and leave no
  entry.

  The Selenium helpers \<^verbatim>\<open>click_anywhere\<close>, \<^verbatim>\<open>switch_to_frame_with\<close> and
  \<^verbatim>\<open>_has_loading_indicators\<close>, and the collaborators \<^verbatim>\<open>setup_edge_driver\<close>,
  \<^verbatim>\<open>read_recipients\<close> and \<^verbatim>\<open>send_email_outlook_html\<close> are not unfolded: the oracle
  decides whether such a call returns or raises, and the time spent inside it (its own
  waits and pauses) is not counted. A string is a list of code points below 256.

  A Python exception is a value of type \<open>error\<close>; only subclasses of \<^verbatim>\<open>Exception\<close> are
  modelled. Messages and log templates are written in ASCII (the source's Portuguese
  literals lose their diacritics); the interpolated values of an f-string are kept beside
  the template.
\<close>

datatype error =
    ValueError string
  | TimeoutError string
  | RuntimeError string
  | IndexError string
  | OSError string
  | WebDriverException string

datatype level = INFO | WARNING | ERROR

datatype selector =
    Export_btn
  | Overflow
  | Pdf_item
  | File_menu
  | Export_sub
  | Pdf_item2
  | Export_to_pdf_btn
  | Pdf_span_button
  | Ok_button
  | Dialog_ok_btn
  | Text_OK
  | Text_Exportar
  | Text_Export
  | Tag_button

datatype arg = S string | I int | E error | L "string list"

datatype event =
    Log level string "arg list"
  | Default_content
  | Wait_iframe
  | Loading_indicators
  | Click_anywhere selector bool
  | Switch_to_frame_with selector
  | Find_buttons
  | Js_click nat
  | Get string
  | Wait_ready_state
  | Refresh
  | Remove string
  | Move string string
  | Write_pdf string "nat list"
  | Setup_driver string
  | Quit
  | Send_email "string list" string string string

record world =
  clock :: int
  trace :: "event list"

record report =
  name :: string
  url :: string
  extract_page :: "int option"
  drop_pages :: "int list option"
  drop_last_pages :: "int option"

record env =
  PRE_EXPORT_COOLDOWN_SEC :: int
  IDLE_STABLE_SECONDS :: int
  IDLE_TIMEOUT_SEC :: int
  DOWNLOAD_TIMEOUT_SEC :: int
  FORCE_EXPORT_IMMEDIATE :: bool
  IMMEDIATE_TRIES :: int
  DATA_HOJE :: string
  RUN_DIR :: string
  EMAIL_LIST_DIR :: string
  REPORTS :: "report list"
  default_content_res :: "int \<Rightarrow> error option"
  wait_iframe_res :: "int \<Rightarrow> error option"
  loading_indicators_res :: "int \<Rightarrow> error + bool"
  click_anywhere_res :: "int \<Rightarrow> selector \<Rightarrow> bool \<Rightarrow> error option"
  switch_to_frame_with_res :: "int \<Rightarrow> selector \<Rightarrow> error + bool"
  find_buttons_res :: "int \<Rightarrow> error + (error + string) list"
  js_click_res :: "int \<Rightarrow> nat \<Rightarrow> error option"
  get_res :: "int \<Rightarrow> string \<Rightarrow> error option"
  wait_ready_state_res :: "int \<Rightarrow> error option"
  refresh_res :: "int \<Rightarrow> error option"
  listdir_res :: "int \<Rightarrow> string \<Rightarrow> error + string list"
  getmtime_res :: "int \<Rightarrow> string \<Rightarrow> error + int"
  getsize_res :: "int \<Rightarrow> string \<Rightarrow> error + nat"
  path_exists_res :: "int \<Rightarrow> string \<Rightarrow> bool"
  remove_res :: "int \<Rightarrow> string \<Rightarrow> error option"
  move_res :: "int \<Rightarrow> string \<Rightarrow> string \<Rightarrow> error option"
  read_pdf_res :: "int \<Rightarrow> string \<Rightarrow> error + nat list"
  write_pdf_res :: "int \<Rightarrow> string \<Rightarrow> error option"
  setup_driver_res :: "int \<Rightarrow> error option"
  quit_res :: "int \<Rightarrow> error option"
  read_recipients_res :: "int \<Rightarrow> string \<Rightarrow> error + string list"
  send_email_res :: "int \<Rightarrow> error option"

type_synonym 'a prog = "world \<Rightarrow> (error + 'a) \<times> world"

definition emit :: "event \<Rightarrow> world \<Rightarrow> world" where
  "emit e w = w\<lparr>trace := trace w @ [e]\<rparr>"

definition sleep :: "int \<Rightarrow> world \<Rightarrow> world" where
  "sleep ms w = w\<lparr>clock := clock w + ms\<rparr>"

definition log :: "level \<Rightarrow> string \<Rightarrow> arg list \<Rightarrow> world \<Rightarrow> world" where
  "log lv template args w = emit (Log lv template args) w"

definition ret :: "'a \<Rightarrow> 'a prog" where
  "ret x w = (Inr x, w)"

definition raise :: "error \<Rightarrow> 'a prog" where
  "raise e w = (Inl e, w)"

definition bnd :: "'a prog \<Rightarrow> ('a \<Rightarrow> 'b prog) \<Rightarrow> 'b prog" where
  "bnd m f w = (case m w of (Inl e, w') \<Rightarrow> (Inl e, w') | (Inr x, w') \<Rightarrow> f x w')"

definition seq :: "'a prog \<Rightarrow> 'b prog \<Rightarrow> 'b prog" where
  "seq m n = bnd m (\<lambda>_. n)"

definition effect :: "(world \<Rightarrow> world) \<Rightarrow> unit prog" where
  "effect f w = (Inr (), f w)"

definition try_except :: "'a prog \<Rightarrow> (error \<Rightarrow> 'a prog) \<Rightarrow> 'a prog" where
  "try_except m h w = (case m w of (Inl e, w') \<Rightarrow> h e w' | (Inr x, w') \<Rightarrow> (Inr x, w'))"

definition call :: "event \<Rightarrow> error option \<Rightarrow> unit prog" where
  "call ev res w = ((case res of None \<Rightarrow> Inr () | Some e \<Rightarrow> Inl e), emit ev w)"

definition ask :: "event \<Rightarrow> error + 'a \<Rightarrow> 'a prog" where
  "ask ev res w = (res, emit ev w)"

section \<open>The report model\<close>

definition flags :: "report \<Rightarrow> nat" where
  "flags rep = (if extract_page rep \<noteq> None then 1 else 0)
             + (if drop_pages rep \<noteq> None then 1 else 0)
             + (if drop_last_pages rep \<noteq> None then 1 else 0)"

definition validate :: "report \<Rightarrow> error + unit" where
  "validate rep =
     (if flags rep > 1
      then Inl (ValueError (''Regras ambiguas em '' @ [CHR 0x27] @ name rep @ [CHR 0x27]
             @ '': use apenas uma entre extract_page | drop_pages | drop_last_pages.''))
      else Inr ())"

section \<open>Readiness detector\<close>

definition has_loading_indicators :: "env \<Rightarrow> bool prog" where
  "has_loading_indicators env w = ask Loading_indicators (loading_indicators_res env (clock w)) w"

function wait_idle_loop ::
  "env \<Rightarrow> int \<Rightarrow> int \<Rightarrow> string \<Rightarrow> int option \<Rightarrow> world \<Rightarrow> (error + bool) \<times> world" where
  "wait_idle_loop env end stable_required rep_name stable_start w =
     (if clock w < end then
        (case has_loading_indicators env w of
           (Inl e, w1) \<Rightarrow> (Inl e, w1)
         | (Inr busy, w1) \<Rightarrow>
             if \<not> busy then
               (let w2 = (if stable_start = None
                          then log INFO ''[{}] Sem loading - iniciando janela de estabilidade''
                                 [S rep_name] w1
                          else w1);
                    s = (case stable_start of None \<Rightarrow> clock w1 | Some s0 \<Rightarrow> s0)
                in if clock w2 - s \<ge> 1000 * stable_required
                   then (Inr True, log INFO ''[{}] Estavel por {}s.'' [S rep_name, I stable_required] w2)
                   else wait_idle_loop env end stable_required rep_name (Some s) (sleep 400 w2))
             else wait_idle_loop env end stable_required rep_name None (sleep 400 w1))
      else (Inl (TimeoutError (''['' @ rep_name @ ''] Nao ficou estavel a tempo.'')), w))"
  by pat_completeness auto
termination
  by (relation "measure (\<lambda>(env, end, sr, rn, ss, w). nat (end - clock w))")
     (auto simp: has_loading_indicators_def ask_def emit_def sleep_def log_def)

declare wait_idle_loop.simps [simp del]

definition wait_report_idle :: "env \<Rightarrow> int \<Rightarrow> int \<Rightarrow> string \<Rightarrow> bool prog" where
  "wait_report_idle env timeout stable_required rep_name w =
     wait_idle_loop env (clock w + 1000 * timeout) stable_required rep_name None w"


section \<open>Browser primitives\<close>

definition default_content :: "env \<Rightarrow> unit prog" where
  "default_content env w = call Default_content (default_content_res env (clock w)) w"

definition wait_iframe :: "env \<Rightarrow> unit prog" where
  "wait_iframe env w = call Wait_iframe (wait_iframe_res env (clock w)) w"

definition click_anywhere :: "env \<Rightarrow> selector \<Rightarrow> bool \<Rightarrow> unit prog" where
  "click_anywhere env sel must_be_clickable w =
     call (Click_anywhere sel must_be_clickable)
          (click_anywhere_res env (clock w) sel must_be_clickable) w"

definition switch_to_frame_with :: "env \<Rightarrow> selector \<Rightarrow> bool prog" where
  "switch_to_frame_with env sel w =
     ask (Switch_to_frame_with sel) (switch_to_frame_with_res env (clock w) sel) w"

definition find_buttons :: "env \<Rightarrow> (error + string) list prog" where
  "find_buttons env w = ask Find_buttons (find_buttons_res env (clock w)) w"

definition js_click :: "env \<Rightarrow> nat \<Rightarrow> unit prog" where
  "js_click env i w = call (Js_click i) (js_click_res env (clock w) i) w"

definition get :: "env \<Rightarrow> string \<Rightarrow> unit prog" where
  "get env u w = call (Get u) (get_res env (clock w) u) w"

definition wait_ready_state :: "env \<Rightarrow> unit prog" where
  "wait_ready_state env w = call Wait_ready_state (wait_ready_state_res env (clock w)) w"

definition refresh :: "env \<Rightarrow> unit prog" where
  "refresh env w = call Refresh (refresh_res env (clock w)) w"

definition pbix_ready :: "env \<Rightarrow> int \<Rightarrow> unit prog" where
  "pbix_ready env extra_sleep =
     seq (default_content env)
    (seq (try_except (wait_iframe env) (\<lambda>e. ret ()))
         (effect (sleep extra_sleep)))"

section \<open>Menu navigator\<close>

text \<open>The three \<^verbatim>\<open>try\<close> bodies of \<^verbatim>\<open>open_export_menu_unified\<close>, in the order of the source.\<close>

definition strategy_direct :: "env \<Rightarrow> string \<Rightarrow> string prog" where
  "strategy_direct env rep_name =
     seq (effect (log INFO ''[{}] Procurando botao Exportar direto'' [S rep_name]))
    (seq (click_anywhere env Export_btn True)
    (seq (effect (log INFO ''[{}] Menu Exportar (direto).'' [S rep_name]))
         (ret ''direct'')))"

definition strategy_overflow :: "env \<Rightarrow> string \<Rightarrow> string prog" where
  "strategy_overflow env rep_name =
     seq (effect (log INFO ''[{}] Tentando overflow'' [S rep_name]))
    (seq (click_anywhere env Overflow True)
    (seq (effect (sleep 400))
    (seq (click_anywhere env Pdf_item False)
    (seq (effect (log INFO ''[{}] Exportar para PDF via overflow.'' [S rep_name]))
         (ret ''overflow'')))))"

definition strategy_filemenu :: "env \<Rightarrow> string \<Rightarrow> string prog" where
  "strategy_filemenu env rep_name =
     seq (effect (log INFO ''[{}] Tentando Arquivo - Exportar - PDF'' [S rep_name]))
    (seq (click_anywhere env File_menu True)
    (seq (effect (sleep 400))
    (seq (click_anywhere env Export_sub False)
    (seq (effect (sleep 400))
    (seq (click_anywhere env Pdf_item2 False)
    (seq (effect (log INFO ''[{}] PDF via Arquivo.'' [S rep_name]))
         (ret ''filemenu'')))))))"

definition no_viable_path :: "string \<Rightarrow> error" where
  "no_viable_path rep_name =
     RuntimeError (''['' @ rep_name @ ''] Nao consegui abrir o menu de exportacao.'')"

definition open_export_menu_unified :: "env \<Rightarrow> string \<Rightarrow> string prog" where
  "open_export_menu_unified env rep_name =
     seq (pbix_ready env 500)
    (try_except (strategy_direct env rep_name)
       (\<lambda>e.
     seq (effect (log INFO ''[{}] Exportar direto nao disponivel: {}'' [S rep_name, E e]))
    (try_except (strategy_overflow env rep_name)
       (\<lambda>e.
     seq (effect (log INFO ''[{}] Overflow indisponivel: {}'' [S rep_name, E e]))
    (try_except (strategy_filemenu env rep_name)
       (\<lambda>e.
     seq (effect (log INFO ''[{}] Arquivo-Exportar indisponivel: {}'' [S rep_name, E e]))
         (raise (no_viable_path rep_name))))))))"

section \<open>Confirmation dialog\<close>

definition is_space :: "char \<Rightarrow> bool" where
  "is_space c = (let n = (of_char c :: nat)
                 in (9 \<le> n \<and> n \<le> 13) \<or> (28 \<le> n \<and> n \<le> 32) \<or> n = 133 \<or> n = 160)"

definition strip :: "string \<Rightarrow> string" where
  "strip s = rev (dropWhile is_space (rev (dropWhile is_space s)))"

definition lower_char :: "char \<Rightarrow> char" where
  "lower_char c = (let n = (of_char c :: nat)
                   in if (65 \<le> n \<and> n \<le> 90) \<or> (192 \<le> n \<and> n \<le> 222 \<and> n \<noteq> 215)
                      then char_of (n + 32) else c)"

definition lower :: "string \<Rightarrow> string" where
  "lower s = map lower_char s"

definition startswith :: "string \<Rightarrow> string \<Rightarrow> bool" where
  "startswith s p = (take (length p) s = p)"

definition endswith :: "string \<Rightarrow> string \<Rightarrow> bool" where
  "endswith s p = (length p \<le> length s \<and> drop (length s - length p) s = p)"

fun confirm_selectors :: "env \<Rightarrow> string \<Rightarrow> selector list \<Rightarrow> bool prog" where
  "confirm_selectors env rep_name [] w = (Inr False, w)"
| "confirm_selectors env rep_name (sel # sels) w =
     (case click_anywhere env sel True w of
        (Inr u, w1) \<Rightarrow> (Inr True, log INFO ''[{}] Confirmacao do dialogo acionada.'' [S rep_name] w1)
      | (Inl e, w1) \<Rightarrow> confirm_selectors env rep_name sels w1)"

fun confirm_buttons :: "env \<Rightarrow> string \<Rightarrow> (error + string) list \<Rightarrow> nat \<Rightarrow> bool prog" where
  "confirm_buttons env rep_name [] i w = (Inr False, w)"
| "confirm_buttons env rep_name (b # bs) i w =
     (case b of
        Inl e \<Rightarrow> (Inl e, w)
      | Inr text \<Rightarrow>
          if lower (strip text) \<in> {''ok'', ''exportar'', ''export''}
          then (case js_click env i w of
                  (Inl e, w1) \<Rightarrow> (Inl e, w1)
                | (Inr u, w1) \<Rightarrow>
                    (Inr True, log INFO ''[{}] Confirmacao via fallback de texto.'' [S rep_name] w1))
          else confirm_buttons env rep_name bs (Suc i) w)"

definition confirm_pdf_export :: "env \<Rightarrow> string \<Rightarrow> bool prog" where
  "confirm_pdf_export env rep_name =
     seq (default_content env)
    (bnd (confirm_selectors env rep_name
            [Ok_button, Dialog_ok_btn, Text_OK, Text_Exportar, Text_Export])
      (\<lambda>clicked. if clicked then ret True else
     bnd (try_except
            (seq (default_content env)
            (bnd (find_buttons env) (\<lambda>bs. confirm_buttons env rep_name bs 0)))
            (\<lambda>e. seq (effect (log ERROR ''[{}] Falha na confirmacao: {}'' [S rep_name, E e]))
                      (ret False)))
      (\<lambda>clicked. if clicked then ret True else
     raise (RuntimeError (''['' @ rep_name @ ''] Nao consegui confirmar exportacao.'')))))"

section \<open>Export orchestrator\<close>

definition export_to_pdf_immediate :: "env \<Rightarrow> string \<Rightarrow> unit prog" where
  "export_to_pdf_immediate env rep_name =
     seq (if PRE_EXPORT_COOLDOWN_SEC env > 0
          then effect (sleep (1000 * PRE_EXPORT_COOLDOWN_SEC env)) else ret ())
    (bnd (open_export_menu_unified env rep_name) (\<lambda>path_used.
     seq (if path_used = ''direct''
          then try_except (click_anywhere env Export_to_pdf_btn True)
                          (\<lambda>e. click_anywhere env Pdf_span_button True)
          else ret ())
    (seq (confirm_pdf_export env rep_name)
         (effect (log INFO ''[{}] Exportacao acionada (modo imediato).'' [S rep_name])))))"

definition export_to_pdf_with_idle :: "env \<Rightarrow> string \<Rightarrow> unit prog" where
  "export_to_pdf_with_idle env rep_name =
     seq (switch_to_frame_with env Tag_button)
    (seq (wait_report_idle env (IDLE_TIMEOUT_SEC env) (IDLE_STABLE_SECONDS env) rep_name)
         (export_to_pdf_immediate env rep_name))"

fun immediate_loop :: "env \<Rightarrow> string \<Rightarrow> int list \<Rightarrow> bool prog" where
  "immediate_loop env rep_name [] w = (Inr False, w)"
| "immediate_loop env rep_name (attempt # rest) w =
     (case export_to_pdf_immediate env rep_name
             (log INFO ''[{}] Export imediato (tentativa {}/{})''
                [S rep_name, I attempt, I (IMMEDIATE_TRIES env)] w) of
        (Inr u, w1) \<Rightarrow> (Inr True, w1)
      | (Inl e, w1) \<Rightarrow>
          (case refresh env (log WARNING ''[{}] Imediato falhou: {}'' [S rep_name, E e] w1) of
             (Inl e', w2) \<Rightarrow> (Inl e', w2)
           | (Inr u, w2) \<Rightarrow> immediate_loop env rep_name rest (sleep 1000 w2)))"

definition export_orchestrator :: "env \<Rightarrow> string \<Rightarrow> unit prog" where
  "export_orchestrator env rep_name =
     bnd (if FORCE_EXPORT_IMMEDIATE env
          then immediate_loop env rep_name [1..IMMEDIATE_TRIES env]
          else ret False)
      (\<lambda>immediate_ok.
         if \<not> immediate_ok
         then seq (effect (log INFO ''[{}] Fallback com idle'' [S rep_name]))
                  (export_to_pdf_with_idle env rep_name)
         else ret ())"


section \<open>PDF helpers\<close>

text \<open>
  A PDF is the list of its pages, a page a natural number. \<open>read_pdf\<close> is opening a file
  with \<^verbatim>\<open>PdfReader\<close>, \<open>write_pdf\<close> is opening the destination and \<^verbatim>\<open>writer.write\<close>.
\<close>

definition result :: "error + 'a \<Rightarrow> 'a prog" where
  "result r w = (r, w)"

definition read_pdf :: "env \<Rightarrow> string \<Rightarrow> nat list prog" where
  "read_pdf env src w = (read_pdf_res env (clock w) src, w)"

definition write_pdf :: "env \<Rightarrow> string \<Rightarrow> nat list \<Rightarrow> unit prog" where
  "write_pdf env dst pages w = call (Write_pdf dst pages) (write_pdf_res env (clock w) dst) w"

definition page_at :: "nat list \<Rightarrow> int \<Rightarrow> error + nat" where
  "page_at pages i =
     (let k = (if i < 0 then i + int (length pages) else i)
      in if k < 0 \<or> int (length pages) \<le> k
         then Inl (IndexError ''sequence index out of range'')
         else Inr (pages ! nat k))"

fun add_pages :: "nat list \<Rightarrow> nat list \<Rightarrow> nat list \<Rightarrow> error + nat list" where
  "add_pages pages [] writer = Inr writer"
| "add_pages pages (i # rest) writer =
     (case page_at pages (int i) of
        Inl e \<Rightarrow> Inl e
      | Inr pg \<Rightarrow> add_pages pages rest (writer @ [pg]))"

fun merger_append :: "env \<Rightarrow> string list \<Rightarrow> nat list \<Rightarrow> nat list prog" where
  "merger_append env [] m w = (Inr m, w)"
| "merger_append env (p # ps) m w =
     (case read_pdf env p w of
        (Inl e, w1) \<Rightarrow> (Inl e, w1)
      | (Inr pages, w1) \<Rightarrow> merger_append env ps (m @ pages) w1)"

definition merge_pdfs :: "env \<Rightarrow> string list \<Rightarrow> string \<Rightarrow> unit prog" where
  "merge_pdfs env paths output =
     seq (effect (log INFO ''Mesclando {} PDFs em {}'' [I (int (length paths)), S output]))
    (bnd (merger_append env paths [])
      (\<lambda>m. seq (write_pdf env output m)
                (effect (log INFO ''Mesclagem concluida.'' []))))"

definition extract_single_page :: "env \<Rightarrow> string \<Rightarrow> string \<Rightarrow> int \<Rightarrow> unit prog" where
  "extract_single_page env src dst page_no =
     bnd (read_pdf env src)
      (\<lambda>pages. bnd (result (page_at pages (page_no - 1)))
      (\<lambda>pg. write_pdf env dst [pg]))"

definition strip_last_pages :: "env \<Rightarrow> string \<Rightarrow> string \<Rightarrow> int \<Rightarrow> unit prog" where
  "strip_last_pages env src dst n_last =
     bnd (read_pdf env src)
      (\<lambda>pages. let total = int (length pages) in
         bnd (result (add_pages pages [0..<nat (max 0 (total - n_last))] []))
      (\<lambda>writer. write_pdf env dst writer))"

definition strip_specific_pages :: "env \<Rightarrow> string \<Rightarrow> string \<Rightarrow> int list \<Rightarrow> unit prog" where
  "strip_specific_pages env src dst pages_to_remove =
     bnd (read_pdf env src)
      (\<lambda>pages. let total = length pages in
         bnd (result (add_pages pages
                 (filter (\<lambda>i. int i + 1 \<notin> set pages_to_remove) [0..<total]) []))
      (\<lambda>writer. write_pdf env dst writer))"

section \<open>Paths and numbers as text\<close>

text \<open>
  \<^verbatim>\<open>os.path\<close> is the module \<^verbatim>\<open>posixpath\<close>: the separator is the slash. In
  \<^verbatim>\<open>os.path.join\<close> a second component that starts with the separator replaces the first;
  otherwise it is appended, after a separator unless the first is empty or ends with one.
  \<^verbatim>\<open>os.path.basename\<close> is what follows the last separator.
\<close>

definition os_sep :: char where
  "os_sep = CHR ''/''"

definition os_path_join :: "string \<Rightarrow> string \<Rightarrow> string" where
  "os_path_join a b =
     (if startswith b [os_sep] then b
      else if a = [] \<or> endswith a [os_sep] then a @ b
      else a @ [os_sep] @ b)"

definition os_path_basename :: "string \<Rightarrow> string" where
  "os_path_basename p = rev (takeWhile (\<lambda>c. c \<noteq> os_sep) (rev p))"

fun str_nat :: "nat \<Rightarrow> string" where
  "str_nat n = (if n < 10 then [char_of (48 + n)] else str_nat (n div 10) @ [char_of (48 + n mod 10)])"

declare str_nat.simps [simp del]

definition str_int :: "int \<Rightarrow> string" where
  "str_int i = (if i < 0 then CHR ''-'' # str_nat (nat (- i)) else str_nat (nat i))"

section \<open>Download watcher\<close>

definition is_temp_file :: "string \<Rightarrow> bool" where
  "is_temp_file fn =
     (let f = lower fn
      in endswith f ''.crdownload'' \<or> endswith f ''.tmp'' \<or> endswith f ''.part''
         \<or> endswith f ''.partial'')"

definition is_pdf :: "string \<Rightarrow> bool" where
  "is_pdf n = endswith (lower n) ''.pdf''"

definition is_download :: "string \<Rightarrow> bool" where
  "is_download n =
     (let f = lower n
      in endswith f ''.pdf'' \<or> endswith f ''.crdownload'' \<or> endswith f ''.tmp''
         \<or> endswith f ''.part'' \<or> endswith f ''.partial'')"

text \<open>
  The new entries are kept as a list, in the order of the listing. Python holds them in a
  set, whose iteration order is its own: which of several files with the same latest
  modification time \<^verbatim>\<open>max\<close> picks is therefore not fixed by the source, and the statements
  only use that the modification time of the file picked is the greatest.
\<close>

definition new_entries :: "string list \<Rightarrow> string list \<Rightarrow> string list" where
  "new_entries listing existing_files = filter (\<lambda>n. n \<notin> set existing_files) listing"

fun getmtimes :: "env \<Rightarrow> int \<Rightarrow> string list \<Rightarrow> error + (string \<times> int) list" where
  "getmtimes env t [] = Inr []"
| "getmtimes env t (p # ps) =
     (case getmtime_res env t p of
        Inl e \<Rightarrow> Inl e
      | Inr m \<Rightarrow> (case getmtimes env t ps of
                    Inl e \<Rightarrow> Inl e
                  | Inr r \<Rightarrow> Inr ((p, m) # r)))"

fun max_by_key :: "string \<times> int \<Rightarrow> (string \<times> int) list \<Rightarrow> string \<times> int" where
  "max_by_key best [] = best"
| "max_by_key best (x # xs) = max_by_key (if snd x > snd best then x else best) xs"

definition latest_path :: "env \<Rightarrow> int \<Rightarrow> string list \<Rightarrow> error + string" where
  "latest_path env t paths =
     (case getmtimes env t paths of
        Inl e \<Rightarrow> Inl e
      | Inr [] \<Rightarrow> Inl (ValueError ''max() arg is an empty sequence'')
      | Inr (x # xs) \<Rightarrow> Inr (fst (max_by_key x xs)))"

function download_loop ::
  "env \<Rightarrow> string \<Rightarrow> string list \<Rightarrow> string \<Rightarrow> int \<Rightarrow> bool \<Rightarrow> string option \<Rightarrow> world
     \<Rightarrow> (error + string) \<times> world" where
  "download_loop env download_dir existing_files rep_name deadline started last_base w =
     (if clock w < deadline then
        (case listdir_res env (clock w) download_dir of
           Inl e \<Rightarrow> (Inl e, w)
         | Inr listing \<Rightarrow>
             (let new = new_entries listing existing_files;
                  detected = (\<not> started \<and> list_ex is_download new);
                  started1 = (started \<or> detected);
                  w1 = (if detected
                        then log INFO ''[{}] Download detectado: {}'' [S rep_name, L new] w
                        else w);
                  pdfs = filter is_pdf new;
                  temps = filter is_temp_file new
              in if started1 \<and> pdfs \<noteq> [] \<and> temps = [] then
                   (case latest_path env (clock w1) (map (os_path_join download_dir) pdfs) of
                      Inl e \<Rightarrow> (Inl e, w1)
                    | Inr latest \<Rightarrow>
                        (case getsize_res env (clock w1) latest of
                           Inl e \<Rightarrow> (Inl e, w1)
                         | Inr s1 \<Rightarrow>
                             (case getsize_res env (clock w1 + 1200) latest of
                                Inl e \<Rightarrow> (Inl e, sleep 1200 w1)
                              | Inr s2 \<Rightarrow>
                                  if s1 = s2 \<and> s2 > 0
                                  then (Inr latest,
                                        log INFO ''[{}] Download concluido: {} ({} bytes)''
                                          [S rep_name, S (os_path_basename latest), I (int s2)]
                                          (sleep 1200 w1))
                                  else
                                    (let base = os_path_basename latest;
                                         w2 = (if Some base \<noteq> last_base
                                               then log INFO ''[{}] Aguardando finalizar ({} - {})''
                                                      [S rep_name, I (int s1), I (int s2)]
                                                      (sleep 1200 w1)
                                               else sleep 1200 w1)
                                     in download_loop env download_dir existing_files rep_name
                                          deadline started1 (Some base) (sleep 800 w2)))))
                 else download_loop env download_dir existing_files rep_name deadline
                        started1 last_base (sleep 800 w1)))
      else (Inl (TimeoutError (''['' @ rep_name @ ''] Nao baixou PDF a tempo.'')), w))"
  by pat_completeness auto
termination
  by (relation "measure (\<lambda>(env, d, ex, rn, deadline, st, lb, w). nat (deadline - clock w))")
     (auto simp: emit_def sleep_def log_def)

declare download_loop.simps [simp del]

definition wait_for_pdf_download ::
  "env \<Rightarrow> string \<Rightarrow> string list \<Rightarrow> string \<Rightarrow> int \<Rightarrow> string prog" where
  "wait_for_pdf_download env download_dir existing_files rep_name timeout w =
     download_loop env download_dir existing_files rep_name (clock w + 1000 * timeout)
       False None (log INFO ''[{}] Aguardando download'' [S rep_name] w)"


section \<open>Batch runner\<close>

definition listdir :: "env \<Rightarrow> string \<Rightarrow> string list prog" where
  "listdir env d w = (listdir_res env (clock w) d, w)"

definition path_exists :: "env \<Rightarrow> string \<Rightarrow> bool prog" where
  "path_exists env p w = (Inr (path_exists_res env (clock w) p), w)"

definition remove :: "env \<Rightarrow> string \<Rightarrow> unit prog" where
  "remove env p w = call (Remove p) (remove_res env (clock w) p) w"

definition move :: "env \<Rightarrow> string \<Rightarrow> string \<Rightarrow> unit prog" where
  "move env src dst w = call (Move src dst) (move_res env (clock w) src dst) w"

text \<open>Python's truth value of an optional number and of an optional list.\<close>

definition truthy_int :: "int option \<Rightarrow> int option" where
  "truthy_int x = (case x of None \<Rightarrow> None | Some i \<Rightarrow> if i = 0 then None else Some i)"

definition truthy_list :: "int list option \<Rightarrow> int list option" where
  "truthy_list x = (case x of None \<Rightarrow> None | Some xs \<Rightarrow> if xs = [] then None else Some xs)"

definition destino_path :: "env \<Rightarrow> report \<Rightarrow> string" where
  "destino_path env rep = os_path_join (RUN_DIR env) (name rep @ ''_'' @ DATA_HOJE env @ ''.pdf'')"

definition apply_page_rule :: "env \<Rightarrow> report \<Rightarrow> string \<Rightarrow> string prog" where
  "apply_page_rule env rep destino =
     (let rep_name = name rep in
      case truthy_int (extract_page rep) of
        Some page_no \<Rightarrow>
          (let only = os_path_join (RUN_DIR env)
                 (rep_name @ ''_'' @ DATA_HOJE env @ ''_pg'' @ str_int page_no @ ''.pdf'')
           in seq (effect (log INFO ''[{}] Extraindo pagina {}'' [S rep_name, I page_no]))
             (seq (extract_single_page env destino only page_no)
                  (ret only)))
      | None \<Rightarrow>
     (case truthy_int (drop_last_pages rep) of
        Some n_last \<Rightarrow>
          (let trimmed = os_path_join (RUN_DIR env)
                 (rep_name @ ''_'' @ DATA_HOJE env @ ''_sem_ult.pdf'')
           in seq (effect (log INFO ''[{}] Removendo ultimas {} pag.'' [S rep_name, I n_last]))
             (seq (strip_last_pages env destino trimmed n_last)
                  (ret trimmed)))
      | None \<Rightarrow>
     (case truthy_list (drop_pages rep) of
        Some pages_to_remove \<Rightarrow>
          (let trimmed = os_path_join (RUN_DIR env)
                 (rep_name @ ''_'' @ DATA_HOJE env @ ''_sem_paginas.pdf'')
           in seq (effect (log INFO ''[{}] Removendo paginas: {}''
                             [S rep_name, L (map str_int pages_to_remove)]))
             (seq (strip_specific_pages env destino trimmed pages_to_remove)
                  (ret trimmed)))
      | None \<Rightarrow> ret destino)))"

text \<open>
  The body of the \<^verbatim>\<open>try\<close> block of \<^verbatim>\<open>process_single_report\<close>, in its three consecutive
  parts: opening the report, the export orchestration, and what follows the export.
\<close>

definition open_report :: "env \<Rightarrow> report \<Rightarrow> string list prog" where
  "open_report env rep =
     seq (effect (log INFO ''==== Iniciando: {} ===='' [S (name rep)]))
    (bnd (listdir env (RUN_DIR env)) (\<lambda>existing.
     seq (get env (url rep))
    (seq (wait_ready_state env)
    (seq (pbix_ready env 500)
         (ret existing)))))"

definition finish_report :: "env \<Rightarrow> report \<Rightarrow> string list \<Rightarrow> string prog" where
  "finish_report env rep existing =
     bnd (wait_for_pdf_download env (RUN_DIR env) existing (name rep) (DOWNLOAD_TIMEOUT_SEC env))
      (\<lambda>pdf_tmp. let destino = destino_path env rep in
     seq (bnd (path_exists env destino) (\<lambda>ex. if ex then remove env destino else ret ()))
    (seq (move env pdf_tmp destino)
    (seq (effect (log INFO ''[{}] Salvo: {}'' [S (name rep), S destino]))
    (bnd (apply_page_rule env rep destino) (\<lambda>final_path.
     seq (effect (log INFO ''==== Finalizado: {} ===='' [S (name rep)]))
         (ret final_path))))))"

definition report_body :: "env \<Rightarrow> report \<Rightarrow> string prog" where
  "report_body env rep =
     bnd (open_report env rep) (\<lambda>existing.
     seq (export_orchestrator env (name rep))
         (finish_report env rep existing))"

definition process_single_report :: "env \<Rightarrow> report \<Rightarrow> string option prog" where
  "process_single_report env rep =
     seq (result (validate rep))
         (try_except
            (bnd (report_body env rep) (\<lambda>final_path. ret (Some final_path)))
            (\<lambda>e. seq (effect (log ERROR ''Erro em {}'' [S (name rep), E e]))
                      (ret None)))"

fun run_loop ::
  "env \<Rightarrow> report list \<Rightarrow> string list \<Rightarrow> string list \<Rightarrow> (string list \<times> string list) prog" where
  "run_loop env [] ok_paths falhas w = (Inr (ok_paths, falhas), w)"
| "run_loop env (rep # reps) ok_paths falhas w =
     (case process_single_report env rep w of
        (Inl e, w1) \<Rightarrow> (Inl e, w1)
      | (Inr out, w1) \<Rightarrow>
          (case out of
             Some p \<Rightarrow>
               if p \<noteq> []
               then run_loop env reps (ok_paths @ [p]) falhas (sleep 500 w1)
               else run_loop env reps ok_paths (falhas @ [name rep]) (sleep 500 w1)
           | None \<Rightarrow> run_loop env reps ok_paths (falhas @ [name rep]) (sleep 500 w1)))"

definition run_all_reports :: "env \<Rightarrow> report list \<Rightarrow> (string list \<times> string list) prog" where
  "run_all_reports env reports = run_loop env reports [] []"

section \<open>Notification and main\<close>

definition dq :: string where
  "dq = [CHR 0x22]"

definition nl :: string where
  "nl = CHR 0x0A # ''    ''"

definition failed_html :: "string list \<Rightarrow> string" where
  "failed_html failed_names =
     (if failed_names \<noteq> []
      then ''<p><b>Falhas:</b></p><ul>''
           @ concat (map (\<lambda>n. ''<li>'' @ n @ ''</li>'') failed_names) @ ''</ul>''
      else [])"

definition build_email_html :: "env \<Rightarrow> report list \<Rightarrow> string list \<Rightarrow> string" where
  "build_email_html env ok_reports failed_names =
     (let lis_ok = map (\<lambda>r. ''<li>'' @ name r @ '' - <a href='' @ dq @ url r @ dq
                              @ ''>abrir</a></li>'') ok_reports
      in nl @ ''<p>Bom dia,</p>''
       @ nl @ ''<p>Segue o PDF diario consolidado (data '' @ DATA_HOJE env @ '') em anexo.</p>''
       @ nl @ ''<p>Relatorios processados:</p>''
       @ nl @ ''<ul>'' @ concat lis_ok @ ''</ul>''
       @ nl @ failed_html failed_names
       @ nl @ ''<p>Atenciosamente,<br>Sua Equipe</p>''
       @ nl)"

definition PDF_FINAL_PATH :: "env \<Rightarrow> string" where
  "PDF_FINAL_PATH env = os_path_join (RUN_DIR env) (''IndicadoresDiarios_'' @ DATA_HOJE env @ ''.pdf'')"

definition setup_edge_driver :: "env \<Rightarrow> string \<Rightarrow> unit prog" where
  "setup_edge_driver env download_dir w =
     call (Setup_driver download_dir) (setup_driver_res env (clock w)) w"

definition quit :: "env \<Rightarrow> unit prog" where
  "quit env w = call Quit (quit_res env (clock w)) w"

definition read_recipients :: "env \<Rightarrow> string \<Rightarrow> string list prog" where
  "read_recipients env folder w = (read_recipients_res env (clock w) folder, w)"

definition send_email_outlook_html ::
  "env \<Rightarrow> string list \<Rightarrow> string \<Rightarrow> string \<Rightarrow> string \<Rightarrow> unit prog" where
  "send_email_outlook_html env to_list subject html_body attach w =
     call (Send_email to_list subject html_body attach) (send_email_res env (clock w)) w"

definition try_finally :: "'a prog \<Rightarrow> (world \<Rightarrow> world) \<Rightarrow> 'a prog" where
  "try_finally m fin w = (case m w of (r, w1) \<Rightarrow> (r, fin w1))"

definition main_finally :: "env \<Rightarrow> world \<Rightarrow> world" where
  "main_finally env w =
     log INFO ''Execucao finalizada.'' [] (snd (try_except (quit env) (\<lambda>e. ret ()) w))"

definition main_after_batch :: "env \<Rightarrow> string list \<Rightarrow> string list \<Rightarrow> unit prog" where
  "main_after_batch env ok_paths falhas =
     (if ok_paths = []
      then effect (log ERROR ''Nenhum PDF baixado com sucesso. Abortando mescla/envio.'' [])
      else
        seq (merge_pdfs env ok_paths (PDF_FINAL_PATH env))
       (bnd (read_recipients env (EMAIL_LIST_DIR env)) (\<lambda>recipients.
          if recipients = []
          then effect (log WARNING ''Nenhum destinatario encontrado. Nao havera envio.'' [])
          else
            (let ok_reports = filter (\<lambda>r. list_ex (\<lambda>p. startswith (os_path_basename p)
                                                         (name r @ ''_'')) ok_paths)
                                (REPORTS env);
                 html = build_email_html env ok_reports falhas;
                 subject = ''Indicadores diarios ('' @ DATA_HOJE env @ '')''
             in send_email_outlook_html env recipients subject html (PDF_FINAL_PATH env)))))"

definition main :: "env \<Rightarrow> unit prog" where
  "main env =
     seq (effect (log INFO ''Iniciando execucao principal'' []))
    (seq (setup_edge_driver env (RUN_DIR env))
         (try_finally
            (bnd (run_all_reports env (REPORTS env))
               (\<lambda>(ok_paths, falhas). main_after_batch env ok_paths falhas))
            (main_finally env)))"


section \<open>Notions used in the statements\<close>

text \<open>
  The path \<open>process_single_report\<close> returns for a report when it succeeds; it depends on
  the report and the configuration only (the branches of \<open>apply_page_rule\<close>).
\<close>

definition final_path :: "env \<Rightarrow> report \<Rightarrow> string" where
  "final_path env rep =
     (case truthy_int (extract_page rep) of
        Some page_no \<Rightarrow> os_path_join (RUN_DIR env)
            (name rep @ ''_'' @ DATA_HOJE env @ ''_pg'' @ str_int page_no @ ''.pdf'')
      | None \<Rightarrow>
     (case truthy_int (drop_last_pages rep) of
        Some n_last \<Rightarrow> os_path_join (RUN_DIR env) (name rep @ ''_'' @ DATA_HOJE env @ ''_sem_ult.pdf'')
      | None \<Rightarrow>
     (case truthy_list (drop_pages rep) of
        Some pages_to_remove \<Rightarrow>
          os_path_join (RUN_DIR env) (name rep @ ''_'' @ DATA_HOJE env @ ''_sem_paginas.pdf'')
      | None \<Rightarrow> destino_path env rep)))"

text \<open>The reports of a list that a list of success flags marks, in the order of the list.\<close>

definition marked :: "bool \<Rightarrow> report list \<Rightarrow> bool list \<Rightarrow> report list" where
  "marked b reports succ = map fst (filter (\<lambda>x. snd x = b) (zip reports succ))"

text \<open>
  In \<open>wait_idle_loop\<close>, after a poll that found no loading indicator: the start of the
  stability window, and the world (the first such poll logs the start of the window).
\<close>

definition window_start :: "int option \<Rightarrow> world \<Rightarrow> int" where
  "window_start ss w = (case ss of None \<Rightarrow> clock w | Some s \<Rightarrow> s)"

definition window_world :: "string \<Rightarrow> int option \<Rightarrow> world \<Rightarrow> world" where
  "window_world rn ss w =
     (if ss = None
      then log INFO ''[{}] Sem loading - iniciando janela de estabilidade'' [S rn]
             (emit Loading_indicators w)
      else emit Loading_indicators w)"


definition dl_world :: "string \<Rightarrow> bool \<Rightarrow> string list \<Rightarrow> world \<Rightarrow> world" where
  "dl_world rn started new w =
     (if \<not> started \<and> list_ex is_download new
      then log INFO ''[{}] Download detectado: {}'' [S rn, L new] w else w)"


definition dl_retry_world ::
  "string \<Rightarrow> string option \<Rightarrow> string \<Rightarrow> nat \<Rightarrow> nat \<Rightarrow> world \<Rightarrow> world" where
  "dl_retry_world rn last_base latest s1 s2 w1 =
     (if Some (os_path_basename latest) \<noteq> last_base
      then log INFO ''[{}] Aguardando finalizar ({} - {})'' [S rn, I (int s1), I (int s2)]
             (sleep 1200 w1)
      else sleep 1200 w1)"

text \<open>
  The two blocks of the immediate loop of \<open>process_single_report\<close>: the body of its
  \<^verbatim>\<open>try\<close> for attempt number \<open>attempt\<close> (the log line and \<open>export_to_pdf_immediate\<close>), and its
  \<^verbatim>\<open>except\<close> handler (the warning, \<^verbatim>\<open>driver.refresh()\<close>, the pause of one second).
  \<open>immediate_loop env rn [1..k] w = (Inr False, v)\<close> then says that the attempts 1 to \<open>k\<close>
  all raised and each handler returned, which leads from \<open>w\<close> to \<open>v\<close>.
\<close>

definition immediate_attempt :: "env \<Rightarrow> string \<Rightarrow> int \<Rightarrow> unit prog" where
  "immediate_attempt env rep_name attempt =
     seq (effect (log INFO ''[{}] Export imediato (tentativa {}/{})''
                    [S rep_name, I attempt, I (IMMEDIATE_TRIES env)]))
         (export_to_pdf_immediate env rep_name)"

definition reload_after :: "env \<Rightarrow> string \<Rightarrow> error \<Rightarrow> unit prog" where
  "reload_after env rep_name e =
     seq (effect (log WARNING ''[{}] Imediato falhou: {}'' [S rep_name, E e]))
    (seq (refresh env)
         (effect (sleep 1000)))"

text \<open>
  The two steps of \<open>export_to_pdf_immediate\<close> around the navigation: the pause before it,
  and the additional button of the direct variant after it.
\<close>

definition cooldown :: "env \<Rightarrow> world \<Rightarrow> world" where
  "cooldown env w =
     (if PRE_EXPORT_COOLDOWN_SEC env > 0 then sleep (1000 * PRE_EXPORT_COOLDOWN_SEC env) w else w)"

definition pdf_button :: "env \<Rightarrow> string \<Rightarrow> unit prog" where
  "pdf_button env path_used =
     (if path_used = ''direct''
      then try_except (click_anywhere env Export_to_pdf_btn True)
                      (\<lambda>e. click_anywhere env Pdf_span_button True)
      else ret ())"

text \<open>
  The records the orchestrator leaves in the trace: the log line before each immediate
  attempt, the warning after a failed one, the reload, and the log line before the
  fallback. \<open>calm w w'\<close>: the trace of \<open>w'\<close> extends that of \<open>w\<close> by none of them;
  \<open>quiet f\<close>: running \<open>f\<close> is calm; \<open>counts w w' a f r b\<close>: how many of each were added.
\<close>

definition is_attempt :: "event \<Rightarrow> bool" where
  "is_attempt ev = (case ev of Log lv t args \<Rightarrow> t = ''[{}] Export imediato (tentativa {}/{})''
                    | _ \<Rightarrow> False)"

definition is_failed :: "event \<Rightarrow> bool" where
  "is_failed ev = (case ev of Log lv t args \<Rightarrow> t = ''[{}] Imediato falhou: {}'' | _ \<Rightarrow> False)"

definition is_fallback :: "event \<Rightarrow> bool" where
  "is_fallback ev = (case ev of Log lv t args \<Rightarrow> t = ''[{}] Fallback com idle'' | _ \<Rightarrow> False)"

definition is_refresh :: "event \<Rightarrow> bool" where
  "is_refresh ev = (ev = Refresh)"

definition orch_event :: "event \<Rightarrow> bool" where
  "orch_event ev = (is_attempt ev \<or> is_failed ev \<or> is_fallback ev \<or> is_refresh ev)"

definition calm :: "world \<Rightarrow> world \<Rightarrow> bool" where
  "calm w w' = (\<exists>evs. trace w' = trace w @ evs \<and> (\<forall>e\<in>set evs. \<not> orch_event e))"

definition quiet :: "'a prog \<Rightarrow> bool" where
  "quiet f = (\<forall>w. calm w (snd (f w)))"

definition counts :: "world \<Rightarrow> world \<Rightarrow> nat \<Rightarrow> nat \<Rightarrow> nat \<Rightarrow> nat \<Rightarrow> bool" where
  "counts w w' a f r b =
     (\<exists>evs. trace w' = trace w @ evs
        \<and> length (filter is_attempt evs) = a \<and> length (filter is_failed evs) = f
        \<and> length (filter is_refresh evs) = r \<and> length (filter is_fallback evs) = b)"

section \<open>Concrete environments\<close>

text \<open>
  \<open>env0\<close> holds the defaults of the configuration constants and an environment in which
  every external call succeeds at once: no loading indicator, an empty directory.
\<close>

definition env0 :: env where
  "env0 = \<lparr>
     PRE_EXPORT_COOLDOWN_SEC = 1,
     IDLE_STABLE_SECONDS = 5,
     IDLE_TIMEOUT_SEC = 90,
     DOWNLOAD_TIMEOUT_SEC = 600,
     FORCE_EXPORT_IMMEDIATE = True,
     IMMEDIATE_TRIES = 3,
     DATA_HOJE = ''2026-01-05'',
     RUN_DIR = ''run'',
     EMAIL_LIST_DIR = ''emails'',
     REPORTS = [],
     default_content_res = (\<lambda>t. None),
     wait_iframe_res = (\<lambda>t. None),
     loading_indicators_res = (\<lambda>t. Inr False),
     click_anywhere_res = (\<lambda>t sel c. None),
     switch_to_frame_with_res = (\<lambda>t sel. Inr True),
     find_buttons_res = (\<lambda>t. Inr []),
     js_click_res = (\<lambda>t i. None),
     get_res = (\<lambda>t u. None),
     wait_ready_state_res = (\<lambda>t. None),
     refresh_res = (\<lambda>t. None),
     listdir_res = (\<lambda>t d. Inr []),
     getmtime_res = (\<lambda>t p. Inr 0),
     getsize_res = (\<lambda>t p. Inr 0),
     path_exists_res = (\<lambda>t p. False),
     remove_res = (\<lambda>t p. None),
     move_res = (\<lambda>t p q. None),
     read_pdf_res = (\<lambda>t p. Inr []),
     write_pdf_res = (\<lambda>t p. None),
     setup_driver_res = (\<lambda>t. None),
     quit_res = (\<lambda>t. None),
     read_recipients_res = (\<lambda>t d. Inr []),
     send_email_res = (\<lambda>t. None) \<rparr>"

definition w0 :: world where
  "w0 = \<lparr>clock = 0, trace = []\<rparr>"

text \<open>The four reports of the source's \<^verbatim>\<open>REPORTS\<close>, and one with two page rules.\<close>

definition Relatorio_A :: report where
  "Relatorio_A = \<lparr>name = ''Relatorio_A'', url = ''link_A'', extract_page = None,
                   drop_pages = None, drop_last_pages = None\<rparr>"

definition Relatorio_B :: report where
  "Relatorio_B = \<lparr>name = ''Relatorio_B'', url = ''link_B'', extract_page = None,
                   drop_pages = Some [4], drop_last_pages = None\<rparr>"

definition Relatorio_C :: report where
  "Relatorio_C = \<lparr>name = ''Relatorio_C'', url = ''link_C'', extract_page = Some 5,
                   drop_pages = None, drop_last_pages = None\<rparr>"

definition Relatorio_D :: report where
  "Relatorio_D = \<lparr>name = ''Relatorio_D'', url = ''link_D'', extract_page = None,
                   drop_pages = None, drop_last_pages = Some 1\<rparr>"

definition Relatorio_X :: report where
  "Relatorio_X = \<lparr>name = ''Relatorio_X'', url = ''link_X'', extract_page = Some 5,
                   drop_pages = None, drop_last_pages = Some 1\<rparr>"

text \<open>An environment in which the direct button and the overflow menu cannot be clicked.\<close>

definition env_filemenu :: env where
  "env_filemenu = env0\<lparr>click_anywhere_res :=
      (\<lambda>t sel c. if sel = Export_btn \<or> sel = Overflow
                 then Some (TimeoutError ''Elemento nao encontrado'') else None)\<rparr>"

text \<open>An environment in which no report URL can be loaded, and one with two readable PDFs.\<close>

definition env_no_get :: env where
  "env_no_get = env0\<lparr>get_res := (\<lambda>t u. Some (WebDriverException ''net::ERR_NAME_NOT_RESOLVED''))\<rparr>"

definition env_pdfs :: env where
  "env_pdfs = env0\<lparr>read_pdf_res := (\<lambda>t p. if p = ''a.pdf'' then Inr [1, 2] else Inr [3])\<rparr>"

text \<open>An environment whose busy signal turns idle 100 ms after time 0 and stays idle.\<close>

definition env_idle_at_100 :: env where
  "env_idle_at_100 = env0\<lparr>loading_indicators_res := (\<lambda>t. Inr (t < 100))\<rparr>"

text \<open>
  A run of two reports: the first is exported at the first immediate attempt and its
  download is complete at once, the URL of the second cannot be loaded. The recipient
  list is a parameter.
\<close>

definition env_scenario :: "string list \<Rightarrow> env" where
  "env_scenario recipients = env0\<lparr>
     REPORTS := [Relatorio_A, Relatorio_B],
     get_res := (\<lambda>t u. if u = ''link_B'' then Some (WebDriverException ''unreachable'') else None),
     listdir_res := (\<lambda>t d. Inr (if t < 1000 then [] else [''export.pdf''])),
     getsize_res := (\<lambda>t p. Inr 1000),
     read_pdf_res := (\<lambda>t p. Inr [1, 2, 3]),
     read_recipients_res := (\<lambda>t d. Inr recipients)\<rparr>"


text \<open>
  An environment in which no element can ever be clicked and the loading indicators never
  go away; and one in which no element can be clicked and the browser stops answering
  \<^verbatim>\<open>driver.refresh()\<close> six seconds after the start.
\<close>

definition env_stuck :: env where
  "env_stuck = env0\<lparr>
     click_anywhere_res := (\<lambda>t sel c. Some (TimeoutError ''Elemento nao encontrado'')),
     loading_indicators_res := (\<lambda>t. Inr True)\<rparr>"

definition env_reload_dies :: env where
  "env_reload_dies = env0\<lparr>
     click_anywhere_res := (\<lambda>t sel c. Some (TimeoutError ''Elemento nao encontrado'')),
     refresh_res := (\<lambda>t. if t < 6000 then None else Some (WebDriverException ''dead''))\<rparr>"

section \<open>Basic facts about the world\<close>

lemma clock_emit [simp]: "clock (emit e w) = clock w"
  by (simp add: emit_def)

lemma clock_log [simp]: "clock (log lv t a w) = clock w"
  by (simp add: log_def)

lemma clock_sleep [simp]: "clock (sleep d w) = clock w + d"
  by (simp add: sleep_def)

section \<open>Readiness detector: the timeout\<close>

lemma has_loading_indicators_value:
  "loading_indicators_res env (clock w) = Inr b \<Longrightarrow>
   has_loading_indicators env w = (Inr b, emit Loading_indicators w)"
  by (simp add: has_loading_indicators_def ask_def)

lemma wait_idle_loop_busy:
  "(\<forall>t. clock w \<le> t \<and> t < end \<longrightarrow> loading_indicators_res env t = Inr True) \<Longrightarrow>
   \<exists>w'. wait_idle_loop env end sr rn ss w
          = (Inl (TimeoutError (''['' @ rn @ ''] Nao ficou estavel a tempo.'')), w')
        \<and> end \<le> clock w'"
proof (induction env "end" sr rn ss w rule: wait_idle_loop.induct)
  case (1 env "end" sr rn ss w)
  show ?case
  proof (cases "clock w < end")
    case False
    then show ?thesis
      by (simp add: wait_idle_loop.simps[of env "end" sr rn ss w])
  next
    case True
    with "1.prems" have b: "loading_indicators_res env (clock w) = Inr True"
      by simp
    note h = has_loading_indicators_value[OF b]
    have nxt: "\<forall>t. clock (sleep 400 (emit Loading_indicators w)) \<le> t \<and> t < end
                 \<longrightarrow> loading_indicators_res env t = Inr True"
      using "1.prems" by simp
    from "1.IH"(2)[OF True h[symmetric] refl] nxt
    obtain w' where r:
      "wait_idle_loop env end sr rn None (sleep 400 (emit Loading_indicators w))
         = (Inl (TimeoutError (''['' @ rn @ ''] Nao ficou estavel a tempo.'')), w')"
      "end \<le> clock w'"
      by auto
    have "wait_idle_loop env end sr rn ss w
            = wait_idle_loop env end sr rn None (sleep 400 (emit Loading_indicators w))"
      using True h by (simp add: wait_idle_loop.simps[of env "end" sr rn ss w])
    with r show ?thesis by simp
  qed
qed

text \<open>
  C5. If the busy predicate answers "busy" at every instant of the window that starts at
  the call and lasts \<open>timeout\<close> seconds, \<open>wait_report_idle\<close> raises \<open>TimeoutError\<close>, and the
  clock then reads at least the time of the call plus \<open>timeout\<close>: the error is never raised
  earlier, and success is never returned.
\<close>

theorem wait_report_idle_busy_times_out:
  assumes "\<forall>t. clock w \<le> t \<and> t < clock w + 1000 * timeout
               \<longrightarrow> loading_indicators_res env t = Inr True"
  shows "\<exists>msg w'. wait_report_idle env timeout stable_required rep_name w
                     = (Inl (TimeoutError msg), w')
                 \<and> clock w + 1000 * timeout \<le> clock w'"
  using wait_idle_loop_busy[OF assms] unfolding wait_report_idle_def by blast

theorem wait_report_idle_busy_times_out_witness:
  "\<exists>msg w'. wait_report_idle (env0\<lparr>loading_indicators_res := (\<lambda>t. Inr True)\<rparr>) 2 5 ''Relatorio_A'' w0
                  = (Inl (TimeoutError msg), w')
              \<and> clock w0 + 1000 * 2 \<le> clock w'"
  using wait_report_idle_busy_times_out
          [of w0 2 "env0\<lparr>loading_indicators_res := (\<lambda>t. Inr True)\<rparr>" 5 "''Relatorio_A''"]
  by simp

section \<open>Validation precedes every interaction\<close>

text \<open>
  C7. For a report with two or more page rules set, \<open>process_single_report\<close> raises the
  \<open>ValueError\<close> of \<open>validate\<close> and leaves the world as it found it: the trace has no new
  entry, so the report's URL was not loaded and the browser was not touched for it.
\<close>

theorem process_single_report_rejects_ambiguous:
  assumes "2 \<le> flags rep"
  shows "\<exists>msg. process_single_report env rep w = (Inl (ValueError msg), w)"
  using assms
  by (simp add: process_single_report_def seq_def bnd_def result_def validate_def)

theorem process_single_report_rejects_ambiguous_witness:
  "\<exists>msg. process_single_report env0 Relatorio_X w0 = (Inl (ValueError msg), w0)"
  using process_single_report_rejects_ambiguous[of Relatorio_X env0 w0]
  by (simp add: flags_def Relatorio_X_def)

section \<open>Dropping more pages than there are\<close>

text \<open>
  C10. When the source PDF can be read and \<open>n_last\<close> is at least its number of pages,
  \<open>strip_last_pages\<close> does exactly what writing the empty document to \<open>dst\<close> does: no
  page is copied and no index error is raised; if the write itself succeeds the call
  returns normally.
\<close>

theorem strip_last_pages_truncates:
  assumes "read_pdf_res env (clock w) src = Inr pages" and "int (length pages) \<le> n_last"
  shows "strip_last_pages env src dst n_last w = write_pdf env dst [] w
       \<and> (write_pdf_res env (clock w) dst = None
            \<longrightarrow> strip_last_pages env src dst n_last w = (Inr (), emit (Write_pdf dst []) w))"
  using assms
  by (simp add: strip_last_pages_def bnd_def read_pdf_def result_def write_pdf_def call_def)

theorem strip_last_pages_truncates_witness:
  "strip_last_pages (env0\<lparr>read_pdf_res := (\<lambda>t p. Inr [1, 2, 3])\<rparr>) ''a.pdf'' ''b.pdf'' 5 w0
     = (Inr (), emit (Write_pdf ''b.pdf'' []) w0)"
  using strip_last_pages_truncates
          [of "env0\<lparr>read_pdf_res := (\<lambda>t p. Inr [1, 2, 3])\<rparr>" w0 "''a.pdf''" "[1, 2, 3]" 5 "''b.pdf''"]
  by (simp add: env0_def write_pdf_def call_def)

section \<open>Menu navigator: ordered fallthrough\<close>

lemma trace_emit [simp]: "trace (emit e w) = trace w @ [e]"
  by (simp add: emit_def)

lemma trace_log [simp]: "trace (log lv t a w) = trace w @ [Log lv t a]"
  by (simp add: log_def)

lemma trace_sleep [simp]: "trace (sleep d w) = trace w"
  by (simp add: sleep_def)

lemma strategy_direct_tag: "strategy_direct env rn w = (Inr t, w') \<Longrightarrow> t = ''direct''"
  by (auto simp: strategy_direct_def seq_def bnd_def effect_def ret_def click_anywhere_def call_def split: option.splits)

lemma strategy_overflow_tag: "strategy_overflow env rn w = (Inr t, w') \<Longrightarrow> t = ''overflow''"
  by (auto simp: strategy_overflow_def seq_def bnd_def effect_def ret_def click_anywhere_def call_def split: option.splits)

lemma strategy_filemenu_tag: "strategy_filemenu env rn w = (Inr t, w') \<Longrightarrow> t = ''filemenu''"
  by (auto simp: strategy_filemenu_def seq_def bnd_def effect_def ret_def click_anywhere_def call_def split: option.splits)

lemma open_unfold:
  assumes "pbix_ready env 500 w = (Inr (), v)"
  shows "open_export_menu_unified env rn w =
     (case strategy_direct env rn v of
        (Inr t, w1) \<Rightarrow> (Inr t, w1)
      | (Inl e1, w1) \<Rightarrow>
        (case strategy_overflow env rn
                (log INFO ''[{}] Exportar direto nao disponivel: {}'' [S rn, E e1] w1) of
           (Inr t, w2) \<Rightarrow> (Inr t, w2)
         | (Inl e2, w2) \<Rightarrow>
           (case strategy_filemenu env rn
                   (log INFO ''[{}] Overflow indisponivel: {}'' [S rn, E e2] w2) of
              (Inr t, w3) \<Rightarrow> (Inr t, w3)
            | (Inl e3, w3) \<Rightarrow>
                (Inl (no_viable_path rn),
                 log INFO ''[{}] Arquivo-Exportar indisponivel: {}'' [S rn, E e3] w3))))"
  using assms
  by (simp add: open_export_menu_unified_def seq_def bnd_def try_except_def effect_def raise_def
        split: prod.splits sum.splits)

lemma strategy_overflow_trace:
  "strategy_overflow env rn w = (r, w') \<Longrightarrow> set (trace w) \<subseteq> set (trace w')"
  by (auto simp: strategy_overflow_def seq_def bnd_def effect_def ret_def click_anywhere_def call_def
           split: option.splits)

lemma strategy_filemenu_trace:
  "strategy_filemenu env rn w = (r, w') \<Longrightarrow> set (trace w) \<subseteq> set (trace w')"
  by (auto simp: strategy_filemenu_def seq_def bnd_def effect_def ret_def click_anywhere_def call_def
           split: option.splits)

text \<open>
  C6. Once \<open>pbix_ready\<close> has returned, \<open>open_export_menu_unified\<close> runs the direct button,
  the overflow menu and the file menu in this order, each on the world its predecessor
  left. A strategy that raises is logged with its exception and the next one runs; the
  tag returned is the tag of the strategy that returned (\<open>filemenu\<close> when the first two
  raised and the third returned, both failures being in the trace); the call raises if
  and only if all three strategies raised, and the error is then the "no viable path"
  \<open>RuntimeError\<close>, raised right after the third failure is logged, the first two being in
  the trace already.
\<close>

theorem open_export_menu_unified_fallthrough:
  assumes "pbix_ready env 500 w = (Inr (), v)"
  shows "(\<forall>t w1. strategy_direct env rn v = (Inr t, w1)
            \<longrightarrow> open_export_menu_unified env rn w = (Inr ''direct'', w1))
       \<and> (\<forall>e1 w1 t w2.
            strategy_direct env rn v = (Inl e1, w1)
          \<and> strategy_overflow env rn
               (log INFO ''[{}] Exportar direto nao disponivel: {}'' [S rn, E e1] w1) = (Inr t, w2)
            \<longrightarrow> open_export_menu_unified env rn w = (Inr ''overflow'', w2)
              \<and> Log INFO ''[{}] Exportar direto nao disponivel: {}'' [S rn, E e1] \<in> set (trace w2))
       \<and> (\<forall>e1 w1 e2 w2 t w3.
            strategy_direct env rn v = (Inl e1, w1)
          \<and> strategy_overflow env rn
               (log INFO ''[{}] Exportar direto nao disponivel: {}'' [S rn, E e1] w1) = (Inl e2, w2)
          \<and> strategy_filemenu env rn
               (log INFO ''[{}] Overflow indisponivel: {}'' [S rn, E e2] w2) = (Inr t, w3)
            \<longrightarrow> open_export_menu_unified env rn w = (Inr ''filemenu'', w3)
              \<and> Log INFO ''[{}] Exportar direto nao disponivel: {}'' [S rn, E e1] \<in> set (trace w3)
              \<and> Log INFO ''[{}] Overflow indisponivel: {}'' [S rn, E e2] \<in> set (trace w3))
       \<and> ((\<exists>e w'. open_export_menu_unified env rn w = (Inl e, w'))
            \<longleftrightarrow> (\<exists>e1 w1 e2 w2 e3 w3.
                  strategy_direct env rn v = (Inl e1, w1)
                \<and> strategy_overflow env rn
                     (log INFO ''[{}] Exportar direto nao disponivel: {}'' [S rn, E e1] w1) = (Inl e2, w2)
                \<and> strategy_filemenu env rn
                     (log INFO ''[{}] Overflow indisponivel: {}'' [S rn, E e2] w2) = (Inl e3, w3)))
       \<and> (\<forall>e w'. open_export_menu_unified env rn w = (Inl e, w') \<longrightarrow> e = no_viable_path rn)
       \<and> (\<forall>e1 w1 e2 w2 e3 w3.
            strategy_direct env rn v = (Inl e1, w1)
          \<and> strategy_overflow env rn
               (log INFO ''[{}] Exportar direto nao disponivel: {}'' [S rn, E e1] w1) = (Inl e2, w2)
          \<and> strategy_filemenu env rn
               (log INFO ''[{}] Overflow indisponivel: {}'' [S rn, E e2] w2) = (Inl e3, w3)
            \<longrightarrow> open_export_menu_unified env rn w
                  = (Inl (no_viable_path rn),
                     log INFO ''[{}] Arquivo-Exportar indisponivel: {}'' [S rn, E e3] w3)
              \<and> Log INFO ''[{}] Exportar direto nao disponivel: {}'' [S rn, E e1] \<in> set (trace w3)
              \<and> Log INFO ''[{}] Overflow indisponivel: {}'' [S rn, E e2] \<in> set (trace w3))"
proof -
  note u = open_unfold[OF assms, of rn]
  have a: "\<forall>t w1. strategy_direct env rn v = (Inr t, w1)
            \<longrightarrow> open_export_menu_unified env rn w = (Inr ''direct'', w1)"
    using strategy_direct_tag[of env rn v] by (simp add: u)
  have b: "\<forall>e1 w1 t w2.
            strategy_direct env rn v = (Inl e1, w1)
          \<and> strategy_overflow env rn
               (log INFO ''[{}] Exportar direto nao disponivel: {}'' [S rn, E e1] w1) = (Inr t, w2)
            \<longrightarrow> open_export_menu_unified env rn w = (Inr ''overflow'', w2)
              \<and> Log INFO ''[{}] Exportar direto nao disponivel: {}'' [S rn, E e1] \<in> set (trace w2)"
  proof (intro allI impI, elim conjE)
    fix e1 w1 t w2
    assume 1: "strategy_direct env rn v = (Inl e1, w1)"
       and 2: "strategy_overflow env rn
               (log INFO ''[{}] Exportar direto nao disponivel: {}'' [S rn, E e1] w1) = (Inr t, w2)"
    from strategy_overflow_tag[OF 2] have "t = ''overflow''" .
    moreover from strategy_overflow_trace[OF 2]
    have "Log INFO ''[{}] Exportar direto nao disponivel: {}'' [S rn, E e1] \<in> set (trace w2)"
      by auto
    ultimately show "open_export_menu_unified env rn w = (Inr ''overflow'', w2)
              \<and> Log INFO ''[{}] Exportar direto nao disponivel: {}'' [S rn, E e1] \<in> set (trace w2)"
      using 1 2 by (simp add: u)
  qed
  have c: "\<forall>e1 w1 e2 w2 t w3.
            strategy_direct env rn v = (Inl e1, w1)
          \<and> strategy_overflow env rn
               (log INFO ''[{}] Exportar direto nao disponivel: {}'' [S rn, E e1] w1) = (Inl e2, w2)
          \<and> strategy_filemenu env rn
               (log INFO ''[{}] Overflow indisponivel: {}'' [S rn, E e2] w2) = (Inr t, w3)
            \<longrightarrow> open_export_menu_unified env rn w = (Inr ''filemenu'', w3)
              \<and> Log INFO ''[{}] Exportar direto nao disponivel: {}'' [S rn, E e1] \<in> set (trace w3)
              \<and> Log INFO ''[{}] Overflow indisponivel: {}'' [S rn, E e2] \<in> set (trace w3)"
  proof (intro allI impI, elim conjE)
    fix e1 w1 e2 w2 t w3
    assume 1: "strategy_direct env rn v = (Inl e1, w1)"
       and 2: "strategy_overflow env rn
               (log INFO ''[{}] Exportar direto nao disponivel: {}'' [S rn, E e1] w1) = (Inl e2, w2)"
       and 3: "strategy_filemenu env rn
               (log INFO ''[{}] Overflow indisponivel: {}'' [S rn, E e2] w2) = (Inr t, w3)"
    from strategy_filemenu_tag[OF 3] have t: "t = ''filemenu''" .
    from strategy_overflow_trace[OF 2]
    have l1: "Log INFO ''[{}] Exportar direto nao disponivel: {}'' [S rn, E e1] \<in> set (trace w2)"
      by auto
    from strategy_filemenu_trace[OF 3] l1
    have "Log INFO ''[{}] Exportar direto nao disponivel: {}'' [S rn, E e1] \<in> set (trace w3)"
      and "Log INFO ''[{}] Overflow indisponivel: {}'' [S rn, E e2] \<in> set (trace w3)"
      by auto
    then show "open_export_menu_unified env rn w = (Inr ''filemenu'', w3)
              \<and> Log INFO ''[{}] Exportar direto nao disponivel: {}'' [S rn, E e1] \<in> set (trace w3)
              \<and> Log INFO ''[{}] Overflow indisponivel: {}'' [S rn, E e2] \<in> set (trace w3)"
      using 1 2 3 t by (simp add: u)
  qed
  have d: "(\<exists>e w'. open_export_menu_unified env rn w = (Inl e, w'))
            \<longleftrightarrow> (\<exists>e1 w1 e2 w2 e3 w3.
                  strategy_direct env rn v = (Inl e1, w1)
                \<and> strategy_overflow env rn
                     (log INFO ''[{}] Exportar direto nao disponivel: {}'' [S rn, E e1] w1) = (Inl e2, w2)
                \<and> strategy_filemenu env rn
                     (log INFO ''[{}] Overflow indisponivel: {}'' [S rn, E e2] w2) = (Inl e3, w3))"
    by (auto simp: u split: prod.splits sum.splits)
  have e: "\<forall>e w'. open_export_menu_unified env rn w = (Inl e, w') \<longrightarrow> e = no_viable_path rn"
    by (auto simp: u split: prod.splits sum.splits)
  have f: "\<forall>e1 w1 e2 w2 e3 w3.
            strategy_direct env rn v = (Inl e1, w1)
          \<and> strategy_overflow env rn
               (log INFO ''[{}] Exportar direto nao disponivel: {}'' [S rn, E e1] w1) = (Inl e2, w2)
          \<and> strategy_filemenu env rn
               (log INFO ''[{}] Overflow indisponivel: {}'' [S rn, E e2] w2) = (Inl e3, w3)
            \<longrightarrow> open_export_menu_unified env rn w
                  = (Inl (no_viable_path rn),
                     log INFO ''[{}] Arquivo-Exportar indisponivel: {}'' [S rn, E e3] w3)
              \<and> Log INFO ''[{}] Exportar direto nao disponivel: {}'' [S rn, E e1] \<in> set (trace w3)
              \<and> Log INFO ''[{}] Overflow indisponivel: {}'' [S rn, E e2] \<in> set (trace w3)"
  proof (intro allI impI, elim conjE)
    fix e1 w1 e2 w2 e3 w3
    assume 1: "strategy_direct env rn v = (Inl e1, w1)"
       and 2: "strategy_overflow env rn
               (log INFO ''[{}] Exportar direto nao disponivel: {}'' [S rn, E e1] w1) = (Inl e2, w2)"
       and 3: "strategy_filemenu env rn
               (log INFO ''[{}] Overflow indisponivel: {}'' [S rn, E e2] w2) = (Inl e3, w3)"
    from strategy_overflow_trace[OF 2]
    have l1: "Log INFO ''[{}] Exportar direto nao disponivel: {}'' [S rn, E e1] \<in> set (trace w2)"
      by auto
    from strategy_filemenu_trace[OF 3] l1
    have "Log INFO ''[{}] Exportar direto nao disponivel: {}'' [S rn, E e1] \<in> set (trace w3)"
      and "Log INFO ''[{}] Overflow indisponivel: {}'' [S rn, E e2] \<in> set (trace w3)"
      by auto
    then show "open_export_menu_unified env rn w
                  = (Inl (no_viable_path rn),
                     log INFO ''[{}] Arquivo-Exportar indisponivel: {}'' [S rn, E e3] w3)
              \<and> Log INFO ''[{}] Exportar direto nao disponivel: {}'' [S rn, E e1] \<in> set (trace w3)
              \<and> Log INFO ''[{}] Overflow indisponivel: {}'' [S rn, E e2] \<in> set (trace w3)"
      using 1 2 3 by (simp add: u)
  qed
  from a b c d e f show ?thesis by blast
qed

theorem open_export_menu_unified_fallthrough_witness:
  "\<exists>e1 e2 w'. open_export_menu_unified env_filemenu ''Relatorio_A'' w0 = (Inr ''filemenu'', w')
      \<and> Log INFO ''[{}] Exportar direto nao disponivel: {}'' [S ''Relatorio_A'', E e1] \<in> set (trace w')
      \<and> Log INFO ''[{}] Overflow indisponivel: {}'' [S ''Relatorio_A'', E e2] \<in> set (trace w')"
proof -
  obtain v where r: "pbix_ready env_filemenu 500 w0 = (Inr (), v)"
    by (simp add: pbix_ready_def seq_def bnd_def try_except_def effect_def ret_def
          default_content_def wait_iframe_def call_def env_filemenu_def env0_def)
  obtain e1 w1 where 1: "strategy_direct env_filemenu ''Relatorio_A'' v = (Inl e1, w1)"
    by (simp add: strategy_direct_def seq_def bnd_def effect_def click_anywhere_def call_def
          env_filemenu_def env0_def)
  obtain e2 w2 where 2: "strategy_overflow env_filemenu ''Relatorio_A''
      (log INFO ''[{}] Exportar direto nao disponivel: {}'' [S ''Relatorio_A'', E e1] w1) = (Inl e2, w2)"
    by (simp add: strategy_overflow_def seq_def bnd_def effect_def click_anywhere_def call_def
          env_filemenu_def env0_def)
  obtain t w3 where 3: "strategy_filemenu env_filemenu ''Relatorio_A''
      (log INFO ''[{}] Overflow indisponivel: {}'' [S ''Relatorio_A'', E e2] w2) = (Inr t, w3)"
    by (simp add: strategy_filemenu_def seq_def bnd_def effect_def ret_def click_anywhere_def call_def
          env_filemenu_def env0_def)
  note T = open_export_menu_unified_fallthrough[OF r, of "''Relatorio_A''"]
  from T[THEN conjunct2, THEN conjunct2, THEN conjunct1, rule_format, of e1 w1 e2 w2 t w3] 1 2 3
  have "open_export_menu_unified env_filemenu ''Relatorio_A'' w0 = (Inr ''filemenu'', w3)
      \<and> Log INFO ''[{}] Exportar direto nao disponivel: {}'' [S ''Relatorio_A'', E e1] \<in> set (trace w3)
      \<and> Log INFO ''[{}] Overflow indisponivel: {}'' [S ''Relatorio_A'', E e2] \<in> set (trace w3)"
    by fast
  then show ?thesis by (intro exI)
qed

section \<open>Batch runner: one entry per report\<close>

lemma process_single_report_valid:
  "flags rep \<le> 1 \<Longrightarrow>
   process_single_report env rep w =
     (case report_body env rep w of
        (Inr p, w1) \<Rightarrow> (Inr (Some p), w1)
      | (Inl e, w1) \<Rightarrow> (Inr None, log ERROR ''Erro em {}'' [S (name rep), E e] w1))"
  by (simp add: process_single_report_def seq_def bnd_def result_def validate_def try_except_def
        ret_def effect_def split: prod.splits sum.splits)

lemma process_single_report_invalid:
  "\<not> flags rep \<le> 1 \<Longrightarrow> \<exists>msg. process_single_report env rep w = (Inl (ValueError msg), w)"
  by (simp add: process_single_report_def seq_def bnd_def result_def validate_def)

lemma apply_page_rule_path:
  "apply_page_rule env rep (destino_path env rep) w = (Inr p, w') \<Longrightarrow> p = final_path env rep"
  by (auto simp: apply_page_rule_def final_path_def Let_def seq_def bnd_def ret_def effect_def
           split: option.splits prod.splits sum.splits)

lemma finish_report_path:
  "finish_report env rep existing w = (Inr p, w') \<Longrightarrow> p = final_path env rep"
  by (auto simp: finish_report_def Let_def seq_def bnd_def ret_def effect_def
           dest: apply_page_rule_path split: prod.splits sum.splits if_splits)

lemma report_body_path:
  "report_body env rep w = (Inr p, w') \<Longrightarrow> p = final_path env rep"
  by (auto simp: report_body_def seq_def bnd_def dest: finish_report_path
           split: prod.splits sum.splits)

lemma os_path_join_nonempty: "f \<noteq> [] \<Longrightarrow> os_path_join d f \<noteq> []"
  by (simp add: os_path_join_def)

lemma final_path_nonempty: "final_path env rep \<noteq> []"
  by (simp add: final_path_def destino_path_def os_path_join_nonempty split: option.splits)

lemma run_loop_step_ok:
  "flags rep \<le> 1 \<Longrightarrow> report_body env rep w = (Inr p, w1) \<Longrightarrow>
   run_loop env (rep # reps) oks falhas w
     = run_loop env reps (oks @ [final_path env rep]) falhas (sleep 500 w1)"
  using report_body_path[of env rep w p w1] final_path_nonempty[of env rep]
  by (simp add: process_single_report_valid)

lemma run_loop_step_fail:
  "flags rep \<le> 1 \<Longrightarrow> report_body env rep w = (Inl e, w1) \<Longrightarrow>
   run_loop env (rep # reps) oks falhas w
     = run_loop env reps oks (falhas @ [name rep])
         (sleep 500 (log ERROR ''Erro em {}'' [S (name rep), E e] w1))"
  by (simp add: process_single_report_valid)

lemma marked_Cons:
  "marked b (r # rs) (s # ss) = (if s = b then r # marked b rs ss else marked b rs ss)"
  by (simp add: marked_def)

lemma run_loop_partition:
  "\<forall>rep\<in>set reports. flags rep \<le> 1 \<Longrightarrow>
   \<exists>succ w'. length succ = length reports
     \<and> run_loop env reports oks falhas w
         = (Inr (oks @ map (final_path env) (marked True reports succ),
                 falhas @ map name (marked False reports succ)), w')"
proof (induction reports arbitrary: oks falhas w)
  case Nil
  then show ?case by (simp add: marked_def)
next
  case (Cons rep reps)
  then have v: "flags rep \<le> 1" and vs: "\<forall>r\<in>set reps. flags r \<le> 1" by simp_all
  obtain r w1 where b: "report_body env rep w = (r, w1)" by (cases "report_body env rep w")
  show ?case
  proof (cases r)
    case (Inr p)
    from Cons.IH[OF vs, of "oks @ [final_path env rep]" falhas "sleep 500 w1"]
    obtain succ w' where s: "length succ = length reps"
      "run_loop env reps (oks @ [final_path env rep]) falhas (sleep 500 w1)
         = (Inr ((oks @ [final_path env rep]) @ map (final_path env) (marked True reps succ),
                 falhas @ map name (marked False reps succ)), w')" by blast
    have "length (True # succ) = length (rep # reps)" using s by simp
    moreover have "run_loop env (rep # reps) oks falhas w
         = (Inr (oks @ map (final_path env) (marked True (rep # reps) (True # succ)),
                 falhas @ map name (marked False (rep # reps) (True # succ))), w')"
      using run_loop_step_ok[OF v b[unfolded Inr]] s by (simp add: marked_Cons)
    ultimately show ?thesis by blast
  next
    case (Inl e)
    from Cons.IH[OF vs, of oks "falhas @ [name rep]"
                   "sleep 500 (log ERROR ''Erro em {}'' [S (name rep), E e] w1)"]
    obtain succ w' where s: "length succ = length reps"
      "run_loop env reps oks (falhas @ [name rep])
           (sleep 500 (log ERROR ''Erro em {}'' [S (name rep), E e] w1))
         = (Inr (oks @ map (final_path env) (marked True reps succ),
                 (falhas @ [name rep]) @ map name (marked False reps succ)), w')" by blast
    have "length (False # succ) = length (rep # reps)" using s by simp
    moreover have "run_loop env (rep # reps) oks falhas w
         = (Inr (oks @ map (final_path env) (marked True (rep # reps) (False # succ)),
                 falhas @ map name (marked False (rep # reps) (False # succ))), w')"
      using run_loop_step_fail[OF v b[unfolded Inl]] s by (simp add: marked_Cons)
    ultimately show ?thesis by blast
  qed
qed

lemma run_loop_raises_on_invalid:
  "\<not> (\<forall>rep\<in>set reports. flags rep \<le> 1) \<Longrightarrow>
   \<exists>msg w'. run_loop env reports oks falhas w = (Inl (ValueError msg), w')"
proof (induction reports arbitrary: oks falhas w)
  case Nil
  then show ?case by simp
next
  case (Cons rep reps)
  show ?case
  proof (cases "flags rep \<le> 1")
    case False
    from process_single_report_invalid[OF False, of env w] show ?thesis by auto
  next
    case True
    with Cons.prems have inv: "\<not> (\<forall>r\<in>set reps. flags r \<le> 1)" by simp
    obtain r w1 where b: "report_body env rep w = (r, w1)" by (cases "report_body env rep w")
    show ?thesis
    proof (cases r)
      case (Inl e)
      from run_loop_step_fail[OF True b[unfolded Inl], of reps oks falhas]
           Cons.IH[OF inv, of oks "falhas @ [name rep]"
                     "sleep 500 (log ERROR ''Erro em {}'' [S (name rep), E e] w1)"]
      show ?thesis by simp
    next
      case (Inr p)
      from run_loop_step_ok[OF True b[unfolded Inr], of reps oks falhas]
           Cons.IH[OF inv, of "oks @ [final_path env rep]" falhas "sleep 500 w1"]
      show ?thesis by simp
    qed
  qed
qed

lemma marked_lengths:
  "length succ = length reports \<Longrightarrow>
   length (marked True reports succ) + length (marked False reports succ) = length reports"
proof (induction reports arbitrary: succ)
  case Nil then show ?case by (simp add: marked_def)
next
  case (Cons r rs)
  then obtain s ss where "succ = s # ss" by (cases succ) auto
  with Cons show ?case by (cases s) (simp_all add: marked_Cons)
qed

lemma marked_subseq: "subseq (marked b reports succ) reports"
proof (induction reports arbitrary: succ)
  case Nil then show ?case by (simp add: marked_def)
next
  case (Cons r rs)
  show ?case
  proof (cases succ)
    case Nil then show ?thesis by (simp add: marked_def)
  next
    case (Cons s ss)
    with Cons.IH[of ss] show ?thesis by (auto simp: marked_Cons)
  qed
qed

lemma merger_append_concat:
  "\<forall>p\<in>set paths. read_pdf_res env (clock w) p = Inr (content p) \<Longrightarrow>
   merger_append env paths m w = (Inr (m @ concat (map content paths)), w)"
  by (induction paths arbitrary: m) (simp_all add: read_pdf_def)

lemma run_loop_append:
  "run_loop env pre oks falhas w = (Inr (o1, f1), w1) \<Longrightarrow>
   run_loop env (pre @ rest) oks falhas w = run_loop env rest o1 f1 w1"
  by (induction pre arbitrary: oks falhas w)
     (auto split: prod.splits sum.splits option.splits if_splits)

lemma merge_pdfs_result:
  assumes "\<forall>p\<in>set paths. read_pdf_res env (clock v) p = Inr (content p)"
  shows "merge_pdfs env paths output v =
          (case write_pdf_res env (clock v) output of
             None \<Rightarrow> (Inr (), log INFO ''Mesclagem concluida.'' []
                        (emit (Write_pdf output (concat (map content paths)))
                          (log INFO ''Mesclando {} PDFs em {}'' [I (int (length paths)), S output] v)))
           | Some e \<Rightarrow> (Inl e, emit (Write_pdf output (concat (map content paths)))
                          (log INFO ''Mesclando {} PDFs em {}'' [I (int (length paths)), S output] v)))"
proof -
  let ?v1 = "log INFO ''Mesclando {} PDFs em {}'' [I (int (length paths)), S output] v"
  have "\<forall>p\<in>set paths. read_pdf_res env (clock ?v1) p = Inr (content p)"
    using assms by simp
  from merger_append_concat[OF this, of "[]"]
  show ?thesis
    by (simp add: merge_pdfs_def seq_def bnd_def effect_def write_pdf_def call_def
          split: option.splits)
qed

lemma marked_snoc:
  "length succ = length reports \<Longrightarrow>
   marked b (reports @ [rep]) (succ @ [s]) = marked b reports succ @ (if s = b then [rep] else [])"
  by (simp add: marked_def)

lemma run_loop_single_ok:
  "flags rep \<le> 1 \<Longrightarrow> report_body env rep w = (Inr p, w1) \<Longrightarrow>
   run_loop env [rep] oks falhas w = (Inr (oks @ [final_path env rep], falhas), sleep 500 w1)"
  using run_loop_step_ok[of rep env w p w1 "[]" oks falhas] by simp

lemma run_loop_single_fail:
  "flags rep \<le> 1 \<Longrightarrow> report_body env rep w = (Inl e, w1) \<Longrightarrow>
   run_loop env [rep] oks falhas w
     = (Inr (oks, falhas @ [name rep]),
        sleep 500 (log ERROR ''Erro em {}'' [S (name rep), E e] w1))"
  using run_loop_step_fail[of rep env w e w1 "[]" oks falhas] by simp

lemma process_single_report_outcome:
  assumes "flags rep \<le> 1"
  shows "fst (process_single_report env rep w)
           = Inr (if isl (fst (report_body env rep w)) then None else Some (final_path env rep))"
proof (cases "report_body env rep w")
  case (Pair r w1)
  show ?thesis
  proof (cases r)
    case (Inl e)
    with Pair show ?thesis by (simp add: process_single_report_valid[OF assms])
  next
    case (Inr p)
    with Pair report_body_path[of env rep w p w1] show ?thesis
      by (simp add: process_single_report_valid[OF assms])
  qed
qed

lemma run_all_reports_outcomes:
  "\<forall>rep\<in>set reports. flags rep \<le> 1 \<Longrightarrow>
   \<exists>succ w'. length succ = length reports
     \<and> run_all_reports env reports w
         = (Inr (map (final_path env) (marked True reports succ),
                 map name (marked False reports succ)), w')
     \<and> (\<forall>i<length reports. \<exists>oks falhas wi.
           run_all_reports env (take i reports) w = (Inr (oks, falhas), wi)
         \<and> succ ! i = (\<not> isl (fst (report_body env (reports ! i) wi))))"
proof (induction reports rule: rev_induct)
  case Nil
  then show ?case by (simp add: run_all_reports_def marked_def)
next
  case (snoc rep reps)
  then have v: "flags rep \<le> 1" and vs: "\<forall>r\<in>set reps. flags r \<le> 1" by simp_all
  from snoc.IH[OF vs] obtain succ w1 where
    s: "length succ = length reps"
    and r: "run_all_reports env reps w
         = (Inr (map (final_path env) (marked True reps succ),
                 map name (marked False reps succ)), w1)"
    and t: "\<forall>i<length reps. \<exists>oks falhas wi.
           run_all_reports env (take i reps) w = (Inr (oks, falhas), wi)
         \<and> succ ! i = (\<not> isl (fst (report_body env (reps ! i) wi)))"
    by blast
  let ?o1 = "map (final_path env) (marked True reps succ)"
  let ?f1 = "map name (marked False reps succ)"
  let ?b = "\<not> isl (fst (report_body env rep w1))"
  let ?succ = "succ @ [?b]"
  have a: "run_all_reports env (reps @ [rep]) w = run_loop env [rep] ?o1 ?f1 w1"
    using run_loop_append[OF r[unfolded run_all_reports_def], of "[rep]"]
    by (simp add: run_all_reports_def)
  have 1: "length ?succ = length (reps @ [rep])" using s by simp
  have 2: "\<exists>w'. run_all_reports env (reps @ [rep]) w
         = (Inr (map (final_path env) (marked True (reps @ [rep]) ?succ),
                 map name (marked False (reps @ [rep]) ?succ)), w')"
  proof (cases "report_body env rep w1")
    case (Pair res w2)
    show ?thesis
    proof (cases res)
      case (Inl e)
      with Pair run_loop_single_fail[OF v, of env w1 e w2 ?o1 ?f1] a show ?thesis
        by (simp add: marked_snoc[OF s])
    next
      case (Inr p)
      with Pair run_loop_single_ok[OF v, of env w1 p w2 ?o1 ?f1] a show ?thesis
        by (simp add: marked_snoc[OF s])
    qed
  qed
  have 3: "\<forall>i<length (reps @ [rep]). \<exists>oks falhas wi.
           run_all_reports env (take i (reps @ [rep])) w = (Inr (oks, falhas), wi)
         \<and> ?succ ! i = (\<not> isl (fst (report_body env ((reps @ [rep]) ! i) wi)))"
  proof (intro allI impI)
    fix i assume i: "i < length (reps @ [rep])"
    show "\<exists>oks falhas wi.
           run_all_reports env (take i (reps @ [rep])) w = (Inr (oks, falhas), wi)
         \<and> ?succ ! i = (\<not> isl (fst (report_body env ((reps @ [rep]) ! i) wi)))"
    proof (cases "i < length reps")
      case True
      with t obtain oks falhas wi where
        "run_all_reports env (take i reps) w = (Inr (oks, falhas), wi)"
        "succ ! i = (\<not> isl (fst (report_body env (reps ! i) wi)))" by blast
      with True s show ?thesis by (simp add: nth_append)
    next
      case False
      with i have "i = length reps" by simp
      with r s show ?thesis by (simp add: nth_append)
    qed
  qed
  from 1 2 3 show ?case by blast
qed


section \<open>Batch runner: which errors are caught\<close>

text \<open>
  C1, as stated, fails: \<open>validate\<close> is called before the \<^verbatim>\<open>try\<close> block of
  \<open>process_single_report\<close>, and \<open>run_all_reports\<close> has no handler, so the \<open>ValueError\<close> of an
  ambiguous report leaves \<open>run_all_reports\<close>. With an ambiguous first report the batch
  raises, the world is untouched, no name is recorded and the second report is never
  processed.
\<close>

theorem run_all_reports_aborts_on_ambiguous_report:
  "isl (fst (run_all_reports env0 [Relatorio_X, Relatorio_A] w0))
   \<and> snd (run_all_reports env0 [Relatorio_X, Relatorio_A] w0) = w0"
  by (simp add: run_all_reports_def process_single_report_def seq_def bnd_def result_def
        validate_def flags_def Relatorio_X_def)

text \<open>
  C1, amended. For a list of reports that all pass validation: when the batch has run
  the reports before \<open>rep\<close> and the body of \<open>process_single_report\<close> raises any error for
  \<open>rep\<close>, the error is caught and logged, the loop goes on with the reports after \<open>rep\<close>
  with the name of \<open>rep\<close> appended to the failures, and \<open>run_all_reports\<close> returns with
  that name among the failures and one entry per report.
\<close>

theorem run_all_reports_records_failure:
  assumes "\<forall>r\<in>set (pre @ rep # post). flags r \<le> 1"
      and "run_all_reports env pre w = (Inr (o1, f1), w1)"
      and "report_body env rep w1 = (Inl e, w2)"
  shows "\<exists>oks falhas w'.
           run_all_reports env (pre @ rep # post) w = (Inr (oks, falhas), w')
         \<and> name rep \<in> set falhas
         \<and> length oks + length falhas = length (pre @ rep # post)
         \<and> run_all_reports env (pre @ rep # post) w
             = run_loop env post o1 (f1 @ [name rep])
                 (sleep 500 (log ERROR ''Erro em {}'' [S (name rep), E e] w2))"
proof -
  let ?W = "sleep 500 (log ERROR ''Erro em {}'' [S (name rep), E e] w2)"
  from assms(1) have v: "flags rep \<le> 1" and vp: "\<forall>r\<in>set post. flags r \<le> 1" by simp_all
  have c: "run_all_reports env (pre @ rep # post) w = run_loop env post o1 (f1 @ [name rep]) ?W"
    using run_loop_append[OF assms(2)[unfolded run_all_reports_def], of "rep # post"]
          run_loop_step_fail[OF v assms(3)]
    by (simp add: run_all_reports_def)
  from run_loop_partition[OF vp, of env o1 "f1 @ [name rep]" ?W]
  obtain s2 w' where p2: "run_loop env post o1 (f1 @ [name rep]) ?W
      = (Inr (o1 @ map (final_path env) (marked True post s2),
              (f1 @ [name rep]) @ map name (marked False post s2)), w')" by blast
  from run_loop_partition[OF assms(1), of env "[]" "[]" w]
  obtain succ w'' where s: "length succ = length (pre @ rep # post)"
    "run_all_reports env (pre @ rep # post) w
       = (Inr (map (final_path env) (marked True (pre @ rep # post) succ),
               map name (marked False (pre @ rep # post) succ)), w'')"
    by (auto simp: run_all_reports_def)
  let ?oks = "map (final_path env) (marked True (pre @ rep # post) succ)"
  let ?falhas = "map name (marked False (pre @ rep # post) succ)"
  have "?falhas = (f1 @ [name rep]) @ map name (marked False post s2)"
    using c p2 s(2) by simp
  then have "name rep \<in> set ?falhas" by simp
  moreover have "length ?oks + length ?falhas = length (pre @ rep # post)"
    using marked_lengths[OF s(1)] by simp
  ultimately show ?thesis using s(2) c by metis
qed

theorem run_all_reports_records_failure_witness:
  "\<exists>oks falhas w'.
     run_all_reports env_no_get [Relatorio_A, Relatorio_B] w0 = (Inr (oks, falhas), w')
   \<and> name Relatorio_A \<in> set falhas
   \<and> length oks + length falhas = length [Relatorio_A, Relatorio_B]"
proof -
  have 1: "\<forall>r\<in>set ([] @ Relatorio_A # [Relatorio_B]). flags r \<le> 1"
    by (simp add: flags_def Relatorio_A_def Relatorio_B_def)
  have 2: "run_all_reports env_no_get [] w0 = (Inr ([], []), w0)"
    by (simp add: run_all_reports_def)
  obtain e w2 where 3: "report_body env_no_get Relatorio_A w0 = (Inl e, w2)"
    by (simp add: report_body_def open_report_def seq_def bnd_def effect_def listdir_def get_def
          call_def env_no_get_def env0_def)
  from run_all_reports_records_failure[OF 1 2 3] show ?thesis by auto
qed

section \<open>Readiness detector: the stability window\<close>

lemma wait_idle_loop_timeout:
  "\<not> clock w < end \<Longrightarrow>
   wait_idle_loop env end sr rn ss w
     = (Inl (TimeoutError (''['' @ rn @ ''] Nao ficou estavel a tempo.'')), w)"
  by (simp add: wait_idle_loop.simps[of env "end" sr rn ss w])

lemma wait_idle_loop_busy_step:
  "clock w < end \<Longrightarrow> loading_indicators_res env (clock w) = Inr True \<Longrightarrow>
   wait_idle_loop env end sr rn ss w
     = wait_idle_loop env end sr rn None (sleep 400 (emit Loading_indicators w))"
  by (simp add: wait_idle_loop.simps[of env "end" sr rn ss w] has_loading_indicators_def ask_def)

lemma clock_window_world [simp]: "clock (window_world rn ss w) = clock w"
  by (simp add: window_world_def)

lemma wait_idle_loop_idle_return:
  "clock w < end \<Longrightarrow> loading_indicators_res env (clock w) = Inr False \<Longrightarrow>
   1000 * sr \<le> clock w - window_start ss w \<Longrightarrow>
   wait_idle_loop env end sr rn ss w
     = (Inr True, log INFO ''[{}] Estavel por {}s.'' [S rn, I sr] (window_world rn ss w))"
  by (simp add: wait_idle_loop.simps[of env "end" sr rn ss w] has_loading_indicators_def ask_def
        window_start_def window_world_def Let_def split: option.splits)

lemma wait_idle_loop_idle_step:
  "clock w < end \<Longrightarrow> loading_indicators_res env (clock w) = Inr False \<Longrightarrow>
   \<not> 1000 * sr \<le> clock w - window_start ss w \<Longrightarrow>
   wait_idle_loop env end sr rn ss w
     = wait_idle_loop env end sr rn (Some (window_start ss w)) (sleep 400 (window_world rn ss w))"
  by (simp add: wait_idle_loop.simps[of env "end" sr rn ss w] has_loading_indicators_def ask_def
        window_start_def window_world_def Let_def split: option.splits)

lemma wait_idle_loop_toggle:
  assumes sig: "\<forall>t. loading_indicators_res env t = Inr (t < T)"
      and S0: "0 \<le> sr"
      and inv: "case ss of None \<Rightarrow> clock w < T + 400
                | Some s \<Rightarrow> T \<le> s \<and> s < T + 400 \<and> s \<le> clock w \<and> clock w - 400 - s < 1000 * sr"
  shows "(\<forall>w'. wait_idle_loop env end sr rn ss w = (Inr True, w')
             \<longrightarrow> T + 1000 * sr \<le> clock w' \<and> clock w' < T + 1000 * sr + 800)
       \<and> (T + 1000 * sr + 800 \<le> end
             \<longrightarrow> (\<exists>w'. wait_idle_loop env end sr rn ss w = (Inr True, w')))"
  using inv
proof (induction "nat (end - clock w)" arbitrary: ss w rule: less_induct)
  case less
  show ?case
  proof (cases "clock w < end")
    case False
    have "T + 1000 * sr + 800 \<le> end \<Longrightarrow> False"
      using False less.prems S0 by (cases ss) auto
    then show ?thesis using wait_idle_loop_timeout[OF False] by auto
  next
    case True
    show ?thesis
    proof (cases "clock w < T")
      case busy: True
      then have b: "loading_indicators_res env (clock w) = Inr True" using sig by simp
      let ?w = "sleep 400 (emit Loading_indicators w)"
      have m: "nat (end - clock ?w) < nat (end - clock w)" using True by simp
      have i: "case None of None \<Rightarrow> clock ?w < T + 400
                | Some s \<Rightarrow> T \<le> s \<and> s < T + 400 \<and> s \<le> clock ?w \<and> clock ?w - 400 - s < 1000 * sr"
        using busy by simp
      from less.hyps[OF m i] show ?thesis
        by (simp add: wait_idle_loop_busy_step[OF True b])
    next
      case idle: False
      then have b: "loading_indicators_res env (clock w) = Inr False" using sig by simp
      let ?s = "window_start ss w"
      have s: "T \<le> ?s \<and> ?s < T + 400 \<and> ?s \<le> clock w \<and> clock w - 400 - ?s < 1000 * sr"
        using less.prems idle S0 by (cases ss) (auto simp: window_start_def)
      show ?thesis
      proof (cases "1000 * sr \<le> clock w - ?s")
        case ret: True
        show ?thesis using s ret by (simp add: wait_idle_loop_idle_return[OF True b ret])
      next
        case cont: False
        let ?w = "sleep 400 (window_world rn ss w)"
        have m: "nat (end - clock ?w) < nat (end - clock w)" using True by simp
        have i: "case Some ?s of None \<Rightarrow> clock ?w < T + 400
                | Some s \<Rightarrow> T \<le> s \<and> s < T + 400 \<and> s \<le> clock ?w \<and> clock ?w - 400 - s < 1000 * sr"
          using s cont by simp
        from less.hyps[OF m i] show ?thesis
          by (simp add: wait_idle_loop_idle_step[OF True b cont])
      qed
    qed
  qed
qed

lemma wait_idle_loop_error_step:
  "clock w < end \<Longrightarrow> loading_indicators_res env (clock w) = Inl e \<Longrightarrow>
   wait_idle_loop env end sr rn ss w = (Inl e, emit Loading_indicators w)"
  by (simp add: wait_idle_loop.simps[of env "end" sr rn ss w] has_loading_indicators_def ask_def)

lemma wait_idle_loop_stretch:
  assumes "wait_idle_loop env end sr rn ss w = (Inr True, w')"
      and "case ss of
             None \<Rightarrow> clock w = start \<or> loading_indicators_res env (clock w - 400) = Inr True
           | Some s \<Rightarrow> (\<exists>n. clock w = s + 400 * int n
                          \<and> (\<forall>k<n. loading_indicators_res env (s + 400 * int k) = Inr False))
                       \<and> (s = start \<or> loading_indicators_res env (s - 400) = Inr True)
                       \<and> start \<le> s"
      and "start \<le> clock w"
  shows "\<exists>s n. clock w' = s + 400 * int n \<and> start \<le> s \<and> 1000 * sr \<le> clock w' - s
           \<and> (\<forall>k\<le>n. loading_indicators_res env (s + 400 * int k) = Inr False)
           \<and> (s = start \<or> loading_indicators_res env (s - 400) = Inr True)"
  using assms
proof (induction "nat (end - clock w)" arbitrary: ss w rule: less_induct)
  case less
  note ret = less.prems(1) and inv = less.prems(2) and st = less.prems(3)
  have lt: "clock w < end"
    using ret wait_idle_loop_timeout[of w "end" env sr rn ss] by (cases "clock w < end") auto
  show ?case
  proof (cases "loading_indicators_res env (clock w)")
    case (Inl e)
    with ret wait_idle_loop_error_step[OF lt Inl] show ?thesis by simp
  next
    case (Inr busy)
    show ?thesis
    proof (cases busy)
      case True
      with Inr have b: "loading_indicators_res env (clock w) = Inr True" by simp
      let ?w = "sleep 400 (emit Loading_indicators w)"
      have m: "nat (end - clock ?w) < nat (end - clock w)" using lt by simp
      have r: "wait_idle_loop env end sr rn None ?w = (Inr True, w')"
        using ret wait_idle_loop_busy_step[OF lt b] by simp
      have i: "case None of
             None \<Rightarrow> clock ?w = start \<or> loading_indicators_res env (clock ?w - 400) = Inr True
           | Some s \<Rightarrow> (\<exists>n. clock ?w = s + 400 * int n
                          \<and> (\<forall>k<n. loading_indicators_res env (s + 400 * int k) = Inr False))
                       \<and> (s = start \<or> loading_indicators_res env (s - 400) = Inr True)
                       \<and> start \<le> s"
        using b by simp
      have "start \<le> clock ?w" using st by simp
      from less.hyps[OF m r i this] show ?thesis .
    next
      case False
      with Inr have b: "loading_indicators_res env (clock w) = Inr False" by simp
      let ?s = "window_start ss w"
      obtain n where n: "clock w = ?s + 400 * int n"
           "\<forall>k<n. loading_indicators_res env (?s + 400 * int k) = Inr False"
           "?s = start \<or> loading_indicators_res env (?s - 400) = Inr True" "start \<le> ?s"
      proof (cases ss)
        case None
        then have "clock w = ?s + 400 * int 0" by (simp add: window_start_def)
        moreover have "?s = start \<or> loading_indicators_res env (?s - 400) = Inr True"
          using inv None by (simp add: window_start_def)
        moreover have "start \<le> ?s" using st None by (simp add: window_start_def)
        ultimately show ?thesis using that[of 0] by simp
      next
        case (Some s)
        then show ?thesis using inv that by (auto simp: window_start_def)
      qed
      have all: "\<forall>k\<le>n. loading_indicators_res env (?s + 400 * int k) = Inr False"
      proof (intro allI impI)
        fix k assume "k \<le> n"
        then consider "k < n" | "k = n" by linarith
        then show "loading_indicators_res env (?s + 400 * int k) = Inr False"
          using n(1,2) b by cases auto
      qed
      show ?thesis
      proof (cases "1000 * sr \<le> clock w - ?s")
        case True
        from ret wait_idle_loop_idle_return[OF lt b True]
        have "clock w' = clock w" by auto
        with n all True show ?thesis
          by (intro exI[of _ ?s] exI[of _ n]) auto
      next
        case cont: False
        let ?w = "sleep 400 (window_world rn ss w)"
        have m: "nat (end - clock ?w) < nat (end - clock w)" using lt by simp
        have r: "wait_idle_loop env end sr rn (Some ?s) ?w = (Inr True, w')"
          using ret wait_idle_loop_idle_step[OF lt b cont] by simp
        have "clock ?w = ?s + 400 * int (Suc n)" using n(1) by simp
        moreover have "\<forall>k<Suc n. loading_indicators_res env (?s + 400 * int k) = Inr False"
          using all by (simp add: less_Suc_eq_le)
        ultimately have i: "case Some ?s of
             None \<Rightarrow> clock ?w = start \<or> loading_indicators_res env (clock ?w - 400) = Inr True
           | Some s \<Rightarrow> (\<exists>n. clock ?w = s + 400 * int n
                          \<and> (\<forall>k<n. loading_indicators_res env (s + 400 * int k) = Inr False))
                       \<and> (s = start \<or> loading_indicators_res env (s - 400) = Inr True)
                       \<and> start \<le> s"
          using n(3,4) by (simp del: of_nat_Suc)
        have "start \<le> clock ?w" using st by simp
        from less.hyps[OF m r i this] show ?thesis .
      qed
    qed
  qed
qed

text \<open>
  C4, as stated, fails in its last bound. With the defaults (5 s of stability, polls
  0.4 s apart) and a signal that turns idle 100 ms after the call, the first idle poll is
  at 400 ms and success is returned at 5600 ms, later than 100 + 5000 + 400 ms.
\<close>

theorem wait_report_idle_later_than_one_poll_interval:
  "fst (wait_report_idle env_idle_at_100 90 5 ''Relatorio_A'' w0) = Inr True
   \<and> clock (snd (wait_report_idle env_idle_at_100 90 5 ''Relatorio_A'' w0)) = 5600
   \<and> 100 + 1000 * 5 + 400 < clock (snd (wait_report_idle env_idle_at_100 90 5 ''Relatorio_A'' w0))"
  by (simp add: wait_report_idle_def wait_idle_loop.simps has_loading_indicators_def ask_def
        env_idle_at_100_def env0_def w0_def emit_def log_def sleep_def)

text \<open>
  C4, amended. When \<open>wait_report_idle\<close> returns success at clock \<open>c\<close>, there is a poll at
  some \<open>s\<close> at or after the call with \<open>c - s\<close> at least \<open>stable_required\<close> seconds, such that
  every poll from \<open>s\<close> to \<open>c\<close> (they are 400 ms apart) found no loading indicator, and \<open>s\<close>
  is the first poll of the call or the poll before it was busy (a busy poll unsets the
  window). For a signal that is busy before \<open>T\<close> and idle from \<open>T\<close> on, with \<open>T\<close> at or after
  the call and \<open>stable_required\<close> not negative, on the simulated clock: success is returned
  no earlier than \<open>T\<close> plus \<open>stable_required\<close>, and earlier than that plus two poll
  intervals; and it is returned whenever that latest moment is not after the deadline.
\<close>

theorem wait_report_idle_debounce:
  "(\<forall>w'. wait_report_idle env timeout sr rn w = (Inr True, w')
      \<longrightarrow> (\<exists>s n. clock w' = s + 400 * int n \<and> clock w \<le> s \<and> 1000 * sr \<le> clock w' - s
             \<and> (\<forall>k\<le>n. loading_indicators_res env (s + 400 * int k) = Inr False)
             \<and> (s = clock w \<or> loading_indicators_res env (s - 400) = Inr True)))
   \<and> ((\<forall>t. loading_indicators_res env t = Inr (t < T)) \<and> clock w \<le> T \<and> 0 \<le> sr
      \<longrightarrow> (\<forall>w'. wait_report_idle env timeout sr rn w = (Inr True, w')
             \<longrightarrow> T + 1000 * sr \<le> clock w' \<and> clock w' < T + 1000 * sr + 2 * 400)
        \<and> (T + 1000 * sr + 2 * 400 \<le> clock w + 1000 * timeout
             \<longrightarrow> (\<exists>w'. wait_report_idle env timeout sr rn w = (Inr True, w'))))"
proof (intro conjI allI impI)
  fix w' assume "wait_report_idle env timeout sr rn w = (Inr True, w')"
  then have r: "wait_idle_loop env (clock w + 1000 * timeout) sr rn None w = (Inr True, w')"
    by (simp add: wait_report_idle_def)
  from wait_idle_loop_stretch[OF r, of "clock w"]
  show "\<exists>s n. clock w' = s + 400 * int n \<and> clock w \<le> s \<and> 1000 * sr \<le> clock w' - s
             \<and> (\<forall>k\<le>n. loading_indicators_res env (s + 400 * int k) = Inr False)
             \<and> (s = clock w \<or> loading_indicators_res env (s - 400) = Inr True)"
    by simp
next
  fix w'
  assume h: "(\<forall>t. loading_indicators_res env t = Inr (t < T)) \<and> clock w \<le> T \<and> 0 \<le> sr"
     and r: "wait_report_idle env timeout sr rn w = (Inr True, w')"
  from h have i: "case None of None \<Rightarrow> clock w < T + 400
          | Some s \<Rightarrow> T \<le> s \<and> s < T + 400 \<and> s \<le> clock w \<and> clock w - 400 - s < 1000 * sr"
    by simp
  from h have sig: "\<forall>t. loading_indicators_res env t = Inr (t < T)" and S0: "0 \<le> sr"
    by simp_all
  from wait_idle_loop_toggle[OF sig S0 i, of "clock w + 1000 * timeout" rn] r
  show "T + 1000 * sr \<le> clock w'" and "clock w' < T + 1000 * sr + 2 * 400"
    by (simp_all add: wait_report_idle_def)
next
  assume h: "(\<forall>t. loading_indicators_res env t = Inr (t < T)) \<and> clock w \<le> T \<and> 0 \<le> sr"
     and d: "T + 1000 * sr + 2 * 400 \<le> clock w + 1000 * timeout"
  from h have i: "case None of None \<Rightarrow> clock w < T + 400
          | Some s \<Rightarrow> T \<le> s \<and> s < T + 400 \<and> s \<le> clock w \<and> clock w - 400 - s < 1000 * sr"
    by simp
  from h have sig: "\<forall>t. loading_indicators_res env t = Inr (t < T)" and S0: "0 \<le> sr"
    by simp_all
  from d wait_idle_loop_toggle[OF sig S0 i, of "clock w + 1000 * timeout" rn]
  show "\<exists>w'. wait_report_idle env timeout sr rn w = (Inr True, w')"
    by (simp add: wait_report_idle_def)
qed

theorem wait_report_idle_debounce_witness:
  "\<exists>w'. wait_report_idle env_idle_at_100 90 5 ''Relatorio_A'' w0 = (Inr True, w')
     \<and> 100 + 1000 * 5 \<le> clock w' \<and> clock w' < 100 + 1000 * 5 + 2 * 400"
proof -
  have h: "(\<forall>t. loading_indicators_res env_idle_at_100 t = Inr (t < 100)) \<and> clock w0 \<le> 100
           \<and> (0::int) \<le> 5"
    by (simp add: env_idle_at_100_def w0_def)
  have d: "100 + 1000 * 5 + 2 * 400 \<le> clock w0 + 1000 * 90"
    by (simp add: w0_def)
  note T = wait_report_idle_debounce[of env_idle_at_100 90 5 "''Relatorio_A''" w0 100,
             THEN conjunct2, rule_format, OF h]
  from T[THEN conjunct2, rule_format, OF d]
  obtain w' where r: "wait_report_idle env_idle_at_100 90 5 ''Relatorio_A'' w0 = (Inr True, w')"
    by blast
  from T[THEN conjunct1, rule_format, OF r] r show ?thesis by blast
qed

section \<open>Main: merge and notification\<close>

lemma main_unfold:
  assumes "setup_edge_driver env (RUN_DIR env) (log INFO ''Iniciando execucao principal'' [] w)
             = (Inr (), w1)"
      and "run_all_reports env (REPORTS env) w1 = (Inr (ok_paths, falhas), w2)"
  shows "main env w = (fst (main_after_batch env ok_paths falhas w2),
                       main_finally env (snd (main_after_batch env ok_paths falhas w2)))"
  using assms
  by (simp add: main_def seq_def bnd_def effect_def try_finally_def split: prod.splits)

lemma failed_html_lists_name:
  assumes "n \<in> set falhas"
  shows "\<exists>a b. failed_html falhas = a @ ''<li>'' @ n @ ''</li>'' @ b"
proof -
  from assms obtain ys zs where f: "falhas = ys @ n # zs" by (auto simp: in_set_conv_decomp)
  let ?li = "\<lambda>n. ''<li>'' @ n @ ''</li>''"
  have "failed_html falhas = (''<p><b>Falhas:</b></p><ul>'' @ concat (map ?li ys))
          @ ''<li>'' @ n @ ''</li>'' @ (concat (map ?li zs) @ ''</ul>'')"
    using f by (simp add: failed_html_def)
  then show ?thesis by blast
qed

lemma build_email_html_failures:
  "\<exists>pre post. build_email_html env ok_reports falhas = pre @ failed_html falhas @ post"
proof -
  let ?lis = "map (\<lambda>r. ''<li>'' @ name r @ '' - <a href='' @ dq @ url r @ dq
                              @ ''>abrir</a></li>'') ok_reports"
  have "build_email_html env ok_reports falhas =
      (nl @ ''<p>Bom dia,</p>''
       @ nl @ ''<p>Segue o PDF diario consolidado (data '' @ DATA_HOJE env @ '') em anexo.</p>''
       @ nl @ ''<p>Relatorios processados:</p>''
       @ nl @ ''<ul>'' @ concat ?lis @ ''</ul>'' @ nl)
      @ failed_html falhas @ (nl @ ''<p>Atenciosamente,<br>Sua Equipe</p>'' @ nl)"
    by (simp add: build_email_html_def Let_def)
  then show ?thesis by blast
qed

lemma main_after_batch_none:
  "main_after_batch env [] falhas v
     = (Inr (), log ERROR ''Nenhum PDF baixado com sucesso. Abortando mescla/envio.'' [] v)"
  by (simp add: main_after_batch_def effect_def)

lemma main_after_batch_some:
  assumes "ok_paths \<noteq> []"
      and "merge_pdfs env ok_paths (PDF_FINAL_PATH env) v = (r, v1)"
  shows "case r of
           Inl e \<Rightarrow> main_after_batch env ok_paths falhas v = (Inl e, v1)
         | Inr u \<Rightarrow>
            (case read_recipients_res env (clock v1) (EMAIL_LIST_DIR env) of
               Inl e \<Rightarrow> main_after_batch env ok_paths falhas v = (Inl e, v1)
             | Inr recipients \<Rightarrow>
                 if recipients = []
                 then main_after_batch env ok_paths falhas v
                        = (Inr (), log WARNING ''Nenhum destinatario encontrado. Nao havera envio.'' [] v1)
                 else \<exists>subject html pre post.
                        main_after_batch env ok_paths falhas v
                          = ((case send_email_res env (clock v1) of None \<Rightarrow> Inr () | Some e \<Rightarrow> Inl e),
                             emit (Send_email recipients subject html (PDF_FINAL_PATH env)) v1)
                      \<and> html = pre @ failed_html falhas @ post)"
proof (cases r)
  case (Inl e)
  with assms show ?thesis by (simp add: main_after_batch_def seq_def bnd_def)
next
  case (Inr u)
  show ?thesis
  proof (cases "read_recipients_res env (clock v1) (EMAIL_LIST_DIR env)")
    case (Inl e)
    with assms Inr show ?thesis
      by (simp add: main_after_batch_def seq_def bnd_def read_recipients_def)
  next
    case rec: (Inr recipients)
    show ?thesis
    proof (cases "recipients = []")
      case True
      with assms Inr rec show ?thesis
        by (simp add: main_after_batch_def seq_def bnd_def read_recipients_def effect_def)
    next
      case False
      let ?okr = "filter (\<lambda>r. list_ex (\<lambda>p. startswith (os_path_basename p) (name r @ ''_'')) ok_paths)
                    (REPORTS env)"
      from build_email_html_failures[of env ?okr falhas]
      obtain pre post where h: "build_email_html env ?okr falhas = pre @ failed_html falhas @ post"
        by blast
      have "main_after_batch env ok_paths falhas v
              = ((case send_email_res env (clock v1) of None \<Rightarrow> Inr () | Some e \<Rightarrow> Inl e),
                 emit (Send_email recipients (''Indicadores diarios ('' @ DATA_HOJE env @ '')'')
                         (build_email_html env ?okr falhas) (PDF_FINAL_PATH env)) v1)"
        using assms Inr rec False
        by (simp add: main_after_batch_def seq_def bnd_def read_recipients_def Let_def
              send_email_outlook_html_def call_def)
      with h Inr rec False show ?thesis by auto
    qed
  qed
qed

text \<open>The scenario \<open>env_scenario\<close>, evaluated part by part.\<close>

lemma scen_open:
  "clock w = 0 \<Longrightarrow> \<exists>wa. open_report (env_scenario rcp) Relatorio_A w = (Inr [], wa) \<and> clock wa = 500"
  by (simp add: open_report_def seq_def bnd_def effect_def ret_def listdir_def get_def
        wait_ready_state_def pbix_ready_def default_content_def wait_iframe_def try_except_def
        call_def env_scenario_def env0_def Relatorio_A_def)

lemma scen_immediate:
  "\<exists>wb. export_to_pdf_immediate (env_scenario rcp) rn w = (Inr (), wb) \<and> clock wb = clock w + 1500"
  by (simp add: export_to_pdf_immediate_def open_export_menu_unified_def strategy_direct_def
        confirm_pdf_export_def click_anywhere_def
        seq_def bnd_def effect_def ret_def pbix_ready_def default_content_def wait_iframe_def
        try_except_def call_def env_scenario_def env0_def)

lemma scen_orch:
  "\<exists>wb. export_orchestrator (env_scenario rcp) rn w = (Inr (), wb) \<and> clock wb = clock w + 1500"
proof -
  from scen_immediate[where rn = rn and rcp = rcp and w = "log INFO ''[{}] Export imediato (tentativa {}/{})''
                [S rn, I 1, I (IMMEDIATE_TRIES (env_scenario rcp))] w"]
  obtain wb where "export_to_pdf_immediate (env_scenario rcp) rn
        (log INFO ''[{}] Export imediato (tentativa {}/{})''
                [S rn, I 1, I (IMMEDIATE_TRIES (env_scenario rcp))] w) = (Inr (), wb)"
     "clock wb = clock w + 1500" by auto
  moreover have "[1..IMMEDIATE_TRIES (env_scenario rcp)] = 1 # [2..3]"
    by (simp add: env_scenario_def env0_def upto.simps)
  moreover have "FORCE_EXPORT_IMMEDIATE (env_scenario rcp)"
    by (simp add: env_scenario_def env0_def)
  ultimately show ?thesis
    by (simp add: export_orchestrator_def bnd_def ret_def)
qed

lemma is_pdf_export: "is_pdf ''export.pdf''" "is_download ''export.pdf''" "\<not> is_temp_file ''export.pdf''"
  by (simp_all add: is_pdf_def is_download_def is_temp_file_def lower_def lower_char_def endswith_def)

lemma scen_download:
  "clock w = 2000 \<Longrightarrow>
   \<exists>wc. wait_for_pdf_download (env_scenario rcp) (RUN_DIR (env_scenario rcp)) [] rn
           (DOWNLOAD_TIMEOUT_SEC (env_scenario rcp)) w
         = (Inr (os_path_join (RUN_DIR (env_scenario rcp)) ''export.pdf''), wc)"
  by (simp add: wait_for_pdf_download_def
        download_loop.simps[of _ _ _ _ _ False None] new_entries_def is_pdf_export
        latest_path_def Let_def env_scenario_def env0_def)

lemma scen_finish:
  "clock w = 2000 \<Longrightarrow>
   \<exists>wc. finish_report (env_scenario rcp) Relatorio_A [] w
          = (Inr (final_path (env_scenario rcp) Relatorio_A), wc)"
proof -
  assume c: "clock w = 2000"
  from scen_download[OF c, where rn = "name Relatorio_A" and rcp = rcp] obtain wc where
    d: "wait_for_pdf_download (env_scenario rcp) (RUN_DIR (env_scenario rcp)) [] (name Relatorio_A)
           (DOWNLOAD_TIMEOUT_SEC (env_scenario rcp)) w
         = (Inr (os_path_join (RUN_DIR (env_scenario rcp)) ''export.pdf''), wc)" by blast
  have p: "path_exists_res (env_scenario rcp) t q = False" "move_res (env_scenario rcp) t a b = None" for t q a b
    by (simp_all add: env_scenario_def env0_def)
  have r: "truthy_int (extract_page Relatorio_A) = None" "truthy_int (drop_last_pages Relatorio_A) = None"
      "truthy_list (drop_pages Relatorio_A) = None"
    by (simp_all add: Relatorio_A_def truthy_int_def truthy_list_def)
  show ?thesis
    using d p r
    by (simp add: finish_report_def bnd_def seq_def ret_def effect_def path_exists_def move_def call_def
          apply_page_rule_def final_path_def Let_def)
qed

lemma scen_body_A:
  "clock w = 0 \<Longrightarrow>
   \<exists>wc. report_body (env_scenario rcp) Relatorio_A w = (Inr (final_path (env_scenario rcp) Relatorio_A), wc)"
proof -
  assume c: "clock w = 0"
  from scen_open[OF c, where rcp = rcp] obtain wa where a: "open_report (env_scenario rcp) Relatorio_A w = (Inr [], wa)"
     "clock wa = 500" by blast
  from scen_orch[where rn = "name Relatorio_A" and w = wa and rcp = rcp] a(2) obtain wb where
     b: "export_orchestrator (env_scenario rcp) (name Relatorio_A) wa = (Inr (), wb)" "clock wb = 2000"
    by auto
  from scen_finish[OF b(2), where rcp = rcp] obtain wc where
     f: "finish_report (env_scenario rcp) Relatorio_A [] wb
          = (Inr (final_path (env_scenario rcp) Relatorio_A), wc)" by blast
  from a b f show ?thesis by (simp add: report_body_def bnd_def seq_def)
qed

lemma scen_body_B:
  "\<exists>e wc. report_body (env_scenario rcp) Relatorio_B w = (Inl e, wc)"
  by (simp add: report_body_def open_report_def seq_def bnd_def effect_def listdir_def get_def
        call_def env_scenario_def env0_def Relatorio_B_def)

lemma scen_batch:
  assumes "clock w = 0"
  shows "\<exists>w2. run_all_reports (env_scenario rcp) [Relatorio_A, Relatorio_B] w
           = (Inr ([final_path (env_scenario rcp) Relatorio_A], [''Relatorio_B'']), w2)"
proof -
  have fa: "flags Relatorio_A \<le> 1" and fb: "flags Relatorio_B \<le> 1"
    by (simp_all add: flags_def Relatorio_A_def Relatorio_B_def)
  from scen_body_A[OF assms, where rcp = rcp] obtain wc where
    a: "report_body (env_scenario rcp) Relatorio_A w = (Inr (final_path (env_scenario rcp) Relatorio_A), wc)"
    by blast
  from scen_body_B[where w = "sleep 500 wc" and rcp = rcp] obtain e wd where
    b: "report_body (env_scenario rcp) Relatorio_B (sleep 500 wc) = (Inl e, wd)" by blast
  have n: "name Relatorio_B = ''Relatorio_B''" by (simp add: Relatorio_B_def)
  show ?thesis
    unfolding run_all_reports_def
    by (simp add: run_loop_step_ok[OF fa a] run_loop_step_fail[OF fb b] n del: run_loop.simps(2))
qed

lemma scen_setup:
  "setup_edge_driver (env_scenario rcp) (RUN_DIR (env_scenario rcp))
      (log INFO ''Iniciando execucao principal'' [] w0)
    = (Inr (), emit (Setup_driver (RUN_DIR (env_scenario rcp)))
                 (log INFO ''Iniciando execucao principal'' [] w0))"
  by (simp add: setup_edge_driver_def call_def env_scenario_def env0_def)

lemma scen_batch_main:
  "\<exists>w2. run_all_reports (env_scenario rcp) (REPORTS (env_scenario rcp))
          (emit (Setup_driver (RUN_DIR (env_scenario rcp)))
             (log INFO ''Iniciando execucao principal'' [] w0))
       = (Inr ([final_path (env_scenario rcp) Relatorio_A], [''Relatorio_B'']), w2)"
proof -
  have r: "REPORTS (env_scenario rcp) = [Relatorio_A, Relatorio_B]"
    by (simp add: env_scenario_def)
  have c: "clock (emit (Setup_driver (RUN_DIR (env_scenario rcp)))
             (log INFO ''Iniciando execucao principal'' [] w0)) = 0"
    by (simp add: w0_def)
  from scen_batch[OF c, of rcp] show ?thesis by (simp add: r)
qed

lemma scen_merge:
  "\<exists>w3. merge_pdfs (env_scenario rcp) paths (PDF_FINAL_PATH (env_scenario rcp)) v = (Inr (), w3)"
proof -
  have "\<forall>p\<in>set paths. read_pdf_res (env_scenario rcp) (clock v) p = Inr ((\<lambda>p. [1, 2, 3]) p)"
    by (simp add: env_scenario_def)
  from merge_pdfs_result[OF this, of "PDF_FINAL_PATH (env_scenario rcp)"] show ?thesis
    by (simp add: env_scenario_def env0_def)
qed

text \<open>
  C9, as stated, fails in its second half. In the scenario with an empty recipient list
  the batch yields one success and one failure, the merge is done, and \<open>main\<close> then logs
  that there is no recipient and ends: after the merge nothing happens but that warning
  and the \<^verbatim>\<open>finally\<close> block, so no mail is sent.
\<close>

theorem main_skips_send_without_recipients:
  "fst (run_all_reports (env_scenario []) (REPORTS (env_scenario []))
          (emit (Setup_driver (RUN_DIR (env_scenario [])))
             (log INFO ''Iniciando execucao principal'' [] w0)))
     = Inr ([final_path (env_scenario []) Relatorio_A], [''Relatorio_B''])
   \<and> main (env_scenario []) w0
       = (Inr (), main_finally (env_scenario [])
            (log WARNING ''Nenhum destinatario encontrado. Nao havera envio.'' []
               (snd (merge_pdfs (env_scenario [])
                       [final_path (env_scenario []) Relatorio_A]
                       (PDF_FINAL_PATH (env_scenario []))
                       (snd (run_all_reports (env_scenario []) (REPORTS (env_scenario []))
                               (emit (Setup_driver (RUN_DIR (env_scenario [])))
                                  (log INFO ''Iniciando execucao principal'' [] w0))))))))"
proof -
  let ?env = "env_scenario []"
  let ?w1 = "emit (Setup_driver (RUN_DIR ?env)) (log INFO ''Iniciando execucao principal'' [] w0)"
  from scen_batch_main[of "[]"] obtain w2 where
    b: "run_all_reports ?env (REPORTS ?env) ?w1
          = (Inr ([final_path ?env Relatorio_A], [''Relatorio_B'']), w2)" by blast
  from scen_merge[of "[]" "[final_path ?env Relatorio_A]" w2] obtain w3 where
    m: "merge_pdfs ?env [final_path ?env Relatorio_A] (PDF_FINAL_PATH ?env) w2 = (Inr (), w3)"
    by blast
  have r: "read_recipients_res ?env (clock w3) (EMAIL_LIST_DIR ?env) = Inr []"
    by (simp add: env_scenario_def)
  have ne: "[final_path ?env Relatorio_A] \<noteq> []" by simp
  from main_after_batch_some[OF ne m, of "[''Relatorio_B'']"] r
  have "main_after_batch ?env [final_path ?env Relatorio_A] [''Relatorio_B''] w2
          = (Inr (), log WARNING ''Nenhum destinatario encontrado. Nao havera envio.'' [] w3)"
    by simp
  with main_unfold[OF scen_setup b] b m show ?thesis by simp
qed

text \<open>
  C9, amended. After the driver is set up and the batch has returned: with no successful
  path \<open>main\<close> logs the error and ends, neither merging nor sending. With at least one,
  \<open>merge_pdfs\<close> is run on the successes; if it raises, or reading the recipients raises,
  that error leaves \<open>main\<close>; if the recipient list is empty \<open>main\<close> logs a warning and sends
  nothing; otherwise the mail is sent once, with a body that contains the failures
  section. That section, when there are failures, is the heading followed by one list
  item per failed name, so every failed name is enumerated in it.
\<close>

theorem main_merge_and_send:
  assumes "setup_edge_driver env (RUN_DIR env) (log INFO ''Iniciando execucao principal'' [] w)
             = (Inr (), w1)"
      and "run_all_reports env (REPORTS env) w1 = (Inr (ok_paths, falhas), w2)"
  shows "(ok_paths = [] \<longrightarrow>
            main env w = (Inr (), main_finally env
               (log ERROR ''Nenhum PDF baixado com sucesso. Abortando mescla/envio.'' [] w2)))
       \<and> (ok_paths \<noteq> [] \<longrightarrow>
            (case merge_pdfs env ok_paths (PDF_FINAL_PATH env) w2 of
               (Inl e, w3) \<Rightarrow> main env w = (Inl e, main_finally env w3)
             | (Inr u, w3) \<Rightarrow>
                 (case read_recipients_res env (clock w3) (EMAIL_LIST_DIR env) of
                    Inl e \<Rightarrow> main env w = (Inl e, main_finally env w3)
                  | Inr recipients \<Rightarrow>
                      if recipients = []
                      then main env w = (Inr (), main_finally env
                             (log WARNING ''Nenhum destinatario encontrado. Nao havera envio.'' [] w3))
                      else \<exists>subject html pre post.
                             main env w
                               = ((case send_email_res env (clock w3) of
                                     None \<Rightarrow> Inr () | Some e \<Rightarrow> Inl e),
                                  main_finally env
                                    (emit (Send_email recipients subject html (PDF_FINAL_PATH env)) w3))
                           \<and> html = pre @ failed_html falhas @ post)))
       \<and> (falhas \<noteq> [] \<longrightarrow>
            failed_html falhas = ''<p><b>Falhas:</b></p><ul>''
               @ concat (map (\<lambda>n. ''<li>'' @ n @ ''</li>'') falhas) @ ''</ul>'')
       \<and> (\<forall>n\<in>set falhas. \<exists>a b. failed_html falhas = a @ ''<li>'' @ n @ ''</li>'' @ b)"
proof -
  note m = main_unfold[OF assms]
  have 1: "ok_paths = [] \<longrightarrow>
            main env w = (Inr (), main_finally env
               (log ERROR ''Nenhum PDF baixado com sucesso. Abortando mescla/envio.'' [] w2))"
    by (simp add: m main_after_batch_none)
  have 2: "ok_paths \<noteq> [] \<longrightarrow>
            (case merge_pdfs env ok_paths (PDF_FINAL_PATH env) w2 of
               (Inl e, w3) \<Rightarrow> main env w = (Inl e, main_finally env w3)
             | (Inr u, w3) \<Rightarrow>
                 (case read_recipients_res env (clock w3) (EMAIL_LIST_DIR env) of
                    Inl e \<Rightarrow> main env w = (Inl e, main_finally env w3)
                  | Inr recipients \<Rightarrow>
                      if recipients = []
                      then main env w = (Inr (), main_finally env
                             (log WARNING ''Nenhum destinatario encontrado. Nao havera envio.'' [] w3))
                      else \<exists>subject html pre post.
                             main env w
                               = ((case send_email_res env (clock w3) of
                                     None \<Rightarrow> Inr () | Some e \<Rightarrow> Inl e),
                                  main_finally env
                                    (emit (Send_email recipients subject html (PDF_FINAL_PATH env)) w3))
                           \<and> html = pre @ failed_html falhas @ post))"
  proof
    assume ne: "ok_paths \<noteq> []"
    obtain r w3 where mp: "merge_pdfs env ok_paths (PDF_FINAL_PATH env) w2 = (r, w3)"
      by (cases "merge_pdfs env ok_paths (PDF_FINAL_PATH env) w2")
    note c = main_after_batch_some[OF ne mp, of falhas]
    show "case merge_pdfs env ok_paths (PDF_FINAL_PATH env) w2 of
               (Inl e, w3) \<Rightarrow> main env w = (Inl e, main_finally env w3)
             | (Inr u, w3) \<Rightarrow>
                 (case read_recipients_res env (clock w3) (EMAIL_LIST_DIR env) of
                    Inl e \<Rightarrow> main env w = (Inl e, main_finally env w3)
                  | Inr recipients \<Rightarrow>
                      if recipients = []
                      then main env w = (Inr (), main_finally env
                             (log WARNING ''Nenhum destinatario encontrado. Nao havera envio.'' [] w3))
                      else \<exists>subject html pre post.
                             main env w
                               = ((case send_email_res env (clock w3) of
                                     None \<Rightarrow> Inr () | Some e \<Rightarrow> Inl e),
                                  main_finally env
                                    (emit (Send_email recipients subject html (PDF_FINAL_PATH env)) w3))
                           \<and> html = pre @ failed_html falhas @ post)"
    proof (cases r)
      case (Inl e)
      with c show ?thesis by (simp add: m mp)
    next
      case (Inr u)
      show ?thesis
      proof (cases "read_recipients_res env (clock w3) (EMAIL_LIST_DIR env)")
        case (Inl e)
        with c Inr show ?thesis by (simp add: m mp)
      next
        case rec: (Inr recipients)
        show ?thesis
        proof (cases "recipients = []")
          case True
          with c Inr rec show ?thesis by (simp add: m mp)
        next
          case False
          with c Inr rec obtain subject html pre post where
            x: "main_after_batch env ok_paths falhas w2
                  = ((case send_email_res env (clock w3) of None \<Rightarrow> Inr () | Some e \<Rightarrow> Inl e),
                     emit (Send_email recipients subject html (PDF_FINAL_PATH env)) w3)"
               "html = pre @ failed_html falhas @ post"
            by auto
          have "main env w
                  = ((case send_email_res env (clock w3) of None \<Rightarrow> Inr () | Some e \<Rightarrow> Inl e),
                     main_finally env
                       (emit (Send_email recipients subject html (PDF_FINAL_PATH env)) w3))
                \<and> html = pre @ failed_html falhas @ post"
            using x by (simp add: m)
          then have "\<exists>subject html pre post. main env w
                  = ((case send_email_res env (clock w3) of None \<Rightarrow> Inr () | Some e \<Rightarrow> Inl e),
                     main_finally env
                       (emit (Send_email recipients subject html (PDF_FINAL_PATH env)) w3))
                \<and> html = pre @ failed_html falhas @ post"
            by (intro exI)
          with Inr rec False show ?thesis by (simp add: mp)
        qed
      qed
    qed
  qed
  have 3: "falhas \<noteq> [] \<longrightarrow>
            failed_html falhas = ''<p><b>Falhas:</b></p><ul>''
               @ concat (map (\<lambda>n. ''<li>'' @ n @ ''</li>'') falhas) @ ''</ul>''"
    by (simp add: failed_html_def)
  have 4: "\<forall>n\<in>set falhas. \<exists>a b. failed_html falhas = a @ ''<li>'' @ n @ ''</li>'' @ b"
    using failed_html_lists_name by blast
  from 1 2 3 4 show ?thesis by (intro conjI)
qed

theorem main_merge_and_send_witness:
  "\<exists>subject html pre post.
     main (env_scenario [''ana@example.com'']) w0
       = (Inr (), main_finally (env_scenario [''ana@example.com''])
            (emit (Send_email [''ana@example.com''] subject html
                     (PDF_FINAL_PATH (env_scenario [''ana@example.com''])))
               (snd (merge_pdfs (env_scenario [''ana@example.com''])
                       [final_path (env_scenario [''ana@example.com'']) Relatorio_A]
                       (PDF_FINAL_PATH (env_scenario [''ana@example.com'']))
                       (snd (run_all_reports (env_scenario [''ana@example.com''])
                               (REPORTS (env_scenario [''ana@example.com'']))
                               (emit (Setup_driver (RUN_DIR (env_scenario [''ana@example.com''])))
                                  (log INFO ''Iniciando execucao principal'' [] w0))))))))
   \<and> html = pre @ failed_html [''Relatorio_B''] @ post"
proof -
  let ?env = "env_scenario [''ana@example.com'']"
  let ?w1 = "emit (Setup_driver (RUN_DIR ?env)) (log INFO ''Iniciando execucao principal'' [] w0)"
  from scen_batch_main[of "[''ana@example.com'']"] obtain w2 where
    b: "run_all_reports ?env (REPORTS ?env) ?w1
          = (Inr ([final_path ?env Relatorio_A], [''Relatorio_B'']), w2)" by blast
  from scen_merge[of "[''ana@example.com'']" "[final_path ?env Relatorio_A]" w2] obtain w3 where
    m: "merge_pdfs ?env [final_path ?env Relatorio_A] (PDF_FINAL_PATH ?env) w2 = (Inr (), w3)"
    by blast
  have r: "read_recipients_res ?env (clock w3) (EMAIL_LIST_DIR ?env) = Inr [''ana@example.com'']"
    and s: "send_email_res ?env (clock w3) = None"
    by (simp_all add: env_scenario_def env0_def)
  from main_merge_and_send[OF scen_setup b, THEN conjunct2, THEN conjunct1]
  show ?thesis by (simp add: b m r s)
qed

section \<open>Batch runner: the result of the batch\<close>

text \<open>
  C8, as stated, fails: \<open>run_all_reports\<close> does not return two sequences for every list of
  reports. In the scenario the first report is exported and \<open>process_single_report\<close>
  returns its final path; when the next report of the list has two page rules, its
  \<open>ValueError\<close> leaves \<open>run_all_reports\<close>, which returns nothing: the first report has no
  entry anywhere.
\<close>

theorem run_all_reports_drops_processed_report:
  "fst (process_single_report (env_scenario []) Relatorio_A w0)
     = Inr (Some (final_path (env_scenario []) Relatorio_A))
   \<and> isl (fst (run_all_reports (env_scenario []) [Relatorio_A, Relatorio_X] w0))"
proof -
  have c: "clock w0 = 0" by (simp add: w0_def)
  have fa: "flags Relatorio_A \<le> 1" by (simp add: flags_def Relatorio_A_def)
  have fx: "\<not> flags Relatorio_X \<le> 1" by (simp add: flags_def Relatorio_X_def)
  from scen_body_A[OF c, where rcp = "[]"] obtain wc where
    a: "report_body (env_scenario []) Relatorio_A w0
          = (Inr (final_path (env_scenario []) Relatorio_A), wc)" by blast
  from process_single_report_invalid[OF fx, of "env_scenario []" "sleep 500 wc"] obtain msg where
    x: "process_single_report (env_scenario []) Relatorio_X (sleep 500 wc)
          = (Inl (ValueError msg), sleep 500 wc)" by blast
  have "run_all_reports (env_scenario []) [Relatorio_A, Relatorio_X] w0
          = (Inl (ValueError msg), sleep 500 wc)"
    unfolding run_all_reports_def
    by (simp add: run_loop_step_ok[OF fa a] x del: run_loop.simps(2)) (simp add: x)
  with a show ?thesis by (simp add: process_single_report_valid[OF fa])
qed

text \<open>
  C8, amended. When every report of the list passes validation, \<open>run_all_reports\<close> returns
  two lists, and there is one success flag per report such that: the flag of the
  \<open>i\<close>-th report says whether the body of \<open>process_single_report\<close> returned for it, in the
  world the batch had reached after the \<open>i\<close> reports before it, where
  \<open>process_single_report\<close> returned its final path if so and \<open>None\<close> if not; the first list
  holds the final paths of the reports flagged as succeeded and the second the names of
  the others, both in the order of the input, so every report has exactly one entry. When
  some report does not pass validation, \<open>run_all_reports\<close> raises a \<open>ValueError\<close> and
  returns no list. \<open>merge_pdfs\<close>, given readable files, writes to the output the
  concatenation of their pages in the order of the list it is given.
\<close>

theorem run_all_reports_batch_result:
  "((\<forall>rep\<in>set reports. flags rep \<le> 1) \<longrightarrow>
      (\<exists>succ w'. length succ = length reports
         \<and> run_all_reports env reports w
             = (Inr (map (final_path env) (marked True reports succ),
                     map name (marked False reports succ)), w')
         \<and> (\<forall>i<length reports. \<exists>oks falhas wi.
               run_all_reports env (take i reports) w = (Inr (oks, falhas), wi)
             \<and> succ ! i = (\<not> isl (fst (report_body env (reports ! i) wi)))
             \<and> fst (process_single_report env (reports ! i) wi)
                 = Inr (if succ ! i then Some (final_path env (reports ! i)) else None))
         \<and> length (marked True reports succ) + length (marked False reports succ)
             = length reports
         \<and> subseq (marked True reports succ) reports
         \<and> subseq (marked False reports succ) reports))
   \<and> (\<not> (\<forall>rep\<in>set reports. flags rep \<le> 1) \<longrightarrow>
        (\<exists>msg w'. run_all_reports env reports w = (Inl (ValueError msg), w')))
   \<and> ((\<forall>p\<in>set paths. read_pdf_res envm (clock v) p = Inr (content p)) \<longrightarrow>
        merge_pdfs envm paths output v =
          (case write_pdf_res envm (clock v) output of
             None \<Rightarrow> (Inr (), log INFO ''Mesclagem concluida.'' []
                        (emit (Write_pdf output (concat (map content paths)))
                          (log INFO ''Mesclando {} PDFs em {}'' [I (int (length paths)), S output] v)))
           | Some e \<Rightarrow> (Inl e, emit (Write_pdf output (concat (map content paths)))
                          (log INFO ''Mesclando {} PDFs em {}'' [I (int (length paths)), S output] v))))"
proof (intro conjI impI)
  assume v: "\<forall>rep\<in>set reports. flags rep \<le> 1"
  from run_all_reports_outcomes[OF v, of env w] obtain succ w' where
    s: "length succ = length reports"
    and r: "run_all_reports env reports w
             = (Inr (map (final_path env) (marked True reports succ),
                     map name (marked False reports succ)), w')"
    and t: "\<forall>i<length reports. \<exists>oks falhas wi.
               run_all_reports env (take i reports) w = (Inr (oks, falhas), wi)
             \<and> succ ! i = (\<not> isl (fst (report_body env (reports ! i) wi)))"
    by blast
  have t': "\<forall>i<length reports. \<exists>oks falhas wi.
               run_all_reports env (take i reports) w = (Inr (oks, falhas), wi)
             \<and> succ ! i = (\<not> isl (fst (report_body env (reports ! i) wi)))
             \<and> fst (process_single_report env (reports ! i) wi)
                 = Inr (if succ ! i then Some (final_path env (reports ! i)) else None)"
  proof (intro allI impI)
    fix i assume i: "i < length reports"
    with t obtain oks falhas wi where
      x: "run_all_reports env (take i reports) w = (Inr (oks, falhas), wi)"
         "succ ! i = (\<not> isl (fst (report_body env (reports ! i) wi)))" by blast
    from i v have "flags (reports ! i) \<le> 1" by simp
    from process_single_report_outcome[OF this, of env wi] x(2)
    have "fst (process_single_report env (reports ! i) wi)
            = Inr (if succ ! i then Some (final_path env (reports ! i)) else None)" by simp
    with x show "\<exists>oks falhas wi.
               run_all_reports env (take i reports) w = (Inr (oks, falhas), wi)
             \<and> succ ! i = (\<not> isl (fst (report_body env (reports ! i) wi)))
             \<and> fst (process_single_report env (reports ! i) wi)
                 = Inr (if succ ! i then Some (final_path env (reports ! i)) else None)"
      by blast
  qed
  from s r t' marked_lengths[OF s] marked_subseq[of True reports succ]
       marked_subseq[of False reports succ]
  show "\<exists>succ w'. length succ = length reports
         \<and> run_all_reports env reports w
             = (Inr (map (final_path env) (marked True reports succ),
                     map name (marked False reports succ)), w')
         \<and> (\<forall>i<length reports. \<exists>oks falhas wi.
               run_all_reports env (take i reports) w = (Inr (oks, falhas), wi)
             \<and> succ ! i = (\<not> isl (fst (report_body env (reports ! i) wi)))
             \<and> fst (process_single_report env (reports ! i) wi)
                 = Inr (if succ ! i then Some (final_path env (reports ! i)) else None))
         \<and> length (marked True reports succ) + length (marked False reports succ)
             = length reports
         \<and> subseq (marked True reports succ) reports
         \<and> subseq (marked False reports succ) reports"
    by (intro exI[of _ succ] exI[of _ w'] conjI)
next
  assume "\<not> (\<forall>rep\<in>set reports. flags rep \<le> 1)"
  from run_loop_raises_on_invalid[OF this, of env "[]" "[]" w]
  show "\<exists>msg w'. run_all_reports env reports w = (Inl (ValueError msg), w')"
    by (simp add: run_all_reports_def)
next
  assume "\<forall>p\<in>set paths. read_pdf_res envm (clock v) p = Inr (content p)"
  from merge_pdfs_result[OF this]
  show "merge_pdfs envm paths output v =
          (case write_pdf_res envm (clock v) output of
             None \<Rightarrow> (Inr (), log INFO ''Mesclagem concluida.'' []
                        (emit (Write_pdf output (concat (map content paths)))
                          (log INFO ''Mesclando {} PDFs em {}'' [I (int (length paths)), S output] v)))
           | Some e \<Rightarrow> (Inl e, emit (Write_pdf output (concat (map content paths)))
                          (log INFO ''Mesclando {} PDFs em {}'' [I (int (length paths)), S output] v)))" .
qed

theorem run_all_reports_batch_result_witness:
  "(\<exists>w'. run_all_reports (env_scenario []) [Relatorio_A, Relatorio_B] w0
            = (Inr ([final_path (env_scenario []) Relatorio_A], [''Relatorio_B'']), w'))
   \<and> merge_pdfs env_pdfs [''a.pdf'', ''b.pdf''] ''out.pdf'' w0
       = (Inr (), \<lparr>clock = 0, trace =
            [Log INFO ''Mesclando {} PDFs em {}'' [I 2, S ''out.pdf''],
             Write_pdf ''out.pdf'' [1, 2, 3],
             Log INFO ''Mesclagem concluida.'' []]\<rparr>)"
proof -
  let ?env = "env_scenario []"
  let ?reports = "[Relatorio_A, Relatorio_B]"
  have 1: "\<forall>rep\<in>set ?reports. flags rep \<le> 1"
    by (simp add: flags_def Relatorio_A_def Relatorio_B_def)
  have 2: "\<forall>p\<in>set [''a.pdf'', ''b.pdf'']. read_pdf_res env_pdfs (clock w0) p
             = Inr (if p = ''a.pdf'' then [1, 2] else [3])"
    by (simp add: env_pdfs_def)
  have wr: "write_pdf_res env_pdfs (clock w0) ''out.pdf'' = None"
    by (simp add: env_pdfs_def env0_def)
  note T = run_all_reports_batch_result[of ?reports ?env w0 "[''a.pdf'', ''b.pdf'']" env_pdfs w0
             "\<lambda>p. if p = ''a.pdf'' then [1, 2] else [3]" "''out.pdf''"]
  from T[THEN conjunct1, THEN mp, OF 1] obtain succ w' where
    s: "length succ = length ?reports"
    and r: "run_all_reports ?env ?reports w0
             = (Inr (map (final_path ?env) (marked True ?reports succ),
                     map name (marked False ?reports succ)), w')"
    and t: "\<forall>i<length ?reports. \<exists>oks falhas wi.
               run_all_reports ?env (take i ?reports) w0 = (Inr (oks, falhas), wi)
             \<and> succ ! i = (\<not> isl (fst (report_body ?env (?reports ! i) wi)))
             \<and> fst (process_single_report ?env (?reports ! i) wi)
                 = Inr (if succ ! i then Some (final_path ?env (?reports ! i)) else None)"
    by blast
  have c: "clock w0 = 0" by (simp add: w0_def)
  from scen_body_A[OF c, where rcp = "[]"] obtain wc where
    a: "report_body ?env Relatorio_A w0 = (Inr (final_path ?env Relatorio_A), wc)" by blast
  from t[rule_format, of 0] a have s0: "succ ! 0" by (simp add: run_all_reports_def)
  from t[rule_format, of 1] obtain wi where
    "succ ! 1 = (\<not> isl (fst (report_body ?env Relatorio_B wi)))" by auto
  with scen_body_B[of "[]" wi] have s1: "\<not> succ ! 1" by auto
  from s obtain x y where xy: "succ = [x, y]"
    by (cases succ; cases "tl succ") auto
  with s0 s1 have "succ = [True, False]" by simp
  with r have a': "\<exists>w'. run_all_reports ?env ?reports w0
            = (Inr ([final_path ?env Relatorio_A], [''Relatorio_B'']), w')"
    by (simp add: marked_def Relatorio_B_def)
  from T[THEN conjunct2, THEN conjunct2, THEN mp, OF 2] wr
  have b: "merge_pdfs env_pdfs [''a.pdf'', ''b.pdf''] ''out.pdf'' w0
       = (Inr (), \<lparr>clock = 0, trace =
            [Log INFO ''Mesclando {} PDFs em {}'' [I 2, S ''out.pdf''],
             Write_pdf ''out.pdf'' [1, 2, 3],
             Log INFO ''Mesclagem concluida.'' []]\<rparr>)"
    by (simp add: w0_def emit_def log_def)
  from a' b show ?thesis by (rule conjI)
qed

section \<open>Download watcher: what is returned, and when\<close>

lemma clock_dl_world [simp]: "clock (dl_world rn started new w) = clock w"
  by (simp add: dl_world_def)

lemma clock_dl_retry_world [simp]:
  "clock (dl_retry_world rn lb latest s1 s2 w) = clock w + 1200"
  by (simp add: dl_retry_world_def)


















section \<open>Export orchestrator: attempts, reloads and the fallback\<close>

lemma calm_refl [simp]: "calm w w"
  by (simp add: calm_def)

lemma calm_trans: "calm w w1 \<Longrightarrow> calm w1 w2 \<Longrightarrow> calm w w2"
  by (fastforce simp: calm_def)

lemma calm_emit: "\<not> orch_event e \<Longrightarrow> calm w (emit e w)"
  by (simp add: calm_def)

lemma calm_sleep [simp]: "calm w (sleep d w)"
  by (simp add: calm_def)

lemma calm_log:
  "t \<noteq> ''[{}] Export imediato (tentativa {}/{})'' \<Longrightarrow> t \<noteq> ''[{}] Imediato falhou: {}'' \<Longrightarrow>
   t \<noteq> ''[{}] Fallback com idle'' \<Longrightarrow> calm w (log lv t a w)"
  by (simp add: calm_def orch_event_def is_attempt_def is_failed_def is_fallback_def is_refresh_def)

lemma quietI: "(\<And>w. calm w (snd (f w))) \<Longrightarrow> quiet f"
  by (simp add: quiet_def)

lemma quietD: "quiet f \<Longrightarrow> f w = (r, w') \<Longrightarrow> calm w w'"
  by (auto simp: quiet_def dest: spec[of _ w])

lemma quiet_ret [simp]: "quiet (ret x)"
  by (simp add: quiet_def ret_def)

lemma quiet_raise [simp]: "quiet (raise e)"
  by (simp add: quiet_def raise_def)

lemma quiet_result [simp]: "quiet (result r)"
  by (simp add: quiet_def result_def)

lemma quiet_sleep [simp]: "quiet (effect (sleep d))"
  by (simp add: quiet_def effect_def)

lemma quiet_log:
  "t \<noteq> ''[{}] Export imediato (tentativa {}/{})'' \<Longrightarrow> t \<noteq> ''[{}] Imediato falhou: {}'' \<Longrightarrow>
   t \<noteq> ''[{}] Fallback com idle'' \<Longrightarrow> quiet (effect (log lv t a))"
  by (simp add: quiet_def effect_def calm_log)

lemma quiet_bnd: "quiet m \<Longrightarrow> (\<And>x. quiet (f x)) \<Longrightarrow> quiet (bnd m f)"
proof (rule quietI)
  fix w assume m: "quiet m" and f: "\<And>x. quiet (f x)"
  obtain r w1 where r: "m w = (r, w1)" by (cases "m w")
  from quietD[OF m r] have c: "calm w w1" .
  show "calm w (snd (bnd m f w))"
  proof (cases r)
    case (Inl e)
    with r c show ?thesis by (simp add: bnd_def)
  next
    case (Inr x)
    obtain r2 w2 where r2: "f x w1 = (r2, w2)" by (cases "f x w1")
    from quietD[OF f r2] c have "calm w w2" by (rule calm_trans[rotated])
    with r Inr r2 show ?thesis by (simp add: bnd_def)
  qed
qed

lemma quiet_seq: "quiet m \<Longrightarrow> quiet n \<Longrightarrow> quiet (seq m n)"
  by (simp add: seq_def quiet_bnd)

lemma quiet_try_except: "quiet m \<Longrightarrow> (\<And>e. quiet (h e)) \<Longrightarrow> quiet (try_except m h)"
proof (rule quietI)
  fix w assume m: "quiet m" and h: "\<And>e. quiet (h e)"
  obtain r w1 where r: "m w = (r, w1)" by (cases "m w")
  from quietD[OF m r] have c: "calm w w1" .
  show "calm w (snd (try_except m h w))"
  proof (cases r)
    case (Inr x)
    with r c show ?thesis by (simp add: try_except_def)
  next
    case (Inl e)
    obtain r2 w2 where r2: "h e w1 = (r2, w2)" by (cases "h e w1")
    from quietD[OF h r2] c have "calm w w2" by (rule calm_trans[rotated])
    with r Inl r2 show ?thesis by (simp add: try_except_def)
  qed
qed

lemma quiet_call: "\<not> orch_event ev \<Longrightarrow> quiet (\<lambda>w. call ev (res w) w)"
  by (simp add: quiet_def call_def calm_emit)

lemma quiet_ask: "\<not> orch_event ev \<Longrightarrow> quiet (\<lambda>w. ask ev (res w) w)"
  by (simp add: quiet_def ask_def calm_emit)

lemma not_orch [simp]:
  "\<not> orch_event Default_content" "\<not> orch_event Wait_iframe" "\<not> orch_event Loading_indicators"
  "\<not> orch_event (Click_anywhere sel c)" "\<not> orch_event (Switch_to_frame_with sel)"
  "\<not> orch_event Find_buttons" "\<not> orch_event (Js_click i)"
  by (simp_all add: orch_event_def is_attempt_def is_failed_def is_fallback_def is_refresh_def)

lemma quiet_default_content [simp]: "quiet (default_content env)"
  using quiet_call[of Default_content "\<lambda>w. default_content_res env (clock w)"]
  by (simp add: default_content_def[abs_def])

lemma quiet_wait_iframe [simp]: "quiet (wait_iframe env)"
  using quiet_call[of Wait_iframe "\<lambda>w. wait_iframe_res env (clock w)"]
  by (simp add: wait_iframe_def[abs_def])

lemma quiet_click_anywhere [simp]: "quiet (click_anywhere env sel c)"
  using quiet_call[of "Click_anywhere sel c" "\<lambda>w. click_anywhere_res env (clock w) sel c"]
  by (simp add: click_anywhere_def[abs_def])

lemma quiet_switch_to_frame_with [simp]: "quiet (switch_to_frame_with env sel)"
  using quiet_ask[of "Switch_to_frame_with sel" "\<lambda>w. switch_to_frame_with_res env (clock w) sel"]
  by (simp add: switch_to_frame_with_def[abs_def])

lemma quiet_find_buttons [simp]: "quiet (find_buttons env)"
  using quiet_ask[of Find_buttons "\<lambda>w. find_buttons_res env (clock w)"]
  by (simp add: find_buttons_def[abs_def])

lemma quiet_js_click [simp]: "quiet (js_click env i)"
  using quiet_call[of "Js_click i" "\<lambda>w. js_click_res env (clock w) i"]
  by (simp add: js_click_def[abs_def])

lemma quiet_has_loading_indicators [simp]: "quiet (has_loading_indicators env)"
  using quiet_ask[of Loading_indicators "\<lambda>w. loading_indicators_res env (clock w)"]
  by (simp add: has_loading_indicators_def[abs_def])

lemma quiet_pbix_ready [simp]: "quiet (pbix_ready env d)"
  by (simp add: pbix_ready_def quiet_seq quiet_try_except)

lemma quiet_strategies [simp]:
  "quiet (strategy_direct env rn)" "quiet (strategy_overflow env rn)"
  "quiet (strategy_filemenu env rn)"
  by (simp_all add: strategy_direct_def strategy_overflow_def strategy_filemenu_def
        quiet_seq quiet_log)

lemma quiet_open_export_menu_unified [simp]: "quiet (open_export_menu_unified env rn)"
  by (simp add: open_export_menu_unified_def quiet_seq quiet_try_except quiet_log)

lemma calm_confirm_selectors: "calm w (snd (confirm_selectors env rn sels w))"
proof (induction sels arbitrary: w)
  case Nil
  then show ?case by simp
next
  case (Cons sel sels)
  obtain r w1 where c: "click_anywhere env sel True w = (r, w1)"
    by (cases "click_anywhere env sel True w")
  from quietD[OF quiet_click_anywhere c] have c1: "calm w w1" .
  show ?case
  proof (cases r)
    case (Inr u)
    have "calm w1 (log INFO ''[{}] Confirmacao do dialogo acionada.'' [S rn] w1)"
      by (simp add: calm_log)
    with c1 have "calm w (log INFO ''[{}] Confirmacao do dialogo acionada.'' [S rn] w1)"
      by (rule calm_trans)
    with c Inr show ?thesis by simp
  next
    case (Inl e)
    from calm_trans[OF c1 Cons.IH[of w1]] c Inl show ?thesis by simp
  qed
qed

lemma quiet_confirm_selectors [simp]: "quiet (confirm_selectors env rn sels)"
  by (rule quietI) (rule calm_confirm_selectors)

lemma calm_confirm_buttons: "calm w (snd (confirm_buttons env rn bs i w))"
proof (induction bs arbitrary: i w)
  case Nil
  then show ?case by simp
next
  case (Cons b bs)
  show ?case
  proof (cases b)
    case (Inl e)
    then show ?thesis by simp
  next
    case (Inr label)
    show ?thesis
    proof (cases "lower (strip label) \<in> {''ok'', ''exportar'', ''export''}")
      case False
      with Inr Cons.IH[of w "Suc i"] show ?thesis by simp
    next
      case True
      obtain r w1 where c: "js_click env i w = (r, w1)" by (cases "js_click env i w")
      from quietD[OF quiet_js_click c] have c1: "calm w w1" .
      have "calm w1 (log INFO ''[{}] Confirmacao via fallback de texto.'' [S rn] w1)"
        by (simp add: calm_log)
      with c1 have "calm w (log INFO ''[{}] Confirmacao via fallback de texto.'' [S rn] w1)"
        by (rule calm_trans)
      with c c1 Inr True show ?thesis by (cases r) simp_all
    qed
  qed
qed

lemma quiet_confirm_buttons [simp]: "quiet (confirm_buttons env rn bs i)"
  by (rule quietI) (rule calm_confirm_buttons)

lemma quiet_confirm_pdf_export [simp]: "quiet (confirm_pdf_export env rn)"
  by (simp add: confirm_pdf_export_def quiet_seq quiet_bnd quiet_try_except quiet_log)

lemma quiet_export_to_pdf_immediate [simp]: "quiet (export_to_pdf_immediate env rn)"
  by (simp add: export_to_pdf_immediate_def quiet_seq quiet_bnd quiet_try_except quiet_log)

lemma calm_wait_idle_loop: "calm w (snd (wait_idle_loop env end sr rn ss w))"
proof (induction env "end" sr rn ss w rule: wait_idle_loop.induct)
  case (1 env "end" sr rn ss w)
  show ?case
  proof (cases "clock w < end")
    case False
    then show ?thesis by (simp add: wait_idle_loop_timeout)
  next
    case True
    have e: "calm w (emit Loading_indicators w)" by (simp add: calm_emit)
    show ?thesis
    proof (cases "loading_indicators_res env (clock w)")
      case (Inl e')
      with e show ?thesis by (simp add: wait_idle_loop_error_step[OF True Inl])
    next
      case (Inr busy)
      have h: "has_loading_indicators env w = (Inr busy, emit Loading_indicators w)"
        using Inr by (simp add: has_loading_indicators_def ask_def)
      show ?thesis
      proof (cases busy)
        case b: True
        from "1.IH"(2)[OF True h[symmetric] refl] b
        have "calm (sleep 400 (emit Loading_indicators w))
                (snd (wait_idle_loop env end sr rn None (sleep 400 (emit Loading_indicators w))))"
          by simp
        with e have "calm w (snd (wait_idle_loop env end sr rn None
                                    (sleep 400 (emit Loading_indicators w))))"
          by (meson calm_trans calm_sleep)
        with Inr b show ?thesis by (simp add: wait_idle_loop_busy_step[OF True])
      next
        case nb: False
        with Inr have i: "loading_indicators_res env (clock w) = Inr False" by simp
        have ww: "calm w (window_world rn ss w)"
          using e by (auto simp: window_world_def calm_log intro: calm_trans)
        show ?thesis
        proof (cases "1000 * sr \<le> clock w - window_start ss w")
          case stable: True
          have "calm (window_world rn ss w)
                  (log INFO ''[{}] Estavel por {}s.'' [S rn, I sr] (window_world rn ss w))"
            by (simp add: calm_log)
          with ww show ?thesis
            by (simp add: wait_idle_loop_idle_return[OF True i stable] calm_trans)
        next
          case cont: False
          have "calm (sleep 400 (window_world rn ss w))
                  (snd (wait_idle_loop env end sr rn (Some (window_start ss w))
                          (sleep 400 (window_world rn ss w))))"
            using "1.IH"(1)[OF True h[symmetric] refl, of "window_world rn ss w" "window_start ss w"]
                  nb cont
            by (simp add: window_world_def window_start_def split: option.splits)
          with ww show ?thesis
            by (simp add: wait_idle_loop_idle_step[OF True i cont]) (meson calm_trans calm_sleep)
        qed
      qed
    qed
  qed
qed

lemma quiet_wait_report_idle [simp]: "quiet (wait_report_idle env t sr rn)"
  by (rule quietI) (simp add: wait_report_idle_def calm_wait_idle_loop)

lemma quiet_export_to_pdf_with_idle [simp]: "quiet (export_to_pdf_with_idle env rn)"
  by (simp add: export_to_pdf_with_idle_def quiet_seq)

lemma filter_none: "\<forall>e\<in>set evs. \<not> orch_event e \<Longrightarrow>
   filter is_attempt evs = [] \<and> filter is_failed evs = [] \<and> filter is_refresh evs = []
   \<and> filter is_fallback evs = []"
  by (auto simp: filter_empty_conv orch_event_def)

lemma counts_calm: "calm w w' \<Longrightarrow> counts w w' 0 0 0 0"
  using filter_none by (fastforce simp: calm_def counts_def)

lemma counts_trans:
  "counts w w1 a f r b \<Longrightarrow> counts w1 w2 a' f' r' b' \<Longrightarrow>
   counts w w2 (a + a') (f + f') (r + r') (b + b')"
  unfolding counts_def
proof (elim exE conjE)
  fix e1 e2
  assume "trace w1 = trace w @ e1" "trace w2 = trace w1 @ e2"
     and c: "length (filter is_attempt e1) = a" "length (filter is_failed e1) = f"
            "length (filter is_refresh e1) = r" "length (filter is_fallback e1) = b"
            "length (filter is_attempt e2) = a'" "length (filter is_failed e2) = f'"
            "length (filter is_refresh e2) = r'" "length (filter is_fallback e2) = b'"
  then have "trace w2 = trace w @ (e1 @ e2)" by simp
  with c show "\<exists>evs. trace w2 = trace w @ evs
        \<and> length (filter is_attempt evs) = a + a' \<and> length (filter is_failed evs) = f + f'
        \<and> length (filter is_refresh evs) = r + r' \<and> length (filter is_fallback evs) = b + b'"
    by (intro exI[of _ "e1 @ e2"]) simp
qed

lemma counts_attempt:
  "counts w (log INFO ''[{}] Export imediato (tentativa {}/{})'' args w) 1 0 0 0"
  by (simp add: counts_def is_attempt_def is_failed_def is_refresh_def is_fallback_def)

lemma counts_failed:
  "counts w (log WARNING ''[{}] Imediato falhou: {}'' args w) 0 1 0 0"
  by (simp add: counts_def is_attempt_def is_failed_def is_refresh_def is_fallback_def)

lemma counts_fallback:
  "counts w (log INFO ''[{}] Fallback com idle'' args w) 0 0 0 1"
  by (simp add: counts_def is_attempt_def is_failed_def is_refresh_def is_fallback_def)

lemma counts_refresh: "refresh env w = (r, w') \<Longrightarrow> counts w w' 0 0 1 0"
  by (auto simp: refresh_def call_def counts_def is_attempt_def is_failed_def is_refresh_def
        is_fallback_def)

lemma counts_sleep_right: "counts w w' a f r b \<Longrightarrow> counts w (sleep d w') a f r b"
  by (simp add: counts_def)

lemma counts_sleep_left: "counts (sleep d w) w' a f r b \<Longrightarrow> counts w w' a f r b"
  by (simp add: counts_def)

lemma immediate_loop_counts:
  "immediate_loop env rn xs w = (r, w') \<Longrightarrow>
   \<exists>a f. counts w w' a f f 0 \<and> a \<le> length xs
        \<and> (case r of Inr ok \<Rightarrow> if ok then a = f + 1 else a = length xs \<and> f = length xs
                     | Inl e \<Rightarrow> a = f)"
proof (induction xs arbitrary: w)
  case Nil
  then show ?case using counts_calm[OF calm_refl, of w'] by auto
next
  case (Cons x xs)
  let ?wa = "log INFO ''[{}] Export imediato (tentativa {}/{})''
               [S rn, I x, I (IMMEDIATE_TRIES env)] w"
  obtain r1 w1 where e: "export_to_pdf_immediate env rn ?wa = (r1, w1)"
    by (cases "export_to_pdf_immediate env rn ?wa")
  from counts_trans[OF counts_attempt counts_calm[OF quietD[OF quiet_export_to_pdf_immediate e]]]
  have c1: "counts w w1 1 0 0 0" by simp
  show ?case
  proof (cases r1)
    case (Inr u)
    with Cons.prems e have "r = Inr True" "w' = w1" by simp_all
    with c1 show ?thesis by (intro exI[of _ 1] exI[of _ 0]) simp
  next
    case (Inl err)
    let ?wf = "log WARNING ''[{}] Imediato falhou: {}'' [S rn, E err] w1"
    obtain r2 w2 where rf: "refresh env ?wf = (r2, w2)" by (cases "refresh env ?wf")
    from counts_trans[OF counts_trans[OF c1 counts_failed] counts_refresh[OF rf]]
    have c2: "counts w w2 1 1 1 0" by simp
    show ?thesis
    proof (cases r2)
      case (Inl err')
      with Cons.prems e \<open>r1 = Inl err\<close> rf have "r = Inl err'" "w' = w2" by simp_all
      with c2 show ?thesis by (intro exI[of _ 1] exI[of _ 1]) simp
    next
      case (Inr u)
      with Cons.prems e \<open>r1 = Inl err\<close> rf
      have "immediate_loop env rn xs (sleep 1000 w2) = (r, w')" by simp
      from Cons.IH[OF this] obtain a f where
        i: "counts (sleep 1000 w2) w' a f f 0" "a \<le> length xs"
           "case r of Inr ok \<Rightarrow> if ok then a = f + 1 else a = length xs \<and> f = length xs
                     | Inl e \<Rightarrow> a = f" by blast
      from counts_trans[OF c2 counts_sleep_left[OF i(1)]]
      have "counts w w' (1 + a) (1 + f) (1 + f) 0" by simp
      with i(2,3) show ?thesis
        by (intro exI[of _ "1 + a"] exI[of _ "1 + f"]) (auto split: sum.splits if_splits)
    qed
  qed
qed

lemma length_upto_1: "length [1..n] = nat n"
  by simp

lemma export_orchestrator_unfold:
  "export_orchestrator env rn w =
     (case (if FORCE_EXPORT_IMMEDIATE env
            then immediate_loop env rn [1..IMMEDIATE_TRIES env] w else (Inr False, w)) of
        (Inl e, w1) \<Rightarrow> (Inl e, w1)
      | (Inr ok, w1) \<Rightarrow>
          if ok then (Inr (), w1)
          else export_to_pdf_with_idle env rn (log INFO ''[{}] Fallback com idle'' [S rn] w1))"
  by (simp add: export_orchestrator_def bnd_def seq_def effect_def ret_def
        split: prod.splits sum.splits)

lemma immediate_loop_step:
  "immediate_loop env rn (n # rest) w =
     (case immediate_attempt env rn n w of
        (Inr u, w1) \<Rightarrow> (Inr True, w1)
      | (Inl e, w1) \<Rightarrow>
          (case reload_after env rn e w1 of
             (Inl e', w2) \<Rightarrow> (Inl e', w2)
           | (Inr u, w2) \<Rightarrow> immediate_loop env rn rest w2))"
  by (simp add: immediate_attempt_def reload_after_def seq_def bnd_def effect_def
        split: prod.splits sum.splits)

lemma immediate_loop_append:
  "immediate_loop env rn (xs @ ys) w =
     (case immediate_loop env rn xs w of
        (Inl e, v) \<Rightarrow> (Inl e, v)
      | (Inr ok, v) \<Rightarrow> if ok then (Inr True, v) else immediate_loop env rn ys v)"
proof (induction xs arbitrary: w)
  case Nil
  then show ?case by simp
next
  case (Cons x xs)
  show ?case
    by (simp add: immediate_loop_step Cons.IH del: immediate_loop.simps(2)
          split: prod.splits sum.splits)
qed

lemma immediate_loop_failed_prefix:
  assumes "immediate_loop env rn (xs @ n # ys) w = (Inr False, v)"
  shows "\<exists>u e u1 u2. immediate_loop env rn xs w = (Inr False, u)
           \<and> immediate_attempt env rn n u = (Inl e, u1)
           \<and> reload_after env rn e u1 = (Inr (), u2)"
proof -
  obtain r0 u where p: "immediate_loop env rn xs w = (r0, u)" by (cases "immediate_loop env rn xs w")
  from assms p have r0: "r0 = Inr False" and
    s: "immediate_loop env rn (n # ys) u = (Inr False, v)"
    by (auto simp: immediate_loop_append simp del: immediate_loop.simps(2)
             split: sum.splits if_splits)
  obtain r1 u1 where a: "immediate_attempt env rn n u = (r1, u1)"
    by (cases "immediate_attempt env rn n u")
  from s a obtain e where e: "r1 = Inl e"
    by (cases r1) (auto simp: immediate_loop_step simp del: immediate_loop.simps(2))
  obtain r2 u2 where b: "reload_after env rn e u1 = (r2, u2)"
    by (cases "reload_after env rn e u1")
  from s a e b have "r2 = Inr ()"
    by (cases r2) (auto simp: immediate_loop_step simp del: immediate_loop.simps(2))
  with p r0 a e b show ?thesis by blast
qed

lemma upto_split_at:
  "1 \<le> n \<Longrightarrow> n \<le> t \<Longrightarrow> [1..t] = [1..n - 1] @ n # [n + 1..t]"
  using upto_split2[of 1 n t] upto_rec1[of n t] upto_split1[of 1 n t] by simp

lemma upto_snoc: "1 \<le> n \<Longrightarrow> [1..n] = [1..n - 1] @ [n]"
  using upto_rec2[of 1 n] by simp

lemma export_to_pdf_immediate_unfold:
  "export_to_pdf_immediate env rn v =
     (case open_export_menu_unified env rn (cooldown env v) of
        (Inl e, v3) \<Rightarrow> (Inl e, v3)
      | (Inr path_used, v3) \<Rightarrow>
          (case pdf_button env path_used v3 of
             (Inl e, v4) \<Rightarrow> (Inl e, v4)
           | (Inr u, v4) \<Rightarrow>
               (case confirm_pdf_export env rn v4 of
                  (Inl e, v5) \<Rightarrow> (Inl e, v5)
                | (Inr c, v5) \<Rightarrow>
                    (Inr (), log INFO ''[{}] Exportacao acionada (modo imediato).'' [S rn] v5))))"
  by (simp add: export_to_pdf_immediate_def cooldown_def pdf_button_def seq_def bnd_def
        effect_def ret_def split: prod.splits sum.splits)

lemma export_to_pdf_with_idle_unfold:
  "export_to_pdf_with_idle env rn v =
     (case switch_to_frame_with env Tag_button v of
        (Inl e, v1) \<Rightarrow> (Inl e, v1)
      | (Inr b, v1) \<Rightarrow>
          (case wait_report_idle env (IDLE_TIMEOUT_SEC env) (IDLE_STABLE_SECONDS env) rn v1 of
             (Inl e, v2) \<Rightarrow> (Inl e, v2)
           | (Inr b', v2) \<Rightarrow> export_to_pdf_immediate env rn v2))"
  by (simp add: export_to_pdf_with_idle_def seq_def bnd_def split: prod.splits sum.splits)


lemma export_orchestrator_counts:
  assumes "export_orchestrator env rn w = (r, w')"
  shows "\<exists>a f b. counts w w' a f f b \<and> a \<le> nat (IMMEDIATE_TRIES env) \<and> f \<le> a \<and> b \<le> 1
           \<and> (\<not> FORCE_EXPORT_IMMEDIATE env \<longrightarrow> a = 0)
           \<and> (b = 1 \<longrightarrow> \<not> FORCE_EXPORT_IMMEDIATE env \<or> f = nat (IMMEDIATE_TRIES env))
           \<and> (b = 1 \<longleftrightarrow>
                (\<exists>v. (if FORCE_EXPORT_IMMEDIATE env
                       then immediate_loop env rn [1..IMMEDIATE_TRIES env] w else (Inr False, w))
                      = (Inr False, v)))"
proof -
  let ?imm = "if FORCE_EXPORT_IMMEDIATE env
              then immediate_loop env rn [1..IMMEDIATE_TRIES env] w else (Inr False, w)"
  obtain r1 w1 where i: "?imm = (r1, w1)" by (cases ?imm)
  have "\<exists>a f. counts w w1 a f f 0 \<and> a \<le> nat (IMMEDIATE_TRIES env)
          \<and> (\<not> FORCE_EXPORT_IMMEDIATE env \<longrightarrow> a = 0 \<and> f = 0 \<and> r1 = Inr False)
          \<and> (case r1 of Inr ok \<Rightarrow> if ok then a = f + 1
                                  else FORCE_EXPORT_IMMEDIATE env \<longrightarrow>
                                       a = nat (IMMEDIATE_TRIES env) \<and> f = nat (IMMEDIATE_TRIES env)
                       | Inl e \<Rightarrow> a = f)"
  proof (cases "FORCE_EXPORT_IMMEDIATE env")
    case True
    with i have "immediate_loop env rn [1..IMMEDIATE_TRIES env] w = (r1, w1)" by simp
    from immediate_loop_counts[OF this] obtain a f where
      x: "counts w w1 a f f 0" "a \<le> length [1..IMMEDIATE_TRIES env]"
         "case r1 of Inr ok \<Rightarrow> if ok then a = f + 1
                                else a = length [1..IMMEDIATE_TRIES env]
                                   \<and> f = length [1..IMMEDIATE_TRIES env]
                   | Inl e \<Rightarrow> a = f" by blast
    with True show ?thesis
      by (intro exI[of _ a] exI[of _ f]) (auto split: sum.splits if_splits)
  next
    case False
    with i have "r1 = Inr False" "w1 = w" by simp_all
    with False counts_calm[OF calm_refl, of w] show ?thesis
      by (intro exI[of _ 0]) simp
  qed
  then obtain a f where c: "counts w w1 a f f 0" "a \<le> nat (IMMEDIATE_TRIES env)"
     "\<not> FORCE_EXPORT_IMMEDIATE env \<longrightarrow> a = 0 \<and> f = 0 \<and> r1 = Inr False"
     "case r1 of Inr ok \<Rightarrow> if ok then a = f + 1
                                  else FORCE_EXPORT_IMMEDIATE env \<longrightarrow>
                                       a = nat (IMMEDIATE_TRIES env) \<and> f = nat (IMMEDIATE_TRIES env)
                       | Inl e \<Rightarrow> a = f"
    by blast
  note u = export_orchestrator_unfold[of env rn w, unfolded i]
  show ?thesis
  proof (cases r1)
    case (Inl e)
    with u assms have "w' = w1" by simp
    with c Inl i show ?thesis
      by (intro exI[of _ a] exI[of _ f] exI[of _ 0]) auto
  next
    case (Inr ok)
    show ?thesis
    proof (cases ok)
      case True
      with u assms Inr have "w' = w1" by simp
      with c Inr True i show ?thesis
        by (intro exI[of _ a] exI[of _ f] exI[of _ 0]) auto
    next
      case False
      let ?wf = "log INFO ''[{}] Fallback com idle'' [S rn] w1"
      from u assms Inr False have x: "export_to_pdf_with_idle env rn ?wf = (r, w')" by simp
      from counts_trans[OF counts_trans[OF c(1) counts_fallback]
             counts_calm[OF quietD[OF quiet_export_to_pdf_with_idle x]]]
      have "counts w w' a f f 1" by simp
      with c Inr False i show ?thesis
        by (intro exI[of _ a] exI[of _ f] exI[of _ 1]) auto
    qed
  qed
qed

lemma immediate_attempt_counts:
  "immediate_attempt env rn n w = (r, w1) \<Longrightarrow> counts w w1 1 0 0 0"
proof -
  assume a: "immediate_attempt env rn n w = (r, w1)"
  let ?wa = "log INFO ''[{}] Export imediato (tentativa {}/{})'' [S rn, I n, I (IMMEDIATE_TRIES env)] w"
  from a have e: "export_to_pdf_immediate env rn ?wa = (r, w1)"
    by (simp add: immediate_attempt_def seq_def bnd_def effect_def)
  from counts_trans[OF counts_attempt counts_calm[OF quietD[OF quiet_export_to_pdf_immediate e]]]
  show ?thesis by simp
qed

lemma reload_after_counts:
  "reload_after env rn e w = (r, w1) \<Longrightarrow> counts w w1 0 1 1 0"
proof -
  assume a: "reload_after env rn e w = (r, w1)"
  let ?wf = "log WARNING ''[{}] Imediato falhou: {}'' [S rn, E e] w"
  obtain r2 w2 where rf: "refresh env ?wf = (r2, w2)" by (cases "refresh env ?wf")
  from counts_trans[OF counts_failed counts_refresh[OF rf]]
  have c: "counts w w2 0 1 1 0" by simp
  from a rf have "w1 = w2 \<or> w1 = sleep 1000 w2"
    by (cases r2) (auto simp: reload_after_def seq_def bnd_def effect_def)
  with c counts_sleep_right[OF c, of 1000] show ?thesis by auto
qed

lemma immediate_attempt_no_click:
  assumes "\<And>t sel b. click_anywhere_res env t sel b = Some err"
      and "\<And>t. default_content_res env t = None"
      and "PRE_EXPORT_COOLDOWN_SEC env = 1"
  shows "\<exists>w1. immediate_attempt env rn n w = (Inl (no_viable_path rn), w1)
            \<and> clock w1 = clock w + 1500"
  by (simp add: immediate_attempt_def export_to_pdf_immediate_def open_export_menu_unified_def
        strategy_direct_def strategy_overflow_def strategy_filemenu_def click_anywhere_def
        pbix_ready_def default_content_def wait_iframe_def
        seq_def bnd_def effect_def ret_def raise_def try_except_def call_def assms
        split: option.splits)

lemma reload_after_returns:
  "refresh_res env (clock w) = None \<Longrightarrow>
   \<exists>w1. reload_after env rn e w = (Inr (), w1) \<and> clock w1 = clock w + 1000"
  by (simp add: reload_after_def refresh_def seq_def bnd_def effect_def call_def)

lemma reload_after_raises:
  "refresh_res env (clock w) = Some e' \<Longrightarrow> \<exists>w1. reload_after env rn e w = (Inl e', w1)"
  by (simp add: reload_after_def refresh_def seq_def bnd_def effect_def call_def)

lemma upto_1_3: "[1..3] = [1, 2, 3]"
  by (simp add: upto.simps)

text \<open>
  C2, as stated, fails: the fallback is not executed whenever all immediate attempts have
  failed. The reload is inside the \<^verbatim>\<open>except\<close> handler of the loop, so an error of
  \<^verbatim>\<open>driver.refresh()\<close> leaves the loop and the \<^verbatim>\<open>try\<close> block of the report. With the three
  attempts of the default configuration all failing and the third reload raising, the
  orchestration raises the error of the reload, and the fallback is never entered.
\<close>

theorem export_orchestrator_no_fallback_when_reload_raises:
  "FORCE_EXPORT_IMMEDIATE env_reload_dies \<and> IMMEDIATE_TRIES env_reload_dies = 3
   \<and> fst (export_orchestrator env_reload_dies ''Relatorio_A'' w0) = Inl (WebDriverException ''dead'')
   \<and> length (filter is_attempt
        (trace (snd (export_orchestrator env_reload_dies ''Relatorio_A'' w0)))) = 3
   \<and> length (filter is_failed
        (trace (snd (export_orchestrator env_reload_dies ''Relatorio_A'' w0)))) = 3
   \<and> filter is_fallback
        (trace (snd (export_orchestrator env_reload_dies ''Relatorio_A'' w0))) = []"
proof -
  let ?env = env_reload_dies
  let ?rn = "''Relatorio_A''"
  have k: "\<And>t sel b. click_anywhere_res ?env t sel b = Some (TimeoutError ''Elemento nao encontrado'')"
     "\<And>t. default_content_res ?env t = None" "PRE_EXPORT_COOLDOWN_SEC ?env = 1"
    by (simp_all add: env_reload_dies_def env0_def)
  have cfg: "FORCE_EXPORT_IMMEDIATE ?env" "IMMEDIATE_TRIES ?env = 3"
    by (simp_all add: env_reload_dies_def env0_def)
  have rr: "\<And>t. refresh_res ?env t = (if t < 6000 then None else Some (WebDriverException ''dead''))"
    by (simp add: env_reload_dies_def)
  have c0: "clock w0 = 0" "trace w0 = []" by (simp_all add: w0_def)
  from immediate_attempt_no_click[of ?env _ ?rn 1 w0, OF k] c0 obtain a1 where
    a1: "immediate_attempt ?env ?rn 1 w0 = (Inl (no_viable_path ?rn), a1)" "clock a1 = 1500" by auto
  from reload_after_returns[of ?env a1 ?rn "no_viable_path ?rn"] a1(2) rr obtain b1 where
    b1: "reload_after ?env ?rn (no_viable_path ?rn) a1 = (Inr (), b1)" "clock b1 = 2500" by auto
  from immediate_attempt_no_click[of ?env _ ?rn 2 b1, OF k] b1(2) obtain a2 where
    a2: "immediate_attempt ?env ?rn 2 b1 = (Inl (no_viable_path ?rn), a2)" "clock a2 = 4000" by auto
  from reload_after_returns[of ?env a2 ?rn "no_viable_path ?rn"] a2(2) rr obtain b2 where
    b2: "reload_after ?env ?rn (no_viable_path ?rn) a2 = (Inr (), b2)" "clock b2 = 5000" by auto
  from immediate_attempt_no_click[of ?env _ ?rn 3 b2, OF k] b2(2) obtain a3 where
    a3: "immediate_attempt ?env ?rn 3 b2 = (Inl (no_viable_path ?rn), a3)" "clock a3 = 6500" by auto
  from reload_after_raises[of ?env a3 "WebDriverException ''dead''" ?rn "no_viable_path ?rn"] a3(2) rr
  obtain b3 where
    b3: "reload_after ?env ?rn (no_viable_path ?rn) a3 = (Inl (WebDriverException ''dead''), b3)" by auto
  have l: "immediate_loop ?env ?rn [1..IMMEDIATE_TRIES ?env] w0 = (Inl (WebDriverException ''dead''), b3)"
    using a1 b1 a2 b2 a3 b3
    by (simp add: cfg upto_1_3 immediate_loop_step del: immediate_loop.simps(2))
  have o: "export_orchestrator ?env ?rn w0 = (Inl (WebDriverException ''dead''), b3)"
    by (simp add: export_orchestrator_unfold cfg(1) l)
  note s1 = counts_trans[OF immediate_attempt_counts[OF a1(1)] reload_after_counts[OF b1(1)]]
  note s2 = counts_trans[OF immediate_attempt_counts[OF a2(1)] reload_after_counts[OF b2(1)]]
  note s3 = counts_trans[OF immediate_attempt_counts[OF a3(1)] reload_after_counts[OF b3(1)]]
  from counts_trans[OF counts_trans[OF s1 s2] s3] have "counts w0 b3 3 3 3 0"
    by (simp add: numeral_3_eq_3)
  with c0(2) have "length (filter is_attempt (trace b3)) = 3"
     "length (filter is_failed (trace b3)) = 3" "filter is_fallback (trace b3) = []"
    by (auto simp: counts_def)
  with o cfg show ?thesis by simp
qed

lemma open_report_stuck:
  "\<exists>wa. open_report env_stuck Relatorio_A w0 = (Inr [], wa)"
  by (simp add: open_report_def seq_def bnd_def effect_def ret_def listdir_def get_def
        wait_ready_state_def pbix_ready_def default_content_def wait_iframe_def try_except_def
        call_def env_stuck_def env0_def)

text \<open>
  C2, amended. For every run of the export orchestration of a report (the part of
  \<open>process_single_report\<close> between loading the report and waiting for the download):

  \<^item> On the records it adds to the trace: there are at most \<open>IMMEDIATE_TRIES\<close> immediate
    attempts, and none when immediate mode is off; there are as many reloads as failed
    attempts; the fallback is entered at most once, only when immediate mode is off or
    \<open>IMMEDIATE_TRIES\<close> attempts have failed, and exactly when immediate mode is off or the
    loop over all the attempts ended without success and without error.

  \<^item> In immediate mode, when the attempts before attempt \<open>n\<close> have all failed and been
    reloaded, attempt \<open>n\<close> is run: if it returns, the orchestration returns there; if it
    raises, the page is reloaded; if the reload raises, the orchestration raises that
    error there (no further attempt, no fallback); otherwise the attempts up to \<open>n\<close> have
    all failed and been reloaded.

  \<^item> When the loop over all the attempts ended without success and without error, each
    attempt has raised and each reload has returned.

  \<^item> When the immediate phase ended without success and without error (or immediate mode
    is off), the rest of the orchestration is the one run of \<open>export_to_pdf_with_idle\<close>,
    which records no attempt, reload or fallback again: \<open>wait_report_idle\<close> is run, and if
    it raises, this error is the outcome and nothing is navigated; if it returns,
    \<open>export_to_pdf_immediate\<close> is run once, that is one \<open>open_export_menu_unified\<close>, the
    additional button of the direct variant and one \<open>confirm_pdf_export\<close>, and the first of
    them that raises gives the outcome of the orchestration.

  \<^item> When the orchestration raises, \<open>process_single_report\<close> returns \<open>None\<close> and the batch
    loop goes on with the next report, the name recorded among the failures.
\<close>

theorem export_orchestrator_protocol:
  assumes "export_orchestrator env rn w = (r, w')"
  shows "(\<exists>evs. trace w' = trace w @ evs
           \<and> length (filter is_attempt evs) \<le> nat (IMMEDIATE_TRIES env)
           \<and> (\<not> FORCE_EXPORT_IMMEDIATE env \<longrightarrow> filter is_attempt evs = [])
           \<and> length (filter is_refresh evs) = length (filter is_failed evs)
           \<and> length (filter is_failed evs) \<le> length (filter is_attempt evs)
           \<and> length (filter is_fallback evs) \<le> 1
           \<and> (length (filter is_fallback evs) = 1
                 \<longrightarrow> \<not> FORCE_EXPORT_IMMEDIATE env
                     \<or> length (filter is_failed evs) = nat (IMMEDIATE_TRIES env))
           \<and> (length (filter is_fallback evs) = 1
                 \<longleftrightarrow> \<not> FORCE_EXPORT_IMMEDIATE env
                     \<or> (\<exists>v. immediate_loop env rn [1..IMMEDIATE_TRIES env] w = (Inr False, v))))
       \<and> (\<forall>n v. FORCE_EXPORT_IMMEDIATE env \<and> 1 \<le> n \<and> n \<le> IMMEDIATE_TRIES env
                \<and> immediate_loop env rn [1..n - 1] w = (Inr False, v)
              \<longrightarrow> (case immediate_attempt env rn n v of
                     (Inr u, v1) \<Rightarrow> r = Inr () \<and> w' = v1
                   | (Inl e, v1) \<Rightarrow>
                       (case reload_after env rn e v1 of
                          (Inl e', v2) \<Rightarrow> r = Inl e' \<and> w' = v2
                        | (Inr u, v2) \<Rightarrow> immediate_loop env rn [1..n] w = (Inr False, v2))))
       \<and> (\<forall>n v. 1 \<le> n \<and> n \<le> IMMEDIATE_TRIES env
                \<and> immediate_loop env rn [1..IMMEDIATE_TRIES env] w = (Inr False, v)
              \<longrightarrow> (\<exists>u e u1 u2. immediate_loop env rn [1..n - 1] w = (Inr False, u)
                     \<and> immediate_attempt env rn n u = (Inl e, u1)
                     \<and> reload_after env rn e u1 = (Inr (), u2)))
       \<and> (\<forall>v. (if FORCE_EXPORT_IMMEDIATE env
                 then immediate_loop env rn [1..IMMEDIATE_TRIES env] w else (Inr False, w))
                  = (Inr False, v)
              \<longrightarrow> export_to_pdf_with_idle env rn (log INFO ''[{}] Fallback com idle'' [S rn] v)
                    = (r, w')
                \<and> calm (log INFO ''[{}] Fallback com idle'' [S rn] v) w'
                \<and> (case switch_to_frame_with env Tag_button
                           (log INFO ''[{}] Fallback com idle'' [S rn] v) of
                     (Inl e, v1) \<Rightarrow> r = Inl e \<and> w' = v1
                   | (Inr b, v1) \<Rightarrow>
                       (case wait_report_idle env (IDLE_TIMEOUT_SEC env) (IDLE_STABLE_SECONDS env)
                               rn v1 of
                          (Inl e, v2) \<Rightarrow> r = Inl e \<and> w' = v2
                        | (Inr b', v2) \<Rightarrow>
                            export_to_pdf_immediate env rn v2 = (r, w')
                          \<and> (case open_export_menu_unified env rn (cooldown env v2) of
                               (Inl e, v3) \<Rightarrow> r = Inl e \<and> w' = v3
                             | (Inr path_used, v3) \<Rightarrow>
                                 (case pdf_button env path_used v3 of
                                    (Inl e, v4) \<Rightarrow> r = Inl e \<and> w' = v4
                                  | (Inr u, v4) \<Rightarrow>
                                      (case confirm_pdf_export env rn v4 of
                                         (Inl e, v5) \<Rightarrow> r = Inl e \<and> w' = v5
                                       | (Inr c, v5) \<Rightarrow>
                                           r = Inr ()
                                         \<and> w' = log INFO ''[{}] Exportacao acionada (modo imediato).''
                                                  [S rn] v5))))))
       \<and> (\<forall>rep existing w0 e reps oks falhas.
              flags rep \<le> 1 \<and> name rep = rn \<and> open_report env rep w0 = (Inr existing, w)
              \<and> r = Inl e
              \<longrightarrow> process_single_report env rep w0
                    = (Inr None, log ERROR ''Erro em {}'' [S rn, E e] w')
                \<and> run_loop env (rep # reps) oks falhas w0
                    = run_loop env reps oks (falhas @ [rn])
                        (sleep 500 (log ERROR ''Erro em {}'' [S rn, E e] w')))"
proof -
  let ?T = "IMMEDIATE_TRIES env"
  note u = export_orchestrator_unfold[of env rn w]
  have A: "\<exists>evs. trace w' = trace w @ evs
           \<and> length (filter is_attempt evs) \<le> nat (IMMEDIATE_TRIES env)
           \<and> (\<not> FORCE_EXPORT_IMMEDIATE env \<longrightarrow> filter is_attempt evs = [])
           \<and> length (filter is_refresh evs) = length (filter is_failed evs)
           \<and> length (filter is_failed evs) \<le> length (filter is_attempt evs)
           \<and> length (filter is_fallback evs) \<le> 1
           \<and> (length (filter is_fallback evs) = 1
                 \<longrightarrow> \<not> FORCE_EXPORT_IMMEDIATE env
                     \<or> length (filter is_failed evs) = nat (IMMEDIATE_TRIES env))
           \<and> (length (filter is_fallback evs) = 1
                 \<longleftrightarrow> \<not> FORCE_EXPORT_IMMEDIATE env
                     \<or> (\<exists>v. immediate_loop env rn [1..IMMEDIATE_TRIES env] w = (Inr False, v)))"
  proof -
    from export_orchestrator_counts[OF assms] obtain a f b where
      c: "counts w w' a f f b" "a \<le> nat ?T" "f \<le> a" "b \<le> 1"
         "\<not> FORCE_EXPORT_IMMEDIATE env \<longrightarrow> a = 0"
         "b = 1 \<longrightarrow> \<not> FORCE_EXPORT_IMMEDIATE env \<or> f = nat ?T"
         "b = 1 \<longleftrightarrow>
            (\<exists>v. (if FORCE_EXPORT_IMMEDIATE env
                   then immediate_loop env rn [1..?T] w else (Inr False, w)) = (Inr False, v))"
      by blast
    from c(1) obtain evs where e: "trace w' = trace w @ evs"
        "length (filter is_attempt evs) = a" "length (filter is_failed evs) = f"
        "length (filter is_refresh evs) = f" "length (filter is_fallback evs) = b"
      by (auto simp: counts_def)
    have 1: "length (filter is_attempt evs) \<le> nat ?T"
      using c(2) e(2) by simp
    have 2: "\<not> FORCE_EXPORT_IMMEDIATE env \<longrightarrow> filter is_attempt evs = []"
      using c(5) e(2) by (cases "FORCE_EXPORT_IMMEDIATE env") simp_all
    have 3: "length (filter is_refresh evs) = length (filter is_failed evs)"
      using e(3,4) by simp
    have 4: "length (filter is_failed evs) \<le> length (filter is_attempt evs)"
      using c(3) e(2,3) by simp
    have 5: "length (filter is_fallback evs) \<le> 1"
      using c(4) e(5) by simp
    have 6: "length (filter is_fallback evs) = 1
               \<longrightarrow> \<not> FORCE_EXPORT_IMMEDIATE env
                   \<or> length (filter is_failed evs) = nat ?T"
      using c(6) e(3,5) by simp
    have 7: "length (filter is_fallback evs) = 1
               \<longleftrightarrow> \<not> FORCE_EXPORT_IMMEDIATE env
                   \<or> (\<exists>v. immediate_loop env rn [1..?T] w = (Inr False, v))"
      using c(7) e(5) by (cases "FORCE_EXPORT_IMMEDIATE env") simp_all
    from e(1) 1 2 3 4 5 6 7 show ?thesis by (intro exI[of _ evs] conjI)
  qed
  have B: "\<forall>n v. FORCE_EXPORT_IMMEDIATE env \<and> 1 \<le> n \<and> n \<le> IMMEDIATE_TRIES env
                \<and> immediate_loop env rn [1..n - 1] w = (Inr False, v)
              \<longrightarrow> (case immediate_attempt env rn n v of
                     (Inr u, v1) \<Rightarrow> r = Inr () \<and> w' = v1
                   | (Inl e, v1) \<Rightarrow>
                       (case reload_after env rn e v1 of
                          (Inl e', v2) \<Rightarrow> r = Inl e' \<and> w' = v2
                        | (Inr u, v2) \<Rightarrow> immediate_loop env rn [1..n] w = (Inr False, v2)))"
  proof (intro allI impI, elim conjE)
    fix n v
    assume f: "FORCE_EXPORT_IMMEDIATE env" and n: "1 \<le> n" "n \<le> ?T"
       and p: "immediate_loop env rn [1..n - 1] w = (Inr False, v)"
    have all: "immediate_loop env rn [1..?T] w = immediate_loop env rn (n # [n + 1..?T]) v"
      using p by (simp add: upto_split_at[OF n] immediate_loop_append del: immediate_loop.simps(2))
    have upto_n: "immediate_loop env rn [1..n] w = immediate_loop env rn [n] v"
      using p by (simp add: upto_snoc[OF n(1)] immediate_loop_append del: immediate_loop.simps(2))
    obtain r1 v1 where a: "immediate_attempt env rn n v = (r1, v1)"
      by (cases "immediate_attempt env rn n v")
    show "case immediate_attempt env rn n v of
            (Inr u, v1) \<Rightarrow> r = Inr () \<and> w' = v1
          | (Inl e, v1) \<Rightarrow>
              (case reload_after env rn e v1 of
                 (Inl e', v2) \<Rightarrow> r = Inl e' \<and> w' = v2
               | (Inr u, v2) \<Rightarrow> immediate_loop env rn [1..n] w = (Inr False, v2))"
    proof (cases r1)
      case (Inr x)
      with a all have "immediate_loop env rn [1..?T] w = (Inr True, v1)"
        by (simp add: immediate_loop_step del: immediate_loop.simps(2))
      with u f assms a Inr show ?thesis by simp
    next
      case (Inl e)
      obtain r2 v2 where b: "reload_after env rn e v1 = (r2, v2)"
        by (cases "reload_after env rn e v1")
      show ?thesis
      proof (cases r2)
        case (Inl e')
        with a \<open>r1 = Inl e\<close> b all have "immediate_loop env rn [1..?T] w = (Inl e', v2)"
          by (simp add: immediate_loop_step del: immediate_loop.simps(2))
        with u f assms a \<open>r1 = Inl e\<close> b Inl show ?thesis by simp
      next
        case (Inr x)
        with a \<open>r1 = Inl e\<close> b upto_n have "immediate_loop env rn [1..n] w = (Inr False, v2)"
          by (simp add: immediate_loop_step del: immediate_loop.simps(2))
        with a \<open>r1 = Inl e\<close> b Inr show ?thesis by simp
      qed
    qed
  qed
  have C: "\<forall>n v. 1 \<le> n \<and> n \<le> IMMEDIATE_TRIES env
                \<and> immediate_loop env rn [1..IMMEDIATE_TRIES env] w = (Inr False, v)
              \<longrightarrow> (\<exists>u e u1 u2. immediate_loop env rn [1..n - 1] w = (Inr False, u)
                     \<and> immediate_attempt env rn n u = (Inl e, u1)
                     \<and> reload_after env rn e u1 = (Inr (), u2))"
  proof (intro allI impI, elim conjE)
    fix n v
    assume n: "1 \<le> n" "n \<le> ?T"
       and p: "immediate_loop env rn [1..?T] w = (Inr False, v)"
    from p have "immediate_loop env rn ([1..n - 1] @ n # [n + 1..?T]) w = (Inr False, v)"
      by (simp only: upto_split_at[OF n, symmetric])
    from immediate_loop_failed_prefix[OF this]
    show "\<exists>u e u1 u2. immediate_loop env rn [1..n - 1] w = (Inr False, u)
                     \<and> immediate_attempt env rn n u = (Inl e, u1)
                     \<and> reload_after env rn e u1 = (Inr (), u2)" .
  qed
  have D: "\<forall>v. (if FORCE_EXPORT_IMMEDIATE env
                 then immediate_loop env rn [1..IMMEDIATE_TRIES env] w else (Inr False, w))
                  = (Inr False, v)
              \<longrightarrow> export_to_pdf_with_idle env rn (log INFO ''[{}] Fallback com idle'' [S rn] v)
                    = (r, w')
                \<and> calm (log INFO ''[{}] Fallback com idle'' [S rn] v) w'
                \<and> (case switch_to_frame_with env Tag_button
                           (log INFO ''[{}] Fallback com idle'' [S rn] v) of
                     (Inl e, v1) \<Rightarrow> r = Inl e \<and> w' = v1
                   | (Inr b, v1) \<Rightarrow>
                       (case wait_report_idle env (IDLE_TIMEOUT_SEC env) (IDLE_STABLE_SECONDS env)
                               rn v1 of
                          (Inl e, v2) \<Rightarrow> r = Inl e \<and> w' = v2
                        | (Inr b', v2) \<Rightarrow>
                            export_to_pdf_immediate env rn v2 = (r, w')
                          \<and> (case open_export_menu_unified env rn (cooldown env v2) of
                               (Inl e, v3) \<Rightarrow> r = Inl e \<and> w' = v3
                             | (Inr path_used, v3) \<Rightarrow>
                                 (case pdf_button env path_used v3 of
                                    (Inl e, v4) \<Rightarrow> r = Inl e \<and> w' = v4
                                  | (Inr u, v4) \<Rightarrow>
                                      (case confirm_pdf_export env rn v4 of
                                         (Inl e, v5) \<Rightarrow> r = Inl e \<and> w' = v5
                                       | (Inr c, v5) \<Rightarrow>
                                           r = Inr ()
                                         \<and> w' = log INFO ''[{}] Exportacao acionada (modo imediato).''
                                                  [S rn] v5)))))"
  proof (intro allI impI)
    fix v
    assume i: "(if FORCE_EXPORT_IMMEDIATE env
                 then immediate_loop env rn [1..IMMEDIATE_TRIES env] w else (Inr False, w))
                  = (Inr False, v)"
    let ?v0 = "log INFO ''[{}] Fallback com idle'' [S rn] v"
    from assms u[unfolded i]
    have x: "export_to_pdf_with_idle env rn ?v0 = (r, w')" by simp
    have c: "calm ?v0 w'" by (rule quietD[OF quiet_export_to_pdf_with_idle x])
    have s: "case switch_to_frame_with env Tag_button ?v0 of
                     (Inl e, v1) \<Rightarrow> r = Inl e \<and> w' = v1
                   | (Inr b, v1) \<Rightarrow>
                       (case wait_report_idle env (IDLE_TIMEOUT_SEC env) (IDLE_STABLE_SECONDS env)
                               rn v1 of
                          (Inl e, v2) \<Rightarrow> r = Inl e \<and> w' = v2
                        | (Inr b', v2) \<Rightarrow>
                            export_to_pdf_immediate env rn v2 = (r, w')
                          \<and> (case open_export_menu_unified env rn (cooldown env v2) of
                               (Inl e, v3) \<Rightarrow> r = Inl e \<and> w' = v3
                             | (Inr path_used, v3) \<Rightarrow>
                                 (case pdf_button env path_used v3 of
                                    (Inl e, v4) \<Rightarrow> r = Inl e \<and> w' = v4
                                  | (Inr u, v4) \<Rightarrow>
                                      (case confirm_pdf_export env rn v4 of
                                         (Inl e, v5) \<Rightarrow> r = Inl e \<and> w' = v5
                                       | (Inr c, v5) \<Rightarrow>
                                           r = Inr ()
                                         \<and> w' = log INFO ''[{}] Exportacao acionada (modo imediato).''
                                                  [S rn] v5))))"
    proof (cases "switch_to_frame_with env Tag_button ?v0")
      case (Pair r1 v1)
      show ?thesis
      proof (cases r1)
        case (Inl e)
        with Pair x show ?thesis by (simp add: export_to_pdf_with_idle_unfold)
      next
        case (Inr b)
        note r1 = Inr
        show ?thesis
        proof (cases "wait_report_idle env (IDLE_TIMEOUT_SEC env) (IDLE_STABLE_SECONDS env) rn v1")
          case (Pair r2 v2)
          note wr = Pair
          show ?thesis
          proof (cases r2)
            case (Inl e)
            with \<open>switch_to_frame_with env Tag_button ?v0 = (r1, v1)\<close> r1 wr x show ?thesis
              by (simp add: export_to_pdf_with_idle_unfold)
          next
            case (Inr b')
            with \<open>switch_to_frame_with env Tag_button ?v0 = (r1, v1)\<close> r1 wr x
            have y: "export_to_pdf_immediate env rn v2 = (r, w')"
              by (simp add: export_to_pdf_with_idle_unfold)
            from y[unfolded export_to_pdf_immediate_unfold]
            have "case open_export_menu_unified env rn (cooldown env v2) of
                               (Inl e, v3) \<Rightarrow> r = Inl e \<and> w' = v3
                             | (Inr path_used, v3) \<Rightarrow>
                                 (case pdf_button env path_used v3 of
                                    (Inl e, v4) \<Rightarrow> r = Inl e \<and> w' = v4
                                  | (Inr u, v4) \<Rightarrow>
                                      (case confirm_pdf_export env rn v4 of
                                         (Inl e, v5) \<Rightarrow> r = Inl e \<and> w' = v5
                                       | (Inr c, v5) \<Rightarrow>
                                           r = Inr ()
                                         \<and> w' = log INFO ''[{}] Exportacao acionada (modo imediato).''
                                                  [S rn] v5))"
              by (auto split: prod.splits sum.splits)
            with y \<open>switch_to_frame_with env Tag_button ?v0 = (r1, v1)\<close> r1 wr Inr
            show ?thesis by simp
          qed
        qed
      qed
    qed
    from x c s show "export_to_pdf_with_idle env rn ?v0 = (r, w') \<and> calm ?v0 w'
                \<and> (case switch_to_frame_with env Tag_button ?v0 of
                     (Inl e, v1) \<Rightarrow> r = Inl e \<and> w' = v1
                   | (Inr b, v1) \<Rightarrow>
                       (case wait_report_idle env (IDLE_TIMEOUT_SEC env) (IDLE_STABLE_SECONDS env)
                               rn v1 of
                          (Inl e, v2) \<Rightarrow> r = Inl e \<and> w' = v2
                        | (Inr b', v2) \<Rightarrow>
                            export_to_pdf_immediate env rn v2 = (r, w')
                          \<and> (case open_export_menu_unified env rn (cooldown env v2) of
                               (Inl e, v3) \<Rightarrow> r = Inl e \<and> w' = v3
                             | (Inr path_used, v3) \<Rightarrow>
                                 (case pdf_button env path_used v3 of
                                    (Inl e, v4) \<Rightarrow> r = Inl e \<and> w' = v4
                                  | (Inr u, v4) \<Rightarrow>
                                      (case confirm_pdf_export env rn v4 of
                                         (Inl e, v5) \<Rightarrow> r = Inl e \<and> w' = v5
                                       | (Inr c, v5) \<Rightarrow>
                                           r = Inr ()
                                         \<and> w' = log INFO ''[{}] Exportacao acionada (modo imediato).''
                                                  [S rn] v5)))))"
      by (intro conjI)
  qed
  have E: "\<forall>rep existing w0 e reps oks falhas.
              flags rep \<le> 1 \<and> name rep = rn \<and> open_report env rep w0 = (Inr existing, w)
              \<and> r = Inl e
              \<longrightarrow> process_single_report env rep w0
                    = (Inr None, log ERROR ''Erro em {}'' [S rn, E e] w')
                \<and> run_loop env (rep # reps) oks falhas w0
                    = run_loop env reps oks (falhas @ [rn])
                        (sleep 500 (log ERROR ''Erro em {}'' [S rn, E e] w'))"
  proof (intro allI impI, elim conjE)
    fix rep existing w0 e reps oks falhas
    assume v: "flags rep \<le> 1" and n: "name rep = rn"
       and o: "open_report env rep w0 = (Inr existing, w)" and r: "r = Inl e"
    from o assms n r have b: "report_body env rep w0 = (Inl e, w')"
      by (simp add: report_body_def bnd_def seq_def)
    from process_single_report_valid[OF v, of env w0] b n run_loop_step_fail[OF v b, of reps oks falhas]
    show "process_single_report env rep w0
                    = (Inr None, log ERROR ''Erro em {}'' [S rn, E e] w')
                \<and> run_loop env (rep # reps) oks falhas w0
                    = run_loop env reps oks (falhas @ [rn])
                        (sleep 500 (log ERROR ''Erro em {}'' [S rn, E e] w'))"
      by simp
  qed
  from A B C D E show ?thesis by (intro conjI)
qed

theorem export_orchestrator_protocol_witness:
  "\<exists>wa evs w2.
       open_report env_stuck Relatorio_A w0 = (Inr [], wa)
     \<and> trace (snd (export_orchestrator env_stuck ''Relatorio_A'' wa)) = trace wa @ evs
     \<and> length (filter is_attempt evs) = 3 \<and> length (filter is_failed evs) = 3
     \<and> length (filter is_refresh evs) = 3 \<and> length (filter is_fallback evs) = 1
     \<and> fst (export_orchestrator env_stuck ''Relatorio_A'' wa)
         = Inl (TimeoutError ''[Relatorio_A] Nao ficou estavel a tempo.'')
     \<and> process_single_report env_stuck Relatorio_A w0 = (Inr None, w2)"
proof -
  let ?env = env_stuck
  let ?rn = "''Relatorio_A''"
  have k: "\<And>t sel b. click_anywhere_res ?env t sel b = Some (TimeoutError ''Elemento nao encontrado'')"
     "\<And>t. default_content_res ?env t = None" "PRE_EXPORT_COOLDOWN_SEC ?env = 1"
    by (simp_all add: env_stuck_def env0_def)
  have cfg: "FORCE_EXPORT_IMMEDIATE ?env" "IMMEDIATE_TRIES ?env = 3"
    by (simp_all add: env_stuck_def env0_def)
  have rr: "\<And>t. refresh_res ?env t = None" by (simp add: env_stuck_def env0_def)
  from open_report_stuck obtain wa where wa: "open_report ?env Relatorio_A w0 = (Inr [], wa)" by blast
  let ?r = "fst (export_orchestrator ?env ?rn wa)"
  let ?w' = "snd (export_orchestrator ?env ?rn wa)"
  have h: "export_orchestrator ?env ?rn wa = (?r, ?w')" by simp
  note T = export_orchestrator_protocol[OF h]
  from immediate_attempt_no_click[of ?env _ ?rn 1 wa, OF k] obtain a1 where
    a1: "immediate_attempt ?env ?rn 1 wa = (Inl (no_viable_path ?rn), a1)" by auto
  from reload_after_returns[of ?env a1 ?rn "no_viable_path ?rn"] rr obtain b1 where
    b1: "reload_after ?env ?rn (no_viable_path ?rn) a1 = (Inr (), b1)" by auto
  from immediate_attempt_no_click[of ?env _ ?rn 2 b1, OF k] obtain a2 where
    a2: "immediate_attempt ?env ?rn 2 b1 = (Inl (no_viable_path ?rn), a2)" by auto
  from reload_after_returns[of ?env a2 ?rn "no_viable_path ?rn"] rr obtain b2 where
    b2: "reload_after ?env ?rn (no_viable_path ?rn) a2 = (Inr (), b2)" by auto
  from immediate_attempt_no_click[of ?env _ ?rn 3 b2, OF k] obtain a3 where
    a3: "immediate_attempt ?env ?rn 3 b2 = (Inl (no_viable_path ?rn), a3)" by auto
  from reload_after_returns[of ?env a3 ?rn "no_viable_path ?rn"] rr obtain b3 where
    b3: "reload_after ?env ?rn (no_viable_path ?rn) a3 = (Inr (), b3)" by auto
  note B = T[THEN conjunct2, THEN conjunct1, rule_format]
  have l0: "immediate_loop ?env ?rn [1..1 - 1] wa = (Inr False, wa)" by simp
  from B[of 1 wa] cfg l0 a1 b1 have l1: "immediate_loop ?env ?rn [1..1] wa = (Inr False, b1)" by simp
  from B[of 2 b1] cfg l1 a2 b2 have l2: "immediate_loop ?env ?rn [1..2] wa = (Inr False, b2)" by simp
  from B[of 3 b2] cfg l2 a3 b3 have l3: "immediate_loop ?env ?rn [1..3] wa = (Inr False, b3)" by simp
  from T[THEN conjunct1] obtain evs where
    e: "trace ?w' = trace wa @ evs"
       "length (filter is_attempt evs) \<le> nat (IMMEDIATE_TRIES ?env)"
       "length (filter is_refresh evs) = length (filter is_failed evs)"
       "length (filter is_failed evs) \<le> length (filter is_attempt evs)"
       "length (filter is_fallback evs) = 1
          \<longrightarrow> \<not> FORCE_EXPORT_IMMEDIATE ?env
              \<or> length (filter is_failed evs) = nat (IMMEDIATE_TRIES ?env)"
       "length (filter is_fallback evs) = 1
          \<longleftrightarrow> \<not> FORCE_EXPORT_IMMEDIATE ?env
              \<or> (\<exists>v. immediate_loop ?env ?rn [1..IMMEDIATE_TRIES ?env] wa = (Inr False, v))"
    by blast
  from e(6) l3 cfg have fb: "length (filter is_fallback evs) = 1" by auto
  with e(5) cfg have fl: "length (filter is_failed evs) = 3" by simp
  with e(2,3,4) cfg have at: "length (filter is_attempt evs) = 3"
    and rl: "length (filter is_refresh evs) = 3" by simp_all
  let ?v0 = "log INFO ''[{}] Fallback com idle'' [S ?rn] b3"
  from l3 cfg have ph: "(if FORCE_EXPORT_IMMEDIATE ?env
                 then immediate_loop ?env ?rn [1..IMMEDIATE_TRIES ?env] wa else (Inr False, wa))
                  = (Inr False, b3)" by simp
  note D = T[THEN conjunct2, THEN conjunct2, THEN conjunct2, THEN conjunct1, rule_format, OF ph,
             THEN conjunct2, THEN conjunct2]
  have sw: "switch_to_frame_with ?env Tag_button ?v0 = (Inr True, emit (Switch_to_frame_with Tag_button) ?v0)"
    by (simp add: switch_to_frame_with_def ask_def env_stuck_def env0_def)
  let ?v1 = "emit (Switch_to_frame_with Tag_button) ?v0"
  have "\<forall>t. clock ?v1 \<le> t \<and> t < clock ?v1 + 1000 * IDLE_TIMEOUT_SEC ?env
           \<longrightarrow> loading_indicators_res ?env t = Inr True"
    by (simp add: env_stuck_def)
  from wait_idle_loop_busy[OF this, of "IDLE_STABLE_SECONDS ?env" ?rn None] obtain v2 where
    wi: "wait_report_idle ?env (IDLE_TIMEOUT_SEC ?env) (IDLE_STABLE_SECONDS ?env) ?rn ?v1
           = (Inl (TimeoutError (''['' @ ?rn @ ''] Nao ficou estavel a tempo.'')), v2)"
    by (auto simp: wait_report_idle_def)
  from D sw wi have r: "?r = Inl (TimeoutError ''[Relatorio_A] Nao ficou estavel a tempo.'')"
    by simp
  note E = T[THEN conjunct2, THEN conjunct2, THEN conjunct2, THEN conjunct2, rule_format,
             where rep = Relatorio_A and existing = "[]" and ?w0.0 = w0
               and e = "TimeoutError ''[Relatorio_A] Nao ficou estavel a tempo.''"]
  have "flags Relatorio_A \<le> 1" "name Relatorio_A = ?rn"
    by (simp_all add: flags_def Relatorio_A_def)
  with E wa r have p: "process_single_report ?env Relatorio_A w0
      = (Inr None, log ERROR ''Erro em {}''
           [S ?rn, E (TimeoutError ''[Relatorio_A] Nao ficou estavel a tempo.'')] ?w')"
    by simp
  from wa e(1) at fl rl fb r p show ?thesis by blast
qed

end
